theory Spec2Isabelle
  imports Complex_Main "HOL-Library.Monad_Syntax"
begin

section \<open>Numbers, vectors and the library the analyzer is linked against\<close>

text \<open>
  The embedding follows \<^verbatim>\<open>src/libslic3r/SupportSpotsGenerator.cpp\<close>.

  \<^item> \<^verbatim>\<open>float\<close> and \<^verbatim>\<open>double\<close> values are real numbers: arithmetic is exact, there is no
    rounding, no overflow and no NaN. The literal \<^verbatim>\<open>INFINITY\<close> is a real number supplied by
    the environment; it is also the quotient of a positive torque by a conflict arm that is
    zero (\<open>torque_quotient\<close>).
  \<^item> The writes of the threads of \<^verbatim>\<open>tbb::parallel_for\<close> to the one grid are interleaved in an
    order that the environment supplies (\<open>rasterize\<close>).
  \<^item> \<^verbatim>\<open>size_t\<close> indices are natural numbers, \<^verbatim>\<open>int\<close> and \<^verbatim>\<open>coord_t\<close> are integers.
  \<^item> A computation whose C++ behaviour is undefined or that ends in an exception or a failed
    assertion (a vector read out of range, \<^verbatim>\<open>unordered_map::at\<close> on a missing key,
    \<^verbatim>\<open>static_cast\<close> to a class the object does not have, conversion of an infinite float
    to \<^verbatim>\<open>int\<close>, a loop that never ends) has the result \<open>None\<close>.
  \<^item> Debug output (\<^verbatim>\<open>std::cout\<close>, the log, the \<^verbatim>\<open>DEBUG_FILES\<close> dumps) is left out.
\<close>

type_synonym Vec2f = "real \<times> real"
type_synonym Vec3f = "real \<times> real \<times> real"
type_synonym Vec2i = "int \<times> int"
type_synonym Vec3i = "int \<times> int \<times> int"
type_synonym Point = "int \<times> int"

fun add2 :: "Vec2f \<Rightarrow> Vec2f \<Rightarrow> Vec2f" where
  "add2 (x1, y1) (x2, y2) = (x1 + x2, y1 + y2)"

fun sub2 :: "Vec2f \<Rightarrow> Vec2f \<Rightarrow> Vec2f" where
  "sub2 (x1, y1) (x2, y2) = (x1 - x2, y1 - y2)"

fun scale2 :: "Vec2f \<Rightarrow> real \<Rightarrow> Vec2f" where
  "scale2 (x, y) s = (x * s, y * s)"

fun div2 :: "Vec2f \<Rightarrow> real \<Rightarrow> Vec2f" where
  "div2 (x, y) s = (x / s, y / s)"

fun cwiseProduct2 :: "Vec2f \<Rightarrow> Vec2f \<Rightarrow> Vec2f" where
  "cwiseProduct2 (x1, y1) (x2, y2) = (x1 * x2, y1 * y2)"

fun cwiseQuotient2 :: "Vec2f \<Rightarrow> Vec2f \<Rightarrow> Vec2f" where
  "cwiseQuotient2 (x1, y1) (x2, y2) = (x1 / x2, y1 / y2)"

fun cwiseAbs2 :: "Vec2f \<Rightarrow> Vec2f" where
  "cwiseAbs2 (x, y) = (\<bar>x\<bar>, \<bar>y\<bar>)"

fun cwiseSqrt2 :: "Vec2f \<Rightarrow> Vec2f" where
  "cwiseSqrt2 (x, y) = (sqrt x, sqrt y)"

fun squaredNorm2 :: "Vec2f \<Rightarrow> real" where
  "squaredNorm2 (x, y) = x * x + y * y"

definition norm2 :: "Vec2f \<Rightarrow> real" where
  "norm2 v = sqrt (squaredNorm2 v)"

text \<open>Eigen's \<^verbatim>\<open>normalized()\<close> and \<^verbatim>\<open>normalize()\<close>: a vector of squared norm 0 is left as it is.\<close>

definition normalized2 :: "Vec2f \<Rightarrow> Vec2f" where
  "normalized2 v = (let z = squaredNorm2 v in if z > 0 then div2 v (sqrt z) else v)"

fun add3 :: "Vec3f \<Rightarrow> Vec3f \<Rightarrow> Vec3f" where
  "add3 (x1, y1, z1) (x2, y2, z2) = (x1 + x2, y1 + y2, z1 + z2)"

fun sub3 :: "Vec3f \<Rightarrow> Vec3f \<Rightarrow> Vec3f" where
  "sub3 (x1, y1, z1) (x2, y2, z2) = (x1 - x2, y1 - y2, z1 - z2)"

fun scale3 :: "Vec3f \<Rightarrow> real \<Rightarrow> Vec3f" where
  "scale3 (x, y, z) s = (x * s, y * s, z * s)"

fun div3 :: "Vec3f \<Rightarrow> real \<Rightarrow> Vec3f" where
  "div3 (x, y, z) s = (x / s, y / s, z / s)"

fun squaredNorm3 :: "Vec3f \<Rightarrow> real" where
  "squaredNorm3 (x, y, z) = x * x + y * y + z * z"

definition normalized3 :: "Vec3f \<Rightarrow> Vec3f" where
  "normalized3 v = (let z = squaredNorm3 v in if z > 0 then div3 v (sqrt z) else v)"

fun head2 :: "Vec3f \<Rightarrow> Vec2f" where
  "head2 (x, y, z) = (x, y)"

fun z_of :: "Vec3f \<Rightarrow> real" where
  "z_of (x, y, z) = z"

fun to_3d :: "Vec2f \<Rightarrow> real \<Rightarrow> Vec3f" where
  "to_3d (x, y) z = (x, y, z)"

text \<open>Conversion of a float to \<^verbatim>\<open>int\<close> (\<^verbatim>\<open>cast<int>()\<close>) truncates towards zero.\<close>

definition cast_int :: "real \<Rightarrow> int" where
  "cast_int x = (if 0 \<le> x then \<lfloor>x\<rfloor> else \<lceil>x\<rceil>)"

text \<open>Integer division of C++ truncates towards zero.\<close>

definition c_div :: "int \<Rightarrow> int \<Rightarrow> int" where
  "c_div x y = sgn x * sgn y * (\<bar>x\<bar> div \<bar>y\<bar>)"

subsection \<open>Extrusion entities and extrusion lines\<close>

datatype ExtrusionRole =
    erNone | erPerimeter | erExternalPerimeter | erOverhangPerimeter | erInternalInfill
  | erSolidInfill | erTopSolidInfill | erIroning | erBridgeInfill | erGapFill | erSkirt
  | erSupportMaterial | erSupportMaterialInterface | erWipeTower | erCustom | erMixed

datatype FlowRole =
    frExternalPerimeter | frPerimeter | frInfill | frSolidInfill | frTopSolidInfill
  | frSupportMaterial | frSupportMaterialInterface

text \<open>
  The interface of \<^verbatim>\<open>ExtrusionEntity\<close> the analyzer uses, one field per method:
  \<^verbatim>\<open>role()\<close>, \<^verbatim>\<open>is_collection()\<close>, \<^verbatim>\<open>is_loop()\<close>, \<^verbatim>\<open>collect_points()\<close> (scaled integer
  points), \<^verbatim>\<open>min_mm3_per_mm()\<close>, and the member \<^verbatim>\<open>entities\<close> of a collection. The analyzer
  compares entities by pointer; \<open>address\<close> is that pointer.
\<close>

datatype ExtrusionEntity =
  ExtrusionEntity (address: nat) (role: ExtrusionRole) (is_collection: bool) (is_loop: bool)
    (collect_points: "Point list") (min_mm3_per_mm: real) (entities: "ExtrusionEntity list")

record ExtrusionLine =
  line_a :: Vec2f
  line_b :: Vec2f
  len :: real
  origin_entity :: ExtrusionEntity
  support_point_generated :: bool
  malformation :: real

text \<open>The constructor \<^verbatim>\<open>ExtrusionLine(_a, _b, origin_entity)\<close>.\<close>

definition new_ExtrusionLine :: "Vec2f \<Rightarrow> Vec2f \<Rightarrow> ExtrusionEntity \<Rightarrow> ExtrusionLine" where
  "new_ExtrusionLine a b e =
     \<lparr>line_a = a, line_b = b, len = norm2 (sub2 a b), origin_entity = e,
      support_point_generated = False, malformation = 0\<rparr>"

definition is_external_perimeter :: "ExtrusionLine \<Rightarrow> bool" where
  "is_external_perimeter l = (role (origin_entity l) = erExternalPerimeter)"

subsection \<open>What the analyzer takes from the rest of libslic3r\<close>

text \<open>
  The constants and functions below are used by the analyzer and defined in files of
  libslic3r that are not part of the sources at hand. They are parameters of the model:
  \<^verbatim>\<open>EPSILON\<close>, \<^verbatim>\<open>PI\<close>, \<^verbatim>\<open>INFINITY\<close>, \<^verbatim>\<open>SCALING_FACTOR\<close> (the factor of \<^verbatim>\<open>unscale\<close> and
  \<^verbatim>\<open>unscaled\<close>), \<^verbatim>\<open>angle(v1, v2)\<close>, \<^verbatim>\<open>line_alg::distance_to(Linef3(a, b), point)\<close>, and
  \<^verbatim>\<open>AABBTreeLines::squared_distance_to_indexed_lines(lines, tree, point, idx_out, point_out)\<close>,
  which returns the squared distance (negative when nothing is hit) together with its two
  output parameters. The order in which the threads of \<^verbatim>\<open>tbb::parallel_for\<close> come to write is
  a parameter as well: \<open>thread_schedule\<close> (see \<open>rasterize\<close>).
\<close>

record environment =
  EPSILON :: real
  PI :: real
  INFINITY :: real
  SCALING_FACTOR :: real
  angle :: "Vec2f \<Rightarrow> Vec2f \<Rightarrow> real"
  distance_to :: "Vec3f \<times> Vec3f \<Rightarrow> Vec3f \<Rightarrow> real"
  squared_distance_to_indexed_lines :: "ExtrusionLine list \<Rightarrow> Vec2f \<Rightarrow> real \<times> nat \<times> Vec2f"
  thread_schedule :: "nat \<Rightarrow> nat"

definition unscaled :: "environment \<Rightarrow> Point \<Rightarrow> Vec2f" where
  "unscaled env p = (real_of_int (fst p) * SCALING_FACTOR env, real_of_int (snd p) * SCALING_FACTOR env)"

subsection \<open>Inputs and outputs\<close>

record Params =
  bridge_distance :: real
  bridge_distance_decrease_by_curvature_factor :: real
  min_distance_between_support_points :: real
  support_points_interface_radius :: real
  filament_density :: real
  gravity_constant :: real
  max_acceleration :: real
  standard_extruder_conflict_force :: real
  malformations_additive_conflict_extruder_force :: real
  bed_adhesion_yield_strength :: real
  material_yield_strength :: real

record LayerRegion =
  perimeters :: "ExtrusionEntity list"
  fills :: "ExtrusionEntity list"
  flow :: "FlowRole \<Rightarrow> real"

record Layer =
  slice_z :: real
  regions :: "LayerRegion list"

record PrintObject =
  layers :: "Layer list"
  po_size :: Vec3i
  height :: int

definition layer_count :: "PrintObject \<Rightarrow> nat" where
  "layer_count po = length (layers po)"

record SupportPoint =
  position :: Vec3f
  force :: real
  direction :: Vec3f

record Issues =
  support_points :: "SupportPoint list"

definition new_SupportPoint :: "Vec3f \<Rightarrow> real \<Rightarrow> Vec3f \<Rightarrow> SupportPoint" where
  "new_SupportPoint p f d = \<lparr>position = p, force = f, direction = d\<rparr>"

text \<open>\<^verbatim>\<open>issues.support_points.emplace_back(position, force, direction)\<close>.\<close>

definition emplace_back_support_point :: "Issues \<Rightarrow> SupportPoint \<Rightarrow> Issues" where
  "emplace_back_support_point issues sp = issues\<lparr>support_points := support_points issues @ [sp]\<rparr>"

text \<open>Reading a \<^verbatim>\<open>std::vector\<close> at an index: undefined out of range.\<close>

definition at_index :: "'a list \<Rightarrow> nat \<Rightarrow> 'a option" where
  "at_index xs i = (if i < length xs then Some (xs ! i) else None)"

text \<open>A \<^verbatim>\<open>for\<close> loop whose body may fail: the state is threaded through the elements in order.\<close>

fun for_each :: "('s \<Rightarrow> 'a \<Rightarrow> 's option) \<Rightarrow> 's \<Rightarrow> 'a list \<Rightarrow> 's option" where
  "for_each body s [] = Some s"
| "for_each body s (x # xs) = (case body s x of None \<Rightarrow> None | Some s' \<Rightarrow> for_each body s' xs)"

section \<open>LinesDistancer\<close>

text \<open>A \<^verbatim>\<open>LinesDistancer\<close> is its vector of lines; the tree over them belongs to the library.\<close>

type_synonym LinesDistancer = "ExtrusionLine list"

definition get_line :: "LinesDistancer \<Rightarrow> nat \<Rightarrow> ExtrusionLine option" where
  "get_line lines line_idx = at_index lines line_idx"

text \<open>
  \<^verbatim>\<open>signed_distance_from_lines(point, nearest_line_index_out, nearest_point_out)\<close> returns the
  distance and the two output parameters. A negative sign means inside.
\<close>

definition signed_distance_from_lines ::
    "environment \<Rightarrow> LinesDistancer \<Rightarrow> Vec2f \<Rightarrow> (real \<times> nat \<times> Vec2f) option" where
  "signed_distance_from_lines env lines point =
     (case squared_distance_to_indexed_lines env lines point of
        (distance, nearest_line_index_out, nearest_point_out) \<Rightarrow>
          if distance < 0 then Some (INFINITY env, nearest_line_index_out, nearest_point_out)
          else do {
            line \<leftarrow> at_index lines nearest_line_index_out;
            let distance = sqrt distance;
            let v1 = sub2 (line_b line) (line_a line);
            let v2 = sub2 point (line_a line);
            Some (if (fst v1 * snd v2) - (snd v1 * fst v2) > 0 then distance * (-1) else distance,
                  nearest_line_index_out, nearest_point_out)
          })"

definition get_flow_width :: "LayerRegion \<Rightarrow> ExtrusionRole \<Rightarrow> real" where
  "get_flow_width region r =
     (case r of
        erBridgeInfill \<Rightarrow> flow region frExternalPerimeter
      | erExternalPerimeter \<Rightarrow> flow region frExternalPerimeter
      | erGapFill \<Rightarrow> flow region frInfill
      | erPerimeter \<Rightarrow> flow region frPerimeter
      | erSolidInfill \<Rightarrow> flow region frSolidInfill
      | erInternalInfill \<Rightarrow> flow region frInfill
      | erTopSolidInfill \<Rightarrow> flow region frTopSolidInfill
      | _ \<Rightarrow> flow region frPerimeter)"

section \<open>Local stability: \<^verbatim>\<open>check_extrusion_entity_stability\<close>\<close>

record ExtrusionPropertiesAccumulator =
  distance :: real
  curvature :: real
  max_curvature :: real

definition new_accumulator :: ExtrusionPropertiesAccumulator where
  "new_accumulator = \<lparr>distance = 0, curvature = 0, max_curvature = 0\<rparr>"

definition add_distance :: "ExtrusionPropertiesAccumulator \<Rightarrow> real \<Rightarrow> ExtrusionPropertiesAccumulator" where
  "add_distance acc d = acc\<lparr>distance := distance acc + d\<rparr>"

definition add_angle :: "ExtrusionPropertiesAccumulator \<Rightarrow> real \<Rightarrow> ExtrusionPropertiesAccumulator" where
  "add_angle acc ccw_angle =
     (let c = curvature acc + ccw_angle
      in acc\<lparr>curvature := c, max_curvature := max (max_curvature acc) \<bar>c\<bar>\<rparr>)"

definition reset :: "ExtrusionPropertiesAccumulator \<Rightarrow> ExtrusionPropertiesAccumulator" where
  "reset acc = acc\<lparr>distance := 0, curvature := 0, max_curvature := 0\<rparr>"

text \<open>
  Resampling (lines 351 to 369). \<open>lines_between\<close> is the body of the loop over the vertex
  pairs: the sub-segments of the pair \<open>(start, next)\<close>.
\<close>

definition lines_count_between :: "Params \<Rightarrow> Vec2f \<Rightarrow> Vec2f \<Rightarrow> int" where
  "lines_count_between params start next =
     \<lceil>norm2 (sub2 next start) / bridge_distance params\<rceil>"

definition lines_between :: "Params \<Rightarrow> ExtrusionEntity \<Rightarrow> Vec2f \<Rightarrow> Vec2f \<Rightarrow> ExtrusionLine list" where
  "lines_between params entity start next =
     (let v = sub2 next start;
          dist_to_next = norm2 v;
          v = normalized2 v;
          lines_count = lines_count_between params start next;
          step_size = dist_to_next / real_of_int lines_count
      in map (\<lambda>i. new_ExtrusionLine
                     (add2 start (scale2 v (real i * step_size)))
                     (add2 start (scale2 v (real (i + 1) * step_size)))
                     entity)
             [0 ..< nat lines_count])"

text \<open>
  The resampled lines of a path. \<^verbatim>\<open>points[0]\<close> is read without a check, and with
  \<^verbatim>\<open>bridge_distance == 0\<close> the quotient of a vertex pair is infinite or NaN and its
  conversion to \<^verbatim>\<open>int\<close> undefined.
\<close>

definition resample :: "environment \<Rightarrow> Params \<Rightarrow> ExtrusionEntity \<Rightarrow> ExtrusionLine list option" where
  "resample env params entity =
     (let points = collect_points entity in
      if points = [] then None
      else if bridge_distance params = 0 \<and> 1 < length points then None
      else Some (new_ExtrusionLine (unscaled env (points ! 0)) (unscaled env (points ! 0)) entity
                 # concat (map (\<lambda>point_idx. lines_between params entity
                                  (unscaled env (points ! point_idx))
                                  (unscaled env (points ! (point_idx + 1))))
                               [0 ..< length points - 1])))"

text \<open>The bridging test of one line (lines 393 to 405).\<close>

definition bridging_test ::
    "environment \<Rightarrow> Params \<Rightarrow> real \<Rightarrow> real \<Rightarrow> real \<Rightarrow>
     ExtrusionLine \<times> ExtrusionPropertiesAccumulator \<times> Issues \<Rightarrow>
     ExtrusionLine \<times> ExtrusionPropertiesAccumulator \<times> Issues" where
  "bridging_test env params layer_z flow_width dist_from_prev_layer st =
     (case st of (current_line, bridging_acc, issues) \<Rightarrow>
        if \<bar>dist_from_prev_layer\<bar> < flow_width then (current_line, reset bridging_acc, issues)
        else
          let bridging_acc = add_distance bridging_acc (len current_line) in
          if distance bridging_acc
               > bridge_distance params
                 / (1 + (max_curvature bridging_acc
                         * bridge_distance_decrease_by_curvature_factor params / PI env))
          then (current_line\<lparr>support_point_generated := True\<rparr>,
                reset bridging_acc,
                emplace_back_support_point issues
                  (new_SupportPoint (to_3d (line_b current_line) layer_z) 0 (0, 0, -1)))
          else (current_line, bridging_acc, issues))"

text \<open>The malformation update of one line (lines 407 to 418).\<close>

definition carry_malformation ::
    "real \<Rightarrow> LinesDistancer \<Rightarrow> real \<Rightarrow> nat \<Rightarrow>
     ExtrusionLine \<times> ExtrusionPropertiesAccumulator \<Rightarrow>
     (ExtrusionLine \<times> ExtrusionPropertiesAccumulator) option" where
  "carry_malformation flow_width prev_layer_lines dist_from_prev_layer nearest_line_idx st =
     (case st of (current_line, malformation_acc) \<Rightarrow> do {
        current_line \<leftarrow>
          (if \<bar>dist_from_prev_layer\<bar> < flow_width * 2 then do {
             nearest_line \<leftarrow> get_line prev_layer_lines nearest_line_idx;
             Some (current_line\<lparr>malformation :=
                     malformation current_line + 0.9 * malformation nearest_line\<rparr>)
           } else Some current_line);
        if dist_from_prev_layer > flow_width * 0.3 then
          let malformation_acc = add_distance malformation_acc (len current_line) in
          Some (current_line\<lparr>malformation := malformation current_line
                  + 0.15 * (0.8 + 0.2 * max_curvature malformation_acc
                                  / (1 + 0.5 * distance malformation_acc))\<rparr>,
                malformation_acc)
        else Some (current_line, reset malformation_acc)
      })"

text \<open>
  The body of the loop over the resampled lines (lines 378 to 418); \<open>next_line\<close> is
  \<^verbatim>\<open>lines[line_idx + 1]\<close> when there is one.
\<close>

definition check_line ::
    "environment \<Rightarrow> Params \<Rightarrow> real \<Rightarrow> real \<Rightarrow> LinesDistancer \<Rightarrow> ExtrusionLine option \<Rightarrow>
     ExtrusionLine \<Rightarrow> ExtrusionPropertiesAccumulator \<times> ExtrusionPropertiesAccumulator \<times> Issues \<Rightarrow>
     (ExtrusionLine \<times> ExtrusionPropertiesAccumulator \<times> ExtrusionPropertiesAccumulator \<times> Issues) option" where
  "check_line env params layer_z flow_width prev_layer_lines next_line current_line st =
     (case st of (bridging_acc, malformation_acc, issues) \<Rightarrow>
        let curr_angle =
              (case next_line of
                 None \<Rightarrow> 0
               | Some n \<Rightarrow> angle env (sub2 (line_b current_line) (line_a current_line))
                                      (sub2 (line_b n) (line_a n)));
            bridging_acc = add_angle bridging_acc curr_angle;
            malformation_acc = add_angle malformation_acc (max 0 curr_angle)
        in do {
          (dist_from_prev_layer, nearest_line_idx, nearest_point) \<leftarrow>
            signed_distance_from_lines env prev_layer_lines (line_b current_line);
          (current_line, bridging_acc, issues) \<leftarrow>
            Some (bridging_test env params layer_z flow_width dist_from_prev_layer
                    (current_line, bridging_acc, issues));
          (current_line, malformation_acc) \<leftarrow>
            carry_malformation flow_width prev_layer_lines dist_from_prev_layer nearest_line_idx
              (current_line, malformation_acc);
          Some (current_line, bridging_acc, malformation_acc, issues)
        })"

fun check_lines ::
    "environment \<Rightarrow> Params \<Rightarrow> real \<Rightarrow> real \<Rightarrow> LinesDistancer \<Rightarrow> ExtrusionLine list \<Rightarrow>
     ExtrusionPropertiesAccumulator \<times> ExtrusionPropertiesAccumulator \<times> Issues \<Rightarrow>
     (ExtrusionLine list \<times> ExtrusionPropertiesAccumulator \<times> ExtrusionPropertiesAccumulator \<times> Issues) option" where
  "check_lines env params layer_z flow_width prev_layer_lines [] st = Some ([], st)"
| "check_lines env params layer_z flow_width prev_layer_lines (current_line # rest) st = do {
     (current_line, st) \<leftarrow>
       check_line env params layer_z flow_width prev_layer_lines
         (case rest of [] \<Rightarrow> None | n # _ \<Rightarrow> Some n) current_line st;
     (rest, st) \<leftarrow> check_lines env params layer_z flow_width prev_layer_lines rest st;
     Some (current_line # rest, st)
   }"

text \<open>
  The branch of a single extrusion path (lines 347 to 421): the lines appended to
  \<^verbatim>\<open>checked_lines_out\<close> and the issues.
\<close>

definition check_path ::
    "environment \<Rightarrow> Params \<Rightarrow> real \<Rightarrow> LayerRegion \<Rightarrow> LinesDistancer \<Rightarrow> ExtrusionEntity \<Rightarrow>
     ExtrusionLine list \<times> Issues \<Rightarrow> (ExtrusionLine list \<times> Issues) option" where
  "check_path env params layer_z layer_region prev_layer_lines entity st =
     (case st of (checked_lines_out, issues) \<Rightarrow> do {
        lines \<leftarrow> resample env params entity;
        let bridging_acc = add_distance new_accumulator (bridge_distance params + 1);
        let malformation_acc = new_accumulator;
        let flow_width = get_flow_width layer_region (role entity);
        (lines, bridging_acc, malformation_acc, issues) \<leftarrow>
          check_lines env params layer_z flow_width prev_layer_lines lines
            (bridging_acc, malformation_acc, issues);
        Some (checked_lines_out @ lines, issues)
      })"

fun check_extrusion_entity_stability ::
    "environment \<Rightarrow> Params \<Rightarrow> real \<Rightarrow> LayerRegion \<Rightarrow> LinesDistancer \<Rightarrow> ExtrusionEntity \<Rightarrow>
     ExtrusionLine list \<times> Issues \<Rightarrow> (ExtrusionLine list \<times> Issues) option"
and check_extrusion_entities_stability ::
    "environment \<Rightarrow> Params \<Rightarrow> real \<Rightarrow> LayerRegion \<Rightarrow> LinesDistancer \<Rightarrow> ExtrusionEntity list \<Rightarrow>
     ExtrusionLine list \<times> Issues \<Rightarrow> (ExtrusionLine list \<times> Issues) option" where
  "check_extrusion_entity_stability env params layer_z layer_region prev_layer_lines
     (ExtrusionEntity ad r coll lp pts mm es) st =
     (if coll then
        check_extrusion_entities_stability env params layer_z layer_region prev_layer_lines es st
      else
        check_path env params layer_z layer_region prev_layer_lines
          (ExtrusionEntity ad r coll lp pts mm es) st)"
| "check_extrusion_entities_stability env params layer_z layer_region prev_layer_lines [] st = Some st"
| "check_extrusion_entities_stability env params layer_z layer_region prev_layer_lines (e # es) st = do {
     st \<leftarrow> check_extrusion_entity_stability env params layer_z layer_region prev_layer_lines e st;
     check_extrusion_entities_stability env params layer_z layer_region prev_layer_lines es st
   }"

text \<open>\<^verbatim>\<open>lines[line_idx + 1]\<close> under the guard \<^verbatim>\<open>line_idx + 1 < lines.size()\<close>.\<close>

definition next_line_of :: "ExtrusionLine list \<Rightarrow> nat \<Rightarrow> ExtrusionLine option" where
  "next_line_of lines line_idx = (if line_idx + 1 < length lines then Some (lines ! (line_idx + 1)) else None)"


section \<open>PixelGrid\<close>

text \<open>\<^verbatim>\<open>NULL_ISLAND\<close> is the largest \<^verbatim>\<open>size_t\<close> (64 bit).\<close>

definition NULL_ISLAND :: nat where
  "NULL_ISLAND = 18446744073709551615"

record PixelGrid =
  pixel_size :: Vec2f
  origin :: Vec2f
  grid_size :: Vec2f
  pixel_count :: Vec2i
  pixels :: "nat list"

definition clear :: "PixelGrid \<Rightarrow> PixelGrid" where
  "clear grid = grid\<lparr>pixels := map (\<lambda>val. NULL_ISLAND) (pixels grid)\<rparr>"

text \<open>
  The constructor \<^verbatim>\<open>PixelGrid(po, resolution)\<close>. With \<^verbatim>\<open>resolution == 0\<close> the quotient
  \<^verbatim>\<open>size.cwiseQuotient(pixel_size)\<close> is infinite and its conversion to \<^verbatim>\<open>int\<close> undefined; a
  negative number of pixels cannot be allocated.
\<close>

definition size_half :: "PrintObject \<Rightarrow> Point" where
  "size_half po = (case po_size po of (sx, sy, sz) \<Rightarrow> (c_div sx 2 + 1, c_div sy 2 + 1))"

definition new_PixelGrid :: "environment \<Rightarrow> PrintObject \<Rightarrow> real \<Rightarrow> PixelGrid option" where
  "new_PixelGrid env po resolution =
     (let pixel_size' = (resolution, resolution);
          min' = unscaled env (- fst (size_half po), - snd (size_half po));
          max' = unscaled env (fst (size_half po), snd (size_half po));
          origin' = min';
          size' = sub2 max' min';
          q = cwiseQuotient2 size' pixel_size';
          pixel_count' = (cast_int (fst q) + 1, cast_int (snd q) + 1)
      in if resolution = 0 \<or> snd pixel_count' * fst pixel_count' < 0 then None
         else Some (clear \<lparr>pixel_size = pixel_size', origin = origin', grid_size = size',
                            pixel_count = pixel_count',
                            pixels = replicate (nat (snd pixel_count' * fst pixel_count')) 0\<rparr>))"

definition pixel_area :: "PixelGrid \<Rightarrow> real" where
  "pixel_area grid = fst (pixel_size grid) * snd (pixel_size grid)"

definition to_pixel_coords :: "PixelGrid \<Rightarrow> Vec2f \<Rightarrow> Vec2i" where
  "to_pixel_coords grid pos =
     (case cwiseQuotient2 (sub2 pos (origin grid)) (pixel_size grid) of
        (x, y) \<Rightarrow> (cast_int x, cast_int y))"

text \<open>\<^verbatim>\<open>to_pixel_index\<close> with its four assertions.\<close>

definition to_pixel_index :: "PixelGrid \<Rightarrow> Vec2i \<Rightarrow> nat option" where
  "to_pixel_index grid pixel_coords =
     (if 0 \<le> fst pixel_coords \<and> fst pixel_coords < fst (pixel_count grid)
         \<and> 0 \<le> snd pixel_coords \<and> snd pixel_coords < snd (pixel_count grid)
      then Some (nat (snd pixel_coords * fst (pixel_count grid) + fst pixel_coords))
      else None)"

definition get_pixel :: "PixelGrid \<Rightarrow> Vec2i \<Rightarrow> nat option" where
  "get_pixel grid coords = do {
     i \<leftarrow> to_pixel_index grid coords;
     at_index (pixels grid) i
   }"

definition get_pixel_center :: "PixelGrid \<Rightarrow> Vec2i \<Rightarrow> Vec2f" where
  "get_pixel_center grid coords =
     add2 (add2 (origin grid)
                (cwiseProduct2 (real_of_int (fst coords), real_of_int (snd coords)) (pixel_size grid)))
          (cwiseQuotient2 (pixel_size grid) (2, 2))"

text \<open>The assignment \<^verbatim>\<open>this->access_pixel(position) = value\<close>.\<close>

definition set_pixel :: "PixelGrid \<Rightarrow> Vec2f \<Rightarrow> nat \<Rightarrow> PixelGrid option" where
  "set_pixel grid pos val = do {
     i \<leftarrow> to_pixel_index grid (to_pixel_coords grid pos);
     if i < length (pixels grid) then Some (grid\<lparr>pixels := (pixels grid)[i := val]\<rparr>) else None
   }"

text \<open>
  The \<^verbatim>\<open>while\<close> loop of \<^verbatim>\<open>distribute_edge\<close>: the locations it writes, one after another.
  They depend on the edge and the step only, not on the pixels. The loop makes progress only
  with a positive step; \<open>distribute_edge_locations\<close> below gives the other case, in which the
  loop of the source never ends, the result \<open>None\<close>.
\<close>

function distribute_steps :: "Vec2f \<Rightarrow> Vec2f \<Rightarrow> real \<Rightarrow> real \<Rightarrow> real \<Rightarrow> Vec2f list" where
  "distribute_steps p1 dir edge_length step_size distributed_length =
     (if 0 < step_size \<and> distributed_length < edge_length then
        let next_len = min edge_length (distributed_length + step_size);
            location = add2 p1 (scale2 dir (next_len / edge_length))
        in location # distribute_steps p1 dir edge_length step_size next_len
      else [])"
  by pat_completeness auto
termination
proof (relation "measure (\<lambda>(p1, dir, edge_length, step_size, distributed_length).
                   nat \<lceil>(edge_length - distributed_length) / step_size\<rceil>)", goal_cases)
  case 1
  show ?case by simp
next
  case (2 p1 dir edge_length step_size distributed_length next_len location)
  then have s: "0 < step_size" and d: "distributed_length < edge_length"
    and n: "next_len = min edge_length (distributed_length + step_size)"
    by simp_all
  have pos: "0 < (edge_length - distributed_length) / step_size" using s d by simp
  show ?case
  proof (cases "edge_length \<le> distributed_length + step_size")
    case True
    then have "next_len = edge_length" using n by simp
    then show ?thesis using pos by simp
  next
    case False
    then have nl: "next_len = distributed_length + step_size" using n by simp
    have "(edge_length - next_len) / step_size = (edge_length - distributed_length) / step_size - 1"
      using s by (simp add: nl field_simps)
    moreover have "0 < (edge_length - distributed_length) / step_size - 1"
      using False s by (simp add: field_simps)
    ultimately show ?thesis by simp
  qed
qed

declare distribute_steps.simps [simp del]

text \<open>
  The locations that \<^verbatim>\<open>distribute_edge(p1, p2, value)\<close> writes: none for an edge shorter than
  0.1.
\<close>

definition distribute_edge_locations :: "PixelGrid \<Rightarrow> Vec2f \<Rightarrow> Vec2f \<Rightarrow> Vec2f list option" where
  "distribute_edge_locations grid p1 p2 =
     (let dir = sub2 p2 p1;
          edge_length = norm2 dir
      in if edge_length < 0.1 then Some []
         else
           let step_size = fst (pixel_size grid) / 2.0 in
           if step_size \<le> 0 then None
           else Some (distribute_steps p1 dir edge_length step_size 0))"

text \<open>\<^verbatim>\<open>distribute_edge\<close> on a grid that no other thread writes.\<close>

definition distribute_edge :: "PixelGrid \<Rightarrow> Vec2f \<Rightarrow> Vec2f \<Rightarrow> nat \<Rightarrow> PixelGrid option" where
  "distribute_edge grid p1 p2 val = do {
     locations \<leftarrow> distribute_edge_locations grid p1 p2;
     for_each (\<lambda>grid location. set_pixel grid location val) grid locations
   }"

section \<open>SupportGridFilter\<close>

record SupportGridFilter =
  cell_size :: Vec3f
  filter_origin :: Vec3f
  filter_size :: Vec3f
  cell_count :: Vec3i
  taken_cells :: "nat set"

text \<open>The constructor \<^verbatim>\<open>SupportGridFilter(po, voxel_size)\<close>.\<close>

definition new_SupportGridFilter :: "environment \<Rightarrow> PrintObject \<Rightarrow> real \<Rightarrow> SupportGridFilter option" where
  "new_SupportGridFilter env po voxel_size =
     (let cell_size' = (voxel_size, voxel_size, voxel_size);
          sh = size_half po;
          min' = sub3 (real_of_int (- fst sh) * SCALING_FACTOR env,
                       real_of_int (- snd sh) * SCALING_FACTOR env,
                       real_of_int 0 * SCALING_FACTOR env) cell_size';
          max' = add3 (real_of_int (fst sh) * SCALING_FACTOR env,
                       real_of_int (snd sh) * SCALING_FACTOR env,
                       real_of_int (height po) * SCALING_FACTOR env) cell_size';
          size' = sub3 max' min'
      in if voxel_size = 0 then None
         else Some \<lparr>cell_size = cell_size', filter_origin = min', filter_size = size',
                     cell_count = (case size' of (sx, sy, sz) \<Rightarrow>
                        (cast_int (sx / voxel_size) + 1, cast_int (sy / voxel_size) + 1,
                         cast_int (sz / voxel_size) + 1)),
                     taken_cells = {}\<rparr>)"

definition to_cell_coords :: "SupportGridFilter \<Rightarrow> Vec3f \<Rightarrow> Vec3i" where
  "to_cell_coords grid pos =
     (case (sub3 pos (filter_origin grid), cell_size grid) of
        ((x, y, z), (cx, cy, cz)) \<Rightarrow> (cast_int (x / cx), cast_int (y / cy), cast_int (z / cz)))"

text \<open>\<^verbatim>\<open>to_cell_index\<close> with its six assertions.\<close>

definition to_cell_index :: "SupportGridFilter \<Rightarrow> Vec3i \<Rightarrow> nat option" where
  "to_cell_index grid cell_coords =
     (case (cell_coords, cell_count grid) of
        ((x, y, z), (nx, ny, nz)) \<Rightarrow>
          if 0 \<le> x \<and> x < nx \<and> 0 \<le> y \<and> y < ny \<and> 0 \<le> z \<and> z < nz
          then Some (nat (z * nx * ny + y * nx + x))
          else None)"

definition take_position :: "SupportGridFilter \<Rightarrow> Vec3f \<Rightarrow> SupportGridFilter option" where
  "take_position grid pos = do {
     i \<leftarrow> to_cell_index grid (to_cell_coords grid pos);
     Some (grid\<lparr>taken_cells := insert i (taken_cells grid)\<rparr>)
   }"

definition position_taken :: "SupportGridFilter \<Rightarrow> Vec3f \<Rightarrow> bool option" where
  "position_taken grid pos = do {
     i \<leftarrow> to_cell_index grid (to_cell_coords grid pos);
     Some (i \<in> taken_cells grid)
   }"

section \<open>Connections, islands and object parts\<close>

record IslandConnection =
  area :: real
  centroid_accumulator :: Vec3f
  second_moment_of_area_accumulator :: Vec2f

definition new_IslandConnection :: IslandConnection where
  "new_IslandConnection =
     \<lparr>area = 0, centroid_accumulator = (0, 0, 0), second_moment_of_area_accumulator = (0, 0)\<rparr>"

text \<open>\<^verbatim>\<open>IslandConnection::add\<close>.\<close>

definition add_connection :: "IslandConnection \<Rightarrow> IslandConnection \<Rightarrow> IslandConnection" where
  "add_connection this other =
     \<lparr>area = area this + area other,
      centroid_accumulator = add3 (centroid_accumulator this) (centroid_accumulator other),
      second_moment_of_area_accumulator =
        add2 (second_moment_of_area_accumulator this) (second_moment_of_area_accumulator other)\<rparr>"

text \<open>
  \<^verbatim>\<open>ObjectPart\<close> has the five accumulators of \<^verbatim>\<open>Island\<close>; an \<^verbatim>\<open>Island\<close> is the record
  extended by its connections and its external lines, and the constructor
  \<^verbatim>\<open>ObjectPart(const Island &)\<close> is the truncation of the record. The
  \<^verbatim>\<open>unordered_map\<close> of connections is an association list with one entry per key, in the
  order in which the keys were first inserted.
\<close>

record ObjectPart =
  volume :: real
  volume_centroid_accumulator :: Vec3f
  sticking_area :: real
  sticking_centroid_accumulator :: Vec3f
  sticking_second_moment_of_area_accumulator :: Vec2f

record Island = ObjectPart +
  connected_islands :: "(nat \<times> IslandConnection) list"
  external_lines :: "ExtrusionLine list"

record LayerIslands =
  islands :: "Island list"
  layer_z :: real

definition new_Island :: Island where
  "new_Island =
     \<lparr>volume = 0, volume_centroid_accumulator = (0, 0, 0), sticking_area = 0,
      sticking_centroid_accumulator = (0, 0, 0),
      sticking_second_moment_of_area_accumulator = (0, 0),
      connected_islands = [], external_lines = []\<rparr>"

definition ObjectPart_of_Island :: "Island \<Rightarrow> ObjectPart" where
  "ObjectPart_of_Island island = ObjectPart.truncate island"

text \<open>\<^verbatim>\<open>ObjectPart::add\<close> and \<^verbatim>\<open>ObjectPart::add_support_point\<close>.\<close>

definition add_part :: "ObjectPart \<Rightarrow> ObjectPart \<Rightarrow> ObjectPart" where
  "add_part this other =
     \<lparr>volume = volume this + volume other,
      volume_centroid_accumulator =
        add3 (volume_centroid_accumulator this) (volume_centroid_accumulator other),
      sticking_area = sticking_area this + sticking_area other,
      sticking_centroid_accumulator =
        add3 (sticking_centroid_accumulator this) (sticking_centroid_accumulator other),
      sticking_second_moment_of_area_accumulator =
        add2 (sticking_second_moment_of_area_accumulator this)
             (sticking_second_moment_of_area_accumulator other)\<rparr>"

definition add_support_point :: "ObjectPart \<Rightarrow> Vec3f \<Rightarrow> real \<Rightarrow> ObjectPart" where
  "add_support_point this pos sticking_area' =
     this\<lparr>sticking_area := sticking_area this + sticking_area',
          sticking_centroid_accumulator :=
            add3 (sticking_centroid_accumulator this) (scale3 pos sticking_area'),
          sticking_second_moment_of_area_accumulator :=
            add2 (sticking_second_moment_of_area_accumulator this)
                 (scale2 (cwiseProduct2 (head2 pos) (head2 pos)) sticking_area')\<rparr>"

section \<open>Island reckoning: \<^verbatim>\<open>reckon_islands\<close>\<close>

text \<open>
  The conversion \<^verbatim>\<open>size_t(n)\<close> of an \<^verbatim>\<open>int\<close> or of a difference of \<^verbatim>\<open>size_t\<close> values: a
  negative number wraps around (\<^verbatim>\<open>size_t\<close> has 64 bits, \<^verbatim>\<open>int\<close> at most as many).
\<close>

definition size_t_of_int :: "int \<Rightarrow> nat" where
  "size_t_of_int n = (if n < 0 then nat (n + 2 ^ 64) else nat n)"

text \<open>
  Lines 433 to 443: the extrusions, as pairs \<open>[start, end)\<close> of indices into \<open>layer_lines\<close>. The
  state of the loop is the vector \<open>extrusions\<close> and the pointer \<open>current_ex\<close>
  (\<open>None\<close> is \<^verbatim>\<open>nullptr\<close>).
\<close>

definition extrusions_step ::
    "ExtrusionLine list \<Rightarrow> (nat \<times> nat) list \<times> nat option \<Rightarrow> nat \<Rightarrow> (nat \<times> nat) list \<times> nat option" where
  "extrusions_step layer_lines st lidx =
     (case st of (extrusions, current_ex) \<Rightarrow>
        let line = layer_lines ! lidx in
        if Some (address (origin_entity line)) = current_ex
        then (butlast extrusions @ [(fst (last extrusions), lidx + 1)], current_ex)
        else (extrusions @ [(lidx, lidx + 1)], Some (address (origin_entity line))))"

definition extract_extrusions :: "ExtrusionLine list \<Rightarrow> (nat \<times> nat) list" where
  "extract_extrusions layer_lines =
     fst (foldl (extrusions_step layer_lines) ([], None) [0 ..< length layer_lines])"

text \<open>The copy of the lines of one extrusion (lines 451 to 454 and 463 to 466).\<close>

definition extrusion_lines :: "ExtrusionLine list \<Rightarrow> nat \<times> nat \<Rightarrow> ExtrusionLine list" where
  "extrusion_lines layer_lines ex = map (\<lambda>ex_line_idx. layer_lines ! ex_line_idx) [fst ex ..< snd ex]"

text \<open>Lines 449 to 458: one island candidate for each external perimeter.\<close>

definition seed_islands ::
    "ExtrusionLine list \<Rightarrow> (nat \<times> nat) list \<Rightarrow> LinesDistancer list \<times> nat list list" where
  "seed_islands layer_lines extrusions =
     foldl (\<lambda>(island_distancers, island_extrusions) e.
              if is_external_perimeter (layer_lines ! fst (extrusions ! e))
              then (island_distancers @ [extrusion_lines layer_lines (extrusions ! e)],
                    island_extrusions @ [[e]])
              else (island_distancers, island_extrusions))
           ([], []) [0 ..< length extrusions]"

text \<open>Lines 462 to 469: without an external perimeter the first extrusion is the island.\<close>

definition seed_backup ::
    "ExtrusionLine list \<Rightarrow> (nat \<times> nat) list \<Rightarrow> LinesDistancer list \<times> nat list list \<Rightarrow>
     LinesDistancer list \<times> nat list list" where
  "seed_backup layer_lines extrusions st =
     (case st of (island_distancers, island_extrusions) \<Rightarrow>
        if island_distancers = [] \<and> extrusions \<noteq> []
        then (island_distancers @ [extrusion_lines layer_lines (extrusions ! 0)],
              island_extrusions @ [[0]])
        else (island_distancers, island_extrusions))"

text \<open>\<^verbatim>\<open>island_extrusions[i].push_back(e)\<close>.\<close>

definition push_back_at :: "nat list list \<Rightarrow> nat \<Rightarrow> nat \<Rightarrow> nat list list option" where
  "push_back_at island_extrusions i e =
     (if i < length island_extrusions
      then Some (island_extrusions[i := island_extrusions ! i @ [e]])
      else None)"

text \<open>
  Lines 475 to 483: the index of the first island, from index \<open>i\<close> on, whose signed distance
  from the point is negative.
\<close>

fun first_island_containing ::
    "environment \<Rightarrow> LinesDistancer list \<Rightarrow> nat \<Rightarrow> Vec2f \<Rightarrow> nat option option" where
  "first_island_containing env [] i p = Some None"
| "first_island_containing env (island # rest) i p = do {
     (d, idx, pt) \<leftarrow> signed_distance_from_lines env island p;
     if d < 0 then Some (Some i) else first_island_containing env rest (i + 1) p
   }"

text \<open>Lines 472 to 489: the other extrusions go to the first island that contains them, or to island 0.\<close>

definition assign_extrusion ::
    "environment \<Rightarrow> ExtrusionLine list \<Rightarrow> (nat \<times> nat) list \<Rightarrow> LinesDistancer list \<Rightarrow>
     nat list list \<Rightarrow> nat \<Rightarrow> nat list list option" where
  "assign_extrusion env layer_lines extrusions island_distancers island_extrusions e =
     (if \<not> is_external_perimeter (layer_lines ! fst (extrusions ! e)) then do {
        found \<leftarrow> first_island_containing env island_distancers 0
                   (line_a (layer_lines ! fst (extrusions ! e)));
        case found of
          Some i \<Rightarrow> push_back_at island_extrusions i e
        | None \<Rightarrow> push_back_at island_extrusions 0 e
      } else Some island_extrusions)"

definition assign_extrusions ::
    "environment \<Rightarrow> ExtrusionLine list \<Rightarrow> (nat \<times> nat) list \<Rightarrow> LinesDistancer list \<Rightarrow>
     nat list list \<Rightarrow> nat list list option" where
  "assign_extrusions env layer_lines extrusions island_distancers island_extrusions =
     for_each (assign_extrusion env layer_lines extrusions island_distancers)
       island_extrusions [0 ..< length extrusions]"

text \<open>Lines 491 to 507: islands embedded in another island are merged into it.\<close>

definition merge_step ::
    "environment \<Rightarrow> LinesDistancer list \<Rightarrow> nat \<Rightarrow> nat list list \<Rightarrow> nat \<Rightarrow> nat list list option" where
  "merge_step env island_distancers i island_extrusions j =
     (if island_distancers ! j = [] \<or> i = j then Some island_extrusions
      else do {
        first_line \<leftarrow> get_line (island_distancers ! j) 0;
        (d, idx, pt) \<leftarrow> signed_distance_from_lines env (island_distancers ! i) (line_a first_line);
        if d < 0
        then Some (island_extrusions[i := island_extrusions ! i @ island_extrusions ! j, j := []])
        else Some island_extrusions
      })"

definition merge_islands ::
    "environment \<Rightarrow> LinesDistancer list \<Rightarrow> nat list list \<Rightarrow> nat list list option" where
  "merge_islands env island_distancers island_extrusions =
     for_each (\<lambda>island_extrusions i.
                 if island_distancers ! i = [] then Some island_extrusions
                 else for_each (merge_step env island_distancers i) island_extrusions
                        [0 ..< length island_distancers])
       island_extrusions [0 ..< length island_distancers]"

text \<open>Lines 524 to 544: one line of an island; the state is the island and \<open>line_to_island_mapping\<close>.\<close>

definition add_line_to_island ::
    "bool \<Rightarrow> real \<Rightarrow> real \<Rightarrow> ExtrusionLine list \<Rightarrow> nat \<Rightarrow> Island \<times> nat list \<Rightarrow> nat \<Rightarrow> Island \<times> nat list" where
  "add_line_to_island first_layer flow_width z layer_lines island_idx st lidx =
     (case st of (island, line_to_island_mapping) \<Rightarrow>
        let line_to_island_mapping = line_to_island_mapping[lidx := island_idx];
            line = layer_lines ! lidx;
            volume' = min_mm3_per_mm (origin_entity line) * len line;
            island = island\<lparr>
              volume := volume island + volume',
              volume_centroid_accumulator :=
                add3 (volume_centroid_accumulator island)
                     (scale3 (to_3d (div2 (add2 (line_a line) (line_b line)) 2) z) volume')\<rparr>
        in if first_layer then
             let sticking_area' = len line * flow_width;
                 middle = div2 (add2 (line_a line) (line_b line)) 2
             in (island\<lparr>
                   sticking_area := sticking_area island + sticking_area',
                   sticking_centroid_accumulator :=
                     add3 (sticking_centroid_accumulator island)
                          (scale3 (to_3d middle z) sticking_area'),
                   sticking_second_moment_of_area_accumulator :=
                     add2 (sticking_second_moment_of_area_accumulator island)
                          (scale2 (cwiseProduct2 middle middle) sticking_area')\<rparr>,
                 line_to_island_mapping)
           else if support_point_generated (layer_lines ! lidx) then
             let sticking_area' = len line * flow_width
             in (island\<lparr>
                   sticking_area := sticking_area island + sticking_area',
                   sticking_centroid_accumulator :=
                     add3 (sticking_centroid_accumulator island)
                          (scale3 (to_3d (line_b line) z) sticking_area'),
                   sticking_second_moment_of_area_accumulator :=
                     add2 (sticking_second_moment_of_area_accumulator island)
                          (scale2 (cwiseProduct2 (line_b line) (line_b line)) sticking_area')\<rparr>,
                 line_to_island_mapping)
           else (island, line_to_island_mapping))"

text \<open>Lines 514 to 547: one island for every non-empty list of extrusions.\<close>

definition build_island ::
    "bool \<Rightarrow> real \<Rightarrow> real \<Rightarrow> ExtrusionLine list \<Rightarrow> (nat \<times> nat) list \<Rightarrow>
     Island list \<times> nat list \<Rightarrow> nat list \<Rightarrow> Island list \<times> nat list" where
  "build_island first_layer flow_width z layer_lines extrusions st island_ex =
     (case st of (result_islands, line_to_island_mapping) \<Rightarrow>
        if island_ex = [] then (result_islands, line_to_island_mapping)
        else
          let island = new_Island\<lparr>external_lines :=
                extrusion_lines layer_lines (extrusions ! (island_ex ! 0))\<rparr>;
              (island, line_to_island_mapping) =
                foldl (add_line_to_island first_layer flow_width z layer_lines (length result_islands))
                  (island, line_to_island_mapping)
                  (concat (map (\<lambda>extrusion_idx.
                             [fst (extrusions ! extrusion_idx) ..< snd (extrusions ! extrusion_idx)])
                           island_ex))
          in (result_islands @ [island], line_to_island_mapping))"

definition build_islands ::
    "bool \<Rightarrow> real \<Rightarrow> real \<Rightarrow> ExtrusionLine list \<Rightarrow> (nat \<times> nat) list \<Rightarrow> nat list list \<Rightarrow>
     Island list \<times> nat list" where
  "build_islands first_layer flow_width z layer_lines extrusions island_extrusions =
     foldl (build_island first_layer flow_width z layer_lines extrusions)
       ([], replicate (length layer_lines) NULL_ISLAND) island_extrusions"

text \<open>
  The order in which concurrent threads come to write. Each thread has a list of writes to
  make, in this order; \<open>interleave schedule k writes\<close> is the order of all of them in which the
  write number \<open>k\<close> is made by the thread \<open>schedule k\<close>, counted among the threads that still
  have something to write. Every interleaving is of this form.
\<close>

function interleave :: "(nat \<Rightarrow> nat) \<Rightarrow> nat \<Rightarrow> 'a list list \<Rightarrow> 'a list" where
  "interleave schedule k writes =
     (let ready = filter (\<lambda>i. writes ! i \<noteq> []) [0 ..< length writes] in
      if ready = [] then []
      else
        let i = ready ! (schedule k mod length ready) in
        hd (writes ! i) # interleave schedule (k + 1) (writes[i := tl (writes ! i)]))"
  by pat_completeness auto

lemma sum_list_length_update:
  assumes "i < length xss" and "xss ! i \<noteq> []"
  shows "sum_list (map length (xss[i := tl (xss ! i)])) < sum_list (map length xss)"
  using assms
proof (induction xss arbitrary: i)
  case Nil
  then show ?case by simp
next
  case (Cons xs xss)
  show ?case
  proof (cases i)
    case 0
    with Cons.prems show ?thesis by (cases xs) simp_all
  next
    case (Suc j)
    with Cons.prems Cons.IH [of j] show ?thesis by simp
  qed
qed

termination interleave
proof (relation "measure (\<lambda>(schedule, k, writes). sum_list (map length writes))", goal_cases)
  case 1
  show ?case by simp
next
  case (2 schedule k writes ready i)
  from 2(2) have "schedule k mod length ready < length ready" by simp
  with 2(3) have "i \<in> set ready" by simp
  with 2(1) have "i < length writes" "writes ! i \<noteq> []" by simp_all
  from sum_list_length_update [OF this] show ?case by simp
qed

declare interleave.simps [simp del]

text \<open>
  Lines 553 to 561: the index image of the current layer. \<^verbatim>\<open>tbb::parallel_for\<close> distributes
  the lines over threads that call \<^verbatim>\<open>distribute_edge\<close> on the one grid without
  synchronisation: the writes of a line keep their order, the writes of different lines come
  in an order that the program does not fix, and a pixel keeps what was written to it last.
  \<open>line_writes\<close> are the writes of the line \<open>i\<close>, a location and the island id each.
\<close>

definition line_writes ::
    "PixelGrid \<Rightarrow> ExtrusionLine list \<Rightarrow> nat list \<Rightarrow> nat \<Rightarrow> (Vec2f \<times> nat) list option" where
  "line_writes grid layer_lines line_to_island_mapping i =
     map_option (map (\<lambda>location. (location, line_to_island_mapping ! i)))
       (distribute_edge_locations grid (line_a (layer_lines ! i)) (line_b (layer_lines ! i)))"

definition rasterize ::
    "environment \<Rightarrow> PixelGrid \<Rightarrow> ExtrusionLine list \<Rightarrow> nat list \<Rightarrow> PixelGrid option" where
  "rasterize env current_layer_grid layer_lines line_to_island_mapping = do {
     writes \<leftarrow> those (map (line_writes current_layer_grid layer_lines line_to_island_mapping)
                        [0 ..< length layer_lines]);
     for_each (\<lambda>grid (location, island). set_pixel grid location island) current_layer_grid
       (interleave (thread_schedule env) 0 writes)
   }"

text \<open>
  \<^verbatim>\<open>connected_islands[key]\<close> followed by an update of the connection: a missing key is
  inserted with a connection of zeros first.
\<close>

fun update_connection ::
    "(nat \<times> IslandConnection) list \<Rightarrow> nat \<Rightarrow> (IslandConnection \<Rightarrow> IslandConnection) \<Rightarrow>
     (nat \<times> IslandConnection) list" where
  "update_connection [] key f = [(key, f new_IslandConnection)]"
| "update_connection ((k, c) # rest) key f =
     (if k = key then (k, f c) # rest else (k, c) # update_connection rest key f)"

text \<open>Lines 571 to 576: the contribution of one pixel to a connection.\<close>

definition add_pixel :: "PixelGrid \<Rightarrow> real \<Rightarrow> Vec2i \<Rightarrow> IslandConnection \<Rightarrow> IslandConnection" where
  "add_pixel current_layer_grid z coords connection =
     (let current_coords = get_pixel_center current_layer_grid coords in
      connection\<lparr>
        area := area connection + pixel_area current_layer_grid,
        centroid_accumulator :=
          add3 (centroid_accumulator connection)
               (scale3 (to_3d current_coords z) (pixel_area current_layer_grid)),
        second_moment_of_area_accumulator :=
          add2 (second_moment_of_area_accumulator connection)
               (scale2 (cwiseProduct2 current_coords current_coords)
                       (pixel_area current_layer_grid))\<rparr>)"

text \<open>Lines 566 to 577: the body of the loops over the pixels.\<close>

definition overlap_step ::
    "PixelGrid \<Rightarrow> PixelGrid \<Rightarrow> real \<Rightarrow> Island list \<Rightarrow> Vec2i \<Rightarrow> Island list option" where
  "overlap_step current_layer_grid prev_layer_grid z result_islands coords = do {
     cur \<leftarrow> get_pixel current_layer_grid coords;
     if cur \<noteq> NULL_ISLAND then do {
       prev \<leftarrow> get_pixel prev_layer_grid coords;
       if prev \<noteq> NULL_ISLAND then do {
         island \<leftarrow> at_index result_islands cur;
         Some (result_islands[cur := island\<lparr>connected_islands :=
                 update_connection (connected_islands island) prev
                   (add_pixel current_layer_grid z coords)\<rparr>])
       } else Some result_islands
     } else Some result_islands
   }"

definition compute_overlaps ::
    "PixelGrid \<Rightarrow> PixelGrid \<Rightarrow> real \<Rightarrow> Island list \<Rightarrow> Island list option" where
  "compute_overlaps current_layer_grid prev_layer_grid z result_islands =
     for_each (\<lambda>result_islands x.
                 for_each (\<lambda>result_islands y.
                             overlap_step current_layer_grid prev_layer_grid z result_islands
                               (int x, int y))
                   result_islands
                   [0 ..< size_t_of_int (snd (pixel_count current_layer_grid))])
       result_islands [0 ..< size_t_of_int (fst (pixel_count current_layer_grid))]"

text \<open>
  Lines 431 to 547 of \<^verbatim>\<open>reckon_islands\<close>: the islands of the layer, still without
  connections, and \<open>line_to_island_mapping\<close>, the island id of every line.
\<close>

definition islands_of_lines ::
    "environment \<Rightarrow> Layer \<Rightarrow> bool \<Rightarrow> ExtrusionLine list \<Rightarrow> (Island list \<times> nat list) option" where
  "islands_of_lines env layer first_layer layer_lines = do {
     let extrusions = extract_extrusions layer_lines;
     let (island_distancers, island_extrusions) =
           seed_backup layer_lines extrusions (seed_islands layer_lines extrusions);
     island_extrusions \<leftarrow>
       assign_extrusions env layer_lines extrusions island_distancers island_extrusions;
     island_extrusions \<leftarrow> merge_islands env island_distancers island_extrusions;
     region \<leftarrow> at_index (regions layer) 0;
     let flow_width = get_flow_width region erExternalPerimeter;
     Some (build_islands first_layer flow_width (slice_z layer) layer_lines extrusions
             island_extrusions)
   }"

definition reckon_islands ::
    "environment \<Rightarrow> Layer \<Rightarrow> bool \<Rightarrow> nat \<Rightarrow> PixelGrid \<Rightarrow> ExtrusionLine list \<Rightarrow> Params \<Rightarrow>
     (LayerIslands \<times> PixelGrid) option" where
  "reckon_islands env layer first_layer prev_layer_islands_count prev_layer_grid layer_lines params = do {
     (result_islands, line_to_island_mapping) \<leftarrow>
       islands_of_lines env layer first_layer layer_lines;
     current_layer_grid \<leftarrow>
       rasterize env (clear prev_layer_grid) layer_lines line_to_island_mapping;
     result_islands \<leftarrow>
       compute_overlaps current_layer_grid prev_layer_grid (slice_z layer) result_islands;
     Some (\<lparr>islands = result_islands, layer_z = slice_z layer\<rparr>, current_layer_grid)
   }"

section \<open>The stability test: \<^verbatim>\<open>ObjectPart::is_stable_while_extruding\<close>\<close>

text \<open>
  The local variables of the function are definitions of their own, under their names in the
  source; \<open>is_stable_while_extruding\<close> below is the function's control flow over them.
\<close>

definition line_dir :: "ExtrusionLine \<Rightarrow> Vec2f" where
  "line_dir extruded_line = normalized2 (sub2 (line_b extruded_line) (line_a extruded_line))"

definition compute_elastic_section_modulus ::
    "environment \<Rightarrow> Vec2f \<Rightarrow> Vec3f \<Rightarrow> Vec2f \<Rightarrow> real \<Rightarrow> real" where
  "compute_elastic_section_modulus env line_dir' centroid_accumulator'
       second_moment_of_area_accumulator' area' =
     (let centroid = div3 centroid_accumulator' area';
          variance = sub2 (div2 second_moment_of_area_accumulator' area')
                          (cwiseProduct2 (head2 centroid) (head2 centroid));
          variance = cwiseProduct2 variance (cwiseAbs2 line_dir');
          extreme_fiber_dist = norm2 (cwiseSqrt2 variance)
      in if extreme_fiber_dist < EPSILON env then 0
         else area' * (fst variance + snd variance) / extreme_fiber_dist)"

definition mass_centroid :: "ObjectPart \<Rightarrow> Vec3f" where
  "mass_centroid this = div3 (volume_centroid_accumulator this) (volume this)"

definition mass :: "ObjectPart \<Rightarrow> Params \<Rightarrow> real" where
  "mass this params = volume this * filament_density params"

definition weight :: "ObjectPart \<Rightarrow> Params \<Rightarrow> real" where
  "weight this params = mass this params * gravity_constant params"

definition movement_force :: "ObjectPart \<Rightarrow> Params \<Rightarrow> real" where
  "movement_force this params = max_acceleration params * mass this params"

definition extruder_pressure_direction :: "ExtrusionLine \<Rightarrow> Vec3f" where
  "extruder_pressure_direction extruded_line =
     (case to_3d (line_dir extruded_line) 0 of
        (x, y, z) \<Rightarrow> normalized3 (x, y, - malformation extruded_line * 0.5))"

definition endpoint :: "ExtrusionLine \<Rightarrow> real \<Rightarrow> Vec3f" where
  "endpoint extruded_line layer_z' = to_3d (line_b extruded_line) layer_z'"

definition extruder_conflict_force :: "ExtrusionLine \<Rightarrow> Params \<Rightarrow> real" where
  "extruder_conflict_force extruded_line params =
     standard_extruder_conflict_force params
     + min (malformation extruded_line) 1 * malformations_additive_conflict_extruder_force params"

text \<open>
  The arm and the total torque about a centroid: the common shape of the bed section (with
  \<open>scale = 1\<close>, the sticking accumulators and \<^verbatim>\<open>bed_adhesion_yield_strength\<close>) and of the
  weak connection section (with \<open>scale = conn_centroid.z() / layer_z\<close>, the connection's
  accumulators and \<^verbatim>\<open>material_yield_strength\<close>).
\<close>

definition conflict_torque_arm :: "environment \<Rightarrow> ExtrusionLine \<Rightarrow> real \<Rightarrow> Vec3f \<Rightarrow> real" where
  "conflict_torque_arm env extruded_line layer_z' centroid =
     distance_to env
       (endpoint extruded_line layer_z',
        add3 (endpoint extruded_line layer_z') (extruder_pressure_direction extruded_line))
       centroid"

definition bed_centroid :: "ObjectPart \<Rightarrow> Vec3f" where
  "bed_centroid this = div3 (sticking_centroid_accumulator this) (sticking_area this)"

definition bed_conflict_torque_arm :: "environment \<Rightarrow> ObjectPart \<Rightarrow> ExtrusionLine \<Rightarrow> real \<Rightarrow> real" where
  "bed_conflict_torque_arm env this extruded_line layer_z' =
     conflict_torque_arm env extruded_line layer_z' (bed_centroid this)"

definition bed_total_torque ::
    "environment \<Rightarrow> ObjectPart \<Rightarrow> ExtrusionLine \<Rightarrow> real \<Rightarrow> Params \<Rightarrow> real" where
  "bed_total_torque env this extruded_line layer_z' params =
     (let bed_yield_torque =
            compute_elastic_section_modulus env (line_dir extruded_line)
              (sticking_centroid_accumulator this)
              (sticking_second_moment_of_area_accumulator this) (sticking_area this)
            * bed_adhesion_yield_strength params;
          bed_weight_arm = norm2 (sub2 (head2 (bed_centroid this)) (head2 (mass_centroid this)));
          bed_weight_torque = bed_weight_arm * weight this params;
          bed_movement_arm = max 0 (z_of (mass_centroid this) - z_of (bed_centroid this));
          bed_movement_torque = movement_force this params * bed_movement_arm;
          bed_extruder_conflict_torque =
            extruder_conflict_force extruded_line params
            * bed_conflict_torque_arm env this extruded_line layer_z'
      in bed_movement_torque + bed_extruder_conflict_torque + bed_weight_torque - bed_yield_torque)"

definition conn_centroid :: "IslandConnection \<Rightarrow> Vec3f" where
  "conn_centroid connection = div3 (centroid_accumulator connection) (area connection)"

definition conn_conflict_torque_arm ::
    "environment \<Rightarrow> IslandConnection \<Rightarrow> ExtrusionLine \<Rightarrow> real \<Rightarrow> real" where
  "conn_conflict_torque_arm env connection extruded_line layer_z' =
     conflict_torque_arm env extruded_line layer_z' (conn_centroid connection)"

definition conn_total_torque ::
    "environment \<Rightarrow> ObjectPart \<Rightarrow> IslandConnection \<Rightarrow> ExtrusionLine \<Rightarrow> real \<Rightarrow> Params \<Rightarrow> real" where
  "conn_total_torque env this connection extruded_line layer_z' params =
     (let conn_yield_torque =
            compute_elastic_section_modulus env (line_dir extruded_line)
              (centroid_accumulator connection)
              (second_moment_of_area_accumulator connection) (area connection)
            * material_yield_strength params;
          conn_weight_arm =
            norm2 (sub2 (head2 (conn_centroid connection)) (head2 (mass_centroid this)));
          conn_weight_torque =
            conn_weight_arm * weight this params * (z_of (conn_centroid connection) / layer_z');
          conn_movement_arm =
            max 0 (z_of (mass_centroid this) - z_of (conn_centroid connection));
          conn_movement_torque = movement_force this params * conn_movement_arm;
          conn_extruder_conflict_torque =
            extruder_conflict_force extruded_line params
            * conn_conflict_torque_arm env connection extruded_line layer_z'
      in conn_movement_torque + conn_extruder_conflict_torque + conn_weight_torque
         - conn_yield_torque)"

text \<open>
  The quotient that the function returns. The conflict arm is a distance and may be zero:
  the float quotient by zero is the infinity with the sign of the numerator, and \<^verbatim>\<open>0 / 0\<close> is
  not a number. The result is only ever compared with zero (\<^verbatim>\<open>force > 0\<close>, line 913), which is
  false of what is not a number; the model, which has no such value, takes 0 in its place.
\<close>

definition torque_quotient :: "environment \<Rightarrow> real \<Rightarrow> real \<Rightarrow> real" where
  "torque_quotient env total_torque conflict_torque_arm' =
     (if conflict_torque_arm' \<noteq> 0 then total_torque / conflict_torque_arm'
      else if 0 < total_torque then INFINITY env
      else if total_torque < 0 then - INFINITY env
      else 0)"

definition is_stable_while_extruding ::
    "environment \<Rightarrow> ObjectPart \<Rightarrow> IslandConnection \<Rightarrow> ExtrusionLine \<Rightarrow> real \<Rightarrow> Params \<Rightarrow> real" where
  "is_stable_while_extruding env this connection extruded_line layer_z' params =
     (if sticking_area this < EPSILON env then 1
      else if bed_total_torque env this extruded_line layer_z' params > 0 then
        torque_quotient env (bed_total_torque env this extruded_line layer_z' params)
          (bed_conflict_torque_arm env this extruded_line layer_z')
      else if area connection < EPSILON env then 1
      else torque_quotient env (conn_total_torque env this connection extruded_line layer_z' params)
             (conn_conflict_torque_arm env connection extruded_line layer_z'))"

section \<open>The part tracker: \<^verbatim>\<open>ActiveObjectParts\<close>\<close>

record ActiveObjectParts =
  next_part_idx :: nat
  active_object_parts :: "nat \<rightharpoonup> ObjectPart"
  active_object_parts_id_mapping :: "nat \<rightharpoonup> nat"

definition new_ActiveObjectParts :: ActiveObjectParts where
  "new_ActiveObjectParts =
     \<lparr>next_part_idx = 0, active_object_parts = Map.empty,
      active_object_parts_id_mapping = Map.empty\<rparr>"

text \<open>\<^verbatim>\<open>unordered_map::emplace\<close> leaves an existing entry as it is.\<close>

definition emplace :: "('k \<rightharpoonup> 'v) \<Rightarrow> 'k \<Rightarrow> 'v \<Rightarrow> ('k \<rightharpoonup> 'v)" where
  "emplace m k v = (case m k of None \<Rightarrow> m(k \<mapsto> v) | Some old \<Rightarrow> m)"

text \<open>
  The two loops of \<^verbatim>\<open>get_flat_id\<close>. \<^verbatim>\<open>at\<close> throws on a missing key; a loop that does not
  end has no result.
\<close>

partial_function (option) find_root :: "(nat \<rightharpoonup> nat) \<Rightarrow> nat \<Rightarrow> nat option" where
  "find_root id_mapping index =
     (case id_mapping index of
        None \<Rightarrow> None
      | Some parent \<Rightarrow> if index \<noteq> parent then find_root id_mapping parent else Some index)"

partial_function (option) compress_path :: "nat \<Rightarrow> (nat \<rightharpoonup> nat) \<Rightarrow> nat \<Rightarrow> (nat \<rightharpoonup> nat) option" where
  "compress_path index id_mapping i =
     (case id_mapping i of
        None \<Rightarrow> None
      | Some next \<Rightarrow>
          if index \<noteq> next then compress_path index (id_mapping(i \<mapsto> index)) next
          else Some id_mapping)"

definition get_flat_id :: "ActiveObjectParts \<Rightarrow> nat \<Rightarrow> (nat \<times> ActiveObjectParts) option" where
  "get_flat_id this id' = do {
     index \<leftarrow> active_object_parts_id_mapping this id';
     index \<leftarrow> find_root (active_object_parts_id_mapping this) index;
     id_mapping \<leftarrow> compress_path index (active_object_parts_id_mapping this) id';
     Some (index, this\<lparr>active_object_parts_id_mapping := id_mapping\<rparr>)
   }"

text \<open>
  \<^verbatim>\<open>access\<close> returns a reference to the part under the flat id; the model returns the flat
  id with the part, and \<open>store_part\<close> writes through the reference.
\<close>

definition access :: "ActiveObjectParts \<Rightarrow> nat \<Rightarrow> (nat \<times> ObjectPart \<times> ActiveObjectParts) option" where
  "access this id' = do {
     (flat_id, this) \<leftarrow> get_flat_id this id';
     part \<leftarrow> active_object_parts this flat_id;
     Some (flat_id, part, this)
   }"

definition store_part :: "ActiveObjectParts \<Rightarrow> nat \<Rightarrow> ObjectPart \<Rightarrow> ActiveObjectParts" where
  "store_part this flat_id part =
     this\<lparr>active_object_parts := (active_object_parts this)(flat_id \<mapsto> part)\<rparr>"

definition insert_island :: "ActiveObjectParts \<Rightarrow> Island \<Rightarrow> nat \<times> ActiveObjectParts" where
  "insert_island this island =
     (next_part_idx this,
      this\<lparr>active_object_parts :=
             emplace (active_object_parts this) (next_part_idx this) (ObjectPart_of_Island island),
           active_object_parts_id_mapping :=
             emplace (active_object_parts_id_mapping this) (next_part_idx this) (next_part_idx this),
           next_part_idx := next_part_idx this + 1\<rparr>)"

definition merge :: "ActiveObjectParts \<Rightarrow> nat \<Rightarrow> nat \<Rightarrow> ActiveObjectParts option" where
  "merge this from to = do {
     (to_flat, this) \<leftarrow> get_flat_id this to;
     (from_flat, this) \<leftarrow> get_flat_id this from;
     to_part \<leftarrow> active_object_parts this to_flat;
     from_part \<leftarrow> active_object_parts this from_flat;
     let parts = (active_object_parts this)(to_flat \<mapsto> add_part to_part from_part);
     let parts = parts(from_flat := None);
     Some (this\<lparr>active_object_parts := parts,
                active_object_parts_id_mapping :=
                  (active_object_parts_id_mapping this)(from \<mapsto> to_flat)\<rparr>)
   }"

subsection \<open>Representatives\<close>

text \<open>
  \<open>reaches id_mapping i r k\<close>: following \<^verbatim>\<open>active_object_parts_id_mapping\<close> from \<open>i\<close> for \<open>k\<close>
  steps ends in \<open>r\<close>, an id that is mapped to itself. The invariant of the tracker: every id
  handed out so far reaches a key of \<^verbatim>\<open>active_object_parts\<close>, and every such key is mapped
  to itself.
\<close>

inductive reaches :: "(nat \<rightharpoonup> nat) \<Rightarrow> nat \<Rightarrow> nat \<Rightarrow> nat \<Rightarrow> bool" for id_mapping where
  root: "id_mapping r = Some r \<Longrightarrow> reaches id_mapping r r 0"
| step: "id_mapping i = Some p \<Longrightarrow> i \<noteq> p \<Longrightarrow> reaches id_mapping p r k \<Longrightarrow> reaches id_mapping i r (Suc k)"

definition tracker_invariant :: "ActiveObjectParts \<Rightarrow> bool" where
  "tracker_invariant this \<longleftrightarrow>
     (\<forall>i < next_part_idx this.
        \<exists>r k. reaches (active_object_parts_id_mapping this) i r k \<and>
              r \<in> dom (active_object_parts this)) \<and>
     (\<forall>r \<in> dom (active_object_parts this).
        active_object_parts_id_mapping this r = Some r \<and> r < next_part_idx this) \<and>
     dom (active_object_parts_id_mapping this) = {..< next_part_idx this}"

text \<open>
  \<open>tracked ids this\<close>: the tracker \<open>this\<close> is the result of a sequence of calls on the empty
  tracker in which \<^verbatim>\<open>insert\<close> has returned the ids \<open>ids\<close> and every \<^verbatim>\<open>merge(from, to)\<close> was given
  a key of \<^verbatim>\<open>active_object_parts\<close> as \<open>from\<close> and an id with another representative as \<open>to\<close>.
  Lines 853 to 867 call \<^verbatim>\<open>merge\<close> so: both arguments are results of \<^verbatim>\<open>get_flat_id\<close> and they
  differ. The calls are those of the class: \<^verbatim>\<open>insert\<close>, \<^verbatim>\<open>get_flat_id\<close>, \<^verbatim>\<open>access\<close> followed by
  a write through the reference it returns, and \<^verbatim>\<open>merge\<close>.
\<close>

inductive tracked :: "nat set \<Rightarrow> ActiveObjectParts \<Rightarrow> bool" where
  empty: "tracked {} new_ActiveObjectParts"
| inserted: "tracked ids this \<Longrightarrow>
     tracked (insert (fst (insert_island this island)) ids) (snd (insert_island this island))"
| flattened: "tracked ids this \<Longrightarrow> get_flat_id this id' = Some (flat_id, this') \<Longrightarrow> tracked ids this'"
| accessed: "tracked ids this \<Longrightarrow> access this id' = Some (flat_id, part, this') \<Longrightarrow>
     tracked ids (store_part this' flat_id part')"
| merged: "tracked ids this \<Longrightarrow> from \<in> dom (active_object_parts this) \<Longrightarrow> to \<in> ids \<Longrightarrow>
     map_option fst (get_flat_id this to) \<noteq> Some from \<Longrightarrow> merge this from to = Some this' \<Longrightarrow>
     tracked ids this'"

section \<open>Global stability: \<^verbatim>\<open>check_global_stability\<close>\<close>

text \<open>
  The state of the function: the issues, the part tracker, the presence grid and the maps from
  the islands of the previous and of the next layer to their parts and weakest connections.
\<close>

record GlobalState =
  issues_of :: Issues
  parts_of :: ActiveObjectParts
  supports_presence_grid :: SupportGridFilter
  prev_island_to_object_part_mapping :: "nat \<rightharpoonup> nat"
  next_island_to_object_part_mapping :: "nat \<rightharpoonup> nat"
  prev_island_weakest_connection :: "nat \<rightharpoonup> IslandConnection"
  next_island_weakest_connection :: "nat \<rightharpoonup> IslandConnection"

text \<open>
  Lines 853 to 859: the loop over the connections of an island. The set \<open>parts_ids\<close> is a
  list without repetitions in the order of insertion (the order of an \<^verbatim>\<open>unordered_set\<close> is
  not specified).
\<close>

definition collect_connection ::
    "GlobalState \<Rightarrow> ActiveObjectParts \<times> nat list \<times> IslandConnection \<times> IslandConnection \<Rightarrow>
     nat \<times> IslandConnection \<Rightarrow>
     (ActiveObjectParts \<times> nat list \<times> IslandConnection \<times> IslandConnection) option" where
  "collect_connection st acc connection =
     (case acc of (parts, parts_ids, transfered_weakest_connection, new_weakest_connection) \<Rightarrow> do {
        prev_part \<leftarrow> prev_island_to_object_part_mapping st (fst connection);
        (part_id, parts) \<leftarrow> get_flat_id parts prev_part;
        prev_weakest \<leftarrow> prev_island_weakest_connection st (fst connection);
        Some (parts, (if part_id \<in> set parts_ids then parts_ids else parts_ids @ [part_id]),
              add_connection transfered_weakest_connection prev_weakest,
              add_connection new_weakest_connection (snd connection))
      })"

text \<open>Lines 860 to 867; \<open>parts_ids.begin()\<close> is the first element of the list.\<close>

definition merge_parts :: "ActiveObjectParts \<Rightarrow> nat list \<Rightarrow> (nat \<times> ActiveObjectParts) option" where
  "merge_parts parts parts_ids =
     (case parts_ids of
        [] \<Rightarrow> None
      | final_part_id # rest \<Rightarrow> do {
          parts \<leftarrow> for_each (\<lambda>parts part_id.
                               if final_part_id \<noteq> part_id then merge parts part_id final_part_id
                               else Some parts)
                     parts parts_ids;
          Some (final_part_id, parts)
        })"

definition estimate_strength :: "real \<Rightarrow> IslandConnection \<Rightarrow> real" where
  "estimate_strength z conn =
     (let centroid = div3 (centroid_accumulator conn) (area conn);
          variance = sub2 (div2 (second_moment_of_area_accumulator conn) (area conn))
                          (cwiseProduct2 (head2 centroid) (head2 centroid));
          min_variance = min (fst variance) (snd variance);
          arm_len_estimate = max 1.1 (z - (z_of (centroid_accumulator conn) / area conn))
      in min_variance / arm_len_estimate)"

text \<open>Lines 839 to 888: the body of the first loop over the islands of a layer.\<close>

definition place_island :: "environment \<Rightarrow> real \<Rightarrow> GlobalState \<Rightarrow> nat \<times> Island \<Rightarrow> GlobalState option" where
  "place_island env z st indexed_island =
     (case indexed_island of (island_idx, island) \<Rightarrow>
        if connected_islands island = [] then
          (case insert_island (parts_of st) island of (part_id, parts) \<Rightarrow>
             Some (st\<lparr>parts_of := parts,
                      next_island_to_object_part_mapping :=
                        emplace (next_island_to_object_part_mapping st) island_idx part_id,
                      next_island_weakest_connection :=
                        emplace (next_island_weakest_connection st) island_idx
                          \<lparr>area = 1, centroid_accumulator = (0, 0, 0),
                           second_moment_of_area_accumulator = (INFINITY env, INFINITY env)\<rparr>\<rparr>))
        else do {
          (parts, parts_ids, transfered_weakest_connection, new_weakest_connection) \<leftarrow>
            for_each (collect_connection st)
              (parts_of st, [], new_IslandConnection, new_IslandConnection)
              (connected_islands island);
          (final_part_id, parts) \<leftarrow> merge_parts parts parts_ids;
          let new_weakest_connection =
                (if estimate_strength z transfered_weakest_connection
                    < estimate_strength z new_weakest_connection
                 then transfered_weakest_connection else new_weakest_connection);
          (flat_id, part, parts) \<leftarrow> access parts final_part_id;
          Some (st\<lparr>parts_of := store_part parts flat_id (add_part part (ObjectPart_of_Island island)),
                   next_island_weakest_connection :=
                     emplace (next_island_weakest_connection st) island_idx new_weakest_connection,
                   next_island_to_object_part_mapping :=
                     emplace (next_island_to_object_part_mapping st) island_idx final_part_id\<rparr>)
        })"

text \<open>
  The state of the loop over the external lines of an island (lines 905 to 942): the local
  variables, the part and the weakest connection behind the two references, the issues and
  the presence grid. The last field is not a variable of the program: it records the lines
  with which \<^verbatim>\<open>is_stable_while_extruding\<close> was called, in the order of the calls.
\<close>

record LineLoopState =
  island_lines_dist :: LinesDistancer
  unchecked_dist :: real
  part_ref :: ObjectPart
  weakest_conn :: IslandConnection
  loop_issues :: Issues
  loop_grid :: SupportGridFilter
  stability_calls :: "ExtrusionLine list"

text \<open>Lines 917 to 939: the support point planted when the force is positive.\<close>

definition plant_support ::
    "environment \<Rightarrow> Params \<Rightarrow> real \<Rightarrow> Island \<Rightarrow> real \<Rightarrow> LineLoopState \<Rightarrow> ExtrusionLine \<Rightarrow>
     LineLoopState option" where
  "plant_support env params z island force' st line = do {
     let st = (if island_lines_dist st = [] then st\<lparr>island_lines_dist := external_lines island\<rparr>
               else st);
     let pivot_site_search_point =
           to_3d (add2 (line_b line)
                       (scale2 (normalized2 (sub2 (line_b line) (line_a line))) 300)) z;
     (d, idx, target_point) \<leftarrow>
       signed_distance_from_lines env (island_lines_dist st) (head2 pivot_site_search_point);
     let support_point = to_3d target_point z;
     taken \<leftarrow> position_taken (loop_grid st) support_point;
     if \<not> taken then do {
       let area' = support_points_interface_radius params * support_points_interface_radius params
                   * PI env;
       grid \<leftarrow> take_position (loop_grid st) support_point;
       Some (st\<lparr>part_ref := add_support_point (part_ref st) support_point area',
                loop_issues := emplace_back_support_point (loop_issues st)
                  (new_SupportPoint support_point force'
                     (to_3d (normalized2 (sub2 (line_b line) (line_a line))) 0)),
                loop_grid := grid,
                weakest_conn := (weakest_conn st)\<lparr>
                  area := area (weakest_conn st) + area',
                  centroid_accumulator :=
                    add3 (centroid_accumulator (weakest_conn st)) (scale3 support_point area'),
                  second_moment_of_area_accumulator :=
                    add2 (second_moment_of_area_accumulator (weakest_conn st))
                         (scale2 (cwiseProduct2 (head2 support_point) (head2 support_point)) area')\<rparr>\<rparr>)
     } else Some st
   }"

text \<open>Lines 909 to 941: the body of the loop over the external lines.\<close>

definition check_external_line ::
    "environment \<Rightarrow> Params \<Rightarrow> real \<Rightarrow> Island \<Rightarrow> LineLoopState \<Rightarrow> ExtrusionLine \<Rightarrow>
     LineLoopState option" where
  "check_external_line env params z island st line =
     (if (unchecked_dist st + len line < min_distance_between_support_points params
          \<and> malformation line < 0.3) \<or> len line = 0
      then Some (st\<lparr>unchecked_dist := unchecked_dist st + len line\<rparr>)
      else
        let st = st\<lparr>unchecked_dist := len line\<rparr>;
            force' = is_stable_while_extruding env (part_ref st) (weakest_conn st) line z params;
            st = st\<lparr>stability_calls := stability_calls st @ [line]\<rparr>
        in if force' > 0 then plant_support env params z island force' st line else Some st)"

text \<open>
  Lines 899 to 943: the body of the second loop over the islands of a layer. \<^verbatim>\<open>operator[]\<close>
  on the two maps inserts a zero for a missing key.
\<close>

definition check_island :: "environment \<Rightarrow> Params \<Rightarrow> real \<Rightarrow> GlobalState \<Rightarrow> nat \<times> Island \<Rightarrow> GlobalState option" where
  "check_island env params z st indexed_island =
     (case indexed_island of (island_idx, island) \<Rightarrow> do {
        let part_id = (case prev_island_to_object_part_mapping st island_idx of
                         None \<Rightarrow> 0 | Some p \<Rightarrow> p);
        let st = st\<lparr>prev_island_to_object_part_mapping :=
                      (prev_island_to_object_part_mapping st)(island_idx \<mapsto> part_id)\<rparr>;
        (flat_id, part, parts) \<leftarrow> access (parts_of st) part_id;
        let conn = (case prev_island_weakest_connection st island_idx of
                      None \<Rightarrow> new_IslandConnection | Some c \<Rightarrow> c);
        loop \<leftarrow> for_each (check_external_line env params z island)
                  \<lparr>island_lines_dist = [],
                   unchecked_dist = min_distance_between_support_points params + 1,
                   part_ref = part, weakest_conn = conn,
                   loop_issues = issues_of st, loop_grid = supports_presence_grid st,
                   stability_calls = []\<rparr>
                  (external_lines island);
        Some (st\<lparr>issues_of := loop_issues loop,
                 parts_of := store_part parts flat_id (part_ref loop),
                 supports_presence_grid := loop_grid loop,
                 prev_island_weakest_connection :=
                   (prev_island_weakest_connection st)(island_idx \<mapsto> weakest_conn loop)\<rparr>)
      })"

text \<open>Lines 831 to 945: the body of the loop over the layers.\<close>

definition check_layer :: "environment \<Rightarrow> Params \<Rightarrow> GlobalState \<Rightarrow> LayerIslands \<Rightarrow> GlobalState option" where
  "check_layer env params st layer_islands = do {
     let indexed = zip [0 ..< length (islands layer_islands)] (islands layer_islands);
     st \<leftarrow> for_each (place_island env (layer_z layer_islands)) st indexed;
     let st = st\<lparr>prev_island_to_object_part_mapping := next_island_to_object_part_mapping st,
                  next_island_to_object_part_mapping := Map.empty,
                  prev_island_weakest_connection := next_island_weakest_connection st,
                  next_island_weakest_connection := Map.empty\<rparr>;
     for_each (check_island env params (layer_z layer_islands)) st indexed
   }"

definition check_global_stability ::
    "environment \<Rightarrow> SupportGridFilter \<Rightarrow> LayerIslands list \<Rightarrow> Params \<Rightarrow> Issues option" where
  "check_global_stability env supports_presence_grid' islands_graph params = do {
     st \<leftarrow> for_each (check_layer env params)
             \<lparr>issues_of = \<lparr>support_points = []\<rparr>, parts_of = new_ActiveObjectParts,
              supports_presence_grid = supports_presence_grid',
              prev_island_to_object_part_mapping = Map.empty,
              next_island_to_object_part_mapping = Map.empty,
              prev_island_weakest_connection = Map.empty,
              next_island_weakest_connection = Map.empty\<rparr>
             islands_graph;
     Some (issues_of st)
   }"

section \<open>The driver: \<^verbatim>\<open>check_extrusions_and_build_graph\<close> and \<^verbatim>\<open>full_search\<close>\<close>

text \<open>
  \<^verbatim>\<open>static_cast<const ExtrusionEntityCollection*>(ex_entity)->entities\<close>: undefined for an
  entity that is not a collection.
\<close>

definition collection_entities :: "ExtrusionEntity \<Rightarrow> ExtrusionEntity list option" where
  "collection_entities ex_entity = (if is_collection ex_entity then Some (entities ex_entity) else None)"

text \<open>The lines between the consecutive points of an entity (lines 969 to 974).\<close>

definition raw_lines :: "environment \<Rightarrow> ExtrusionEntity \<Rightarrow> ExtrusionLine list" where
  "raw_lines env e =
     map (\<lambda>point_idx. new_ExtrusionLine (unscaled env (collect_points e ! point_idx))
                          (unscaled env (collect_points e ! (point_idx + 1))) e)
         [0 ..< length (collect_points e) - 1]"

text \<open>Lines 967 to 980: a perimeter of the base layer, closed when it is a loop.\<close>

definition base_perimeter_lines :: "environment \<Rightarrow> ExtrusionLine list \<Rightarrow> ExtrusionEntity \<Rightarrow> ExtrusionLine list option" where
  "base_perimeter_lines env layer_lines perimeter =
     (let points = collect_points perimeter in
      if is_loop perimeter then
        if points = [] then None
        else Some (layer_lines @ raw_lines env perimeter
                   @ [new_ExtrusionLine (unscaled env (points ! (length points - 1)))
                        (unscaled env (points ! 0)) perimeter])
      else Some (layer_lines @ raw_lines env perimeter))"

text \<open>Lines 964 to 995: the lines of the base layer.\<close>

definition base_region_lines :: "environment \<Rightarrow> ExtrusionLine list \<Rightarrow> LayerRegion \<Rightarrow> ExtrusionLine list option" where
  "base_region_lines env layer_lines layer_region = do {
     layer_lines \<leftarrow>
       for_each (\<lambda>layer_lines ex_entity. do {
                   es \<leftarrow> collection_entities ex_entity;
                   for_each (base_perimeter_lines env) layer_lines es
                 })
         layer_lines (perimeters layer_region);
     for_each (\<lambda>layer_lines ex_entity. do {
                 es \<leftarrow> collection_entities ex_entity;
                 for_each (\<lambda>layer_lines fill. Some (layer_lines @ raw_lines env fill)) layer_lines es
               })
       layer_lines (fills layer_region)
   }"

text \<open>Lines 1036 to 1050: a fill of a layer above the base layer.\<close>

definition check_fill ::
    "environment \<Rightarrow> Params \<Rightarrow> real \<Rightarrow> LayerRegion \<Rightarrow> LinesDistancer \<Rightarrow>
     ExtrusionLine list \<times> Issues \<Rightarrow> ExtrusionEntity \<Rightarrow> (ExtrusionLine list \<times> Issues) option" where
  "check_fill env params z layer_region external_lines' st fill =
     (if role fill = erGapFill \<or> role fill = erBridgeInfill
      then check_extrusion_entity_stability env params z layer_region external_lines' fill st
      else Some (fst st @ raw_lines env fill, snd st))"

text \<open>Lines 1028 to 1053: the lines and issues of one region of a layer above the base layer.\<close>

definition check_region ::
    "environment \<Rightarrow> Params \<Rightarrow> real \<Rightarrow> LinesDistancer \<Rightarrow>
     ExtrusionLine list \<times> Issues \<Rightarrow> LayerRegion \<Rightarrow> (ExtrusionLine list \<times> Issues) option" where
  "check_region env params z external_lines' st layer_region = do {
     st \<leftarrow> for_each (\<lambda>st ex_entity. do {
                        es \<leftarrow> collection_entities ex_entity;
                        for_each (\<lambda>st perimeter.
                                    check_extrusion_entity_stability env params z layer_region
                                      external_lines' perimeter st)
                          st es
                      })
             st (perimeters layer_region);
     for_each (\<lambda>st ex_entity. do {
                 es \<leftarrow> collection_entities ex_entity;
                 for_each (check_fill env params z layer_region external_lines') st es
               })
       st (fills layer_region)
   }"

text \<open>
  Lines 1026 to 1084: the body of the loop over the layers above the base layer. The state
  is the issues, the graph, the distancer over the lines of the layer below and its grid.
\<close>

definition build_layer ::
    "environment \<Rightarrow> Params \<Rightarrow> Issues \<times> LayerIslands list \<times> LinesDistancer \<times> PixelGrid \<Rightarrow> Layer \<Rightarrow>
     (Issues \<times> LayerIslands list \<times> LinesDistancer \<times> PixelGrid) option" where
  "build_layer env params st layer =
     (case st of (issues, islands_graph, external_lines', prev_layer_grid) \<Rightarrow> do {
        (layer_lines, issues) \<leftarrow>
          for_each (check_region env params (slice_z layer) external_lines') ([], issues)
            (regions layer);
        (layer_islands, layer_grid) \<leftarrow>
          reckon_islands env layer False 0 prev_layer_grid layer_lines params;
        Some (issues, islands_graph @ [layer_islands], layer_lines, layer_grid)
      })"

definition check_extrusions_and_build_graph ::
    "environment \<Rightarrow> PrintObject \<Rightarrow> Params \<Rightarrow> (Issues \<times> LayerIslands list) option" where
  "check_extrusions_and_build_graph env po params = do {
     last_layer \<leftarrow> at_index (layers po) (size_t_of_int (int (layer_count po) - 1));
     last_region \<leftarrow> at_index (regions last_layer) 0;
     let flow_width = get_flow_width last_region erExternalPerimeter;
     prev_layer_grid \<leftarrow> new_PixelGrid env po flow_width;
     layer \<leftarrow> at_index (layers po) 0;
     layer_lines \<leftarrow> for_each (base_region_lines env) [] (regions layer);
     (layer_islands, layer_grid) \<leftarrow>
       reckon_islands env layer True 0 prev_layer_grid layer_lines params;
     (issues, islands_graph, external_lines', prev_layer_grid) \<leftarrow>
       for_each (build_layer env params)
         (\<lparr>support_points = []\<rparr>, [layer_islands], layer_lines, layer_grid)
         (drop 1 (layers po));
     Some (issues, islands_graph)
   }"

definition full_search :: "environment \<Rightarrow> PrintObject \<Rightarrow> Params \<Rightarrow> Issues option" where
  "full_search env po params = do {
     (local_issues, graph) \<leftarrow> check_extrusions_and_build_graph env po params;
     grid \<leftarrow> new_SupportGridFilter env po (min_distance_between_support_points params);
     global_issues \<leftarrow> check_global_stability env grid graph params;
     Some (global_issues\<lparr>support_points :=
             support_points global_issues @ support_points local_issues\<rparr>)
   }"

section \<open>A reference environment and test inputs\<close>

text \<open>
  Modelled from the spec: the library functions behind the environment are not in the sources
  at hand. The spec describes \<^verbatim>\<open>signed_distance\<close> as the Euclidean distance to the nearest
  segment together with its index and the nearest point, with no hit on an empty set; the
  conflict arm as the distance of a point from the line through the endpoint in the push
  direction; and \<^verbatim>\<open>curr_angle\<close> as the signed angle between two directions. The definitions
  below compute these by exhaustive search and elementary formulas. They are used for
  evaluating the model on concrete inputs only.
\<close>

fun dot2 :: "Vec2f \<Rightarrow> Vec2f \<Rightarrow> real" where
  "dot2 (x1, y1) (x2, y2) = x1 * x2 + y1 * y2"

fun cross2 :: "Vec2f \<Rightarrow> Vec2f \<Rightarrow> real" where
  "cross2 (x1, y1) (x2, y2) = x1 * y2 - y1 * x2"

fun cross3 :: "Vec3f \<Rightarrow> Vec3f \<Rightarrow> Vec3f" where
  "cross3 (x1, y1, z1) (x2, y2, z2) = (y1 * z2 - z1 * y2, z1 * x2 - x1 * z2, x1 * y2 - y1 * x2)"

definition nearest_point_on_line :: "ExtrusionLine \<Rightarrow> Vec2f \<Rightarrow> Vec2f" where
  "nearest_point_on_line l p =
     (let v = sub2 (line_b l) (line_a l); va = sub2 p (line_a l); l2 = squaredNorm2 v in
      if l2 = 0 then line_a l
      else let t = dot2 va v / l2 in
        if t < 0 then line_a l else if t > 1 then line_b l else add2 (line_a l) (scale2 v t))"

fun nearest_line_from :: "nat \<Rightarrow> ExtrusionLine list \<Rightarrow> Vec2f \<Rightarrow> real \<times> nat \<times> Vec2f" where
  "nearest_line_from i [] p = (-1, 0, (0, 0))"
| "nearest_line_from i (l # ls) p =
     (let q = nearest_point_on_line l p;
          d = squaredNorm2 (sub2 p q)
      in case nearest_line_from (i + 1) ls p of
           (d', i', q') \<Rightarrow> if d' < 0 \<or> d \<le> d' then (d, i, q) else (d', i', q'))"

definition signed_angle :: "Vec2f \<Rightarrow> Vec2f \<Rightarrow> real" where
  "signed_angle v1 v2 =
     (let y = cross2 v1 v2; x = dot2 v1 v2 in
      if 0 < x then arctan (y / x)
      else if x < 0 then (if 0 \<le> y then arctan (y / x) + pi else arctan (y / x) - pi)
      else if 0 < y then pi / 2 else if y < 0 then - pi / 2 else 0)"

definition point_line_distance :: "Vec3f \<times> Vec3f \<Rightarrow> Vec3f \<Rightarrow> real" where
  "point_line_distance l p =
     (let d = sub3 (snd l) (fst l); w = sub3 p (fst l) in
      if squaredNorm3 d = 0 then sqrt (squaredNorm3 w)
      else sqrt (squaredNorm3 (cross3 w d)) / sqrt (squaredNorm3 d))"

definition reference_environment :: environment where
  "reference_environment =
     \<lparr>EPSILON = 1 / 10000, PI = pi, INFINITY = 10 ^ 38, SCALING_FACTOR = 1 / 1000000,
      angle = signed_angle, distance_to = point_line_distance,
      squared_distance_to_indexed_lines = nearest_line_from 0,
      thread_schedule = (\<lambda>k. 0)\<rparr>"

text \<open>The parameter values of the spec's concrete scenarios.\<close>

definition test_params :: Params where
  "test_params =
     \<lparr>bridge_distance = 2, bridge_distance_decrease_by_curvature_factor = 5,
      min_distance_between_support_points = 1, support_points_interface_radius = 6 / 10,
      filament_density = 125 / 100000, gravity_constant = 981 / 100, max_acceleration = 1000,
      standard_extruder_conflict_force = 10, malformations_additive_conflict_extruder_force = 5,
      bed_adhesion_yield_strength = 18 / 1000, material_yield_strength = 8 / 1000\<rparr>"

definition test_region :: LayerRegion where
  "test_region = \<lparr>perimeters = [], fills = [], flow = (\<lambda>_. 4 / 10)\<rparr>"

text \<open>Scenario 3 of the spec: a path from (0, 0) to (5, 0) above a line from (0, 0) to (0.5, 0).\<close>

definition test_entity :: ExtrusionEntity where
  "test_entity =
     ExtrusionEntity 1 erExternalPerimeter False False [(0, 0), (5000000, 0)] (1 / 10) []"

definition floor_line :: ExtrusionLine where
  "floor_line =
     \<lparr>line_a = (0, 0), line_b = (1 / 2, 0), len = 1 / 2, origin_entity = test_entity,
      support_point_generated = False, malformation = 0\<rparr>"

definition overhang_line :: ExtrusionLine where
  "overhang_line =
     \<lparr>line_a = (1, 0), line_b = (5 / 2, 0), len = 3 / 2, origin_entity = test_entity,
      support_point_generated = False, malformation = 0\<rparr>"

text \<open>
  A part on a wide anchor, a connection of the same footprint and a line of length 1: inputs
  of the stability test.
\<close>

definition wide_part :: ObjectPart where
  "wide_part =
     \<lparr>volume = 100, volume_centroid_accumulator = (50, 0, 50), sticking_area = 1000,
      sticking_centroid_accumulator = (500, 0, 0),
      sticking_second_moment_of_area_accumulator = (100250, 100000)\<rparr>"

definition wide_connection :: IslandConnection where
  "wide_connection =
     \<lparr>area = 1000, centroid_accumulator = (500, 0, 0),
      second_moment_of_area_accumulator = (100250, 100000)\<rparr>"

definition unit_line :: ExtrusionLine where
  "unit_line =
     \<lparr>line_a = (-1, 0), line_b = (0, 0), len = 1, origin_entity = test_entity,
      support_point_generated = False, malformation = 0\<rparr>"

definition hanging_part :: ObjectPart where
  "hanging_part = wide_part\<lparr>sticking_area := 0\<rparr>"

definition torn_connection :: IslandConnection where
  "torn_connection = wide_connection\<lparr>area := 0\<rparr>"

text \<open>
  A part whose bed centroid is the endpoint of \<open>unit_line\<close> at the height 1, so that the
  conflict arm about the bed is zero, and an island of this one line.
\<close>

definition pivot_part :: ObjectPart where
  "pivot_part =
     \<lparr>volume = 100, volume_centroid_accumulator = (50, 0, 50), sticking_area = 1000,
      sticking_centroid_accumulator = (0, 0, 1000),
      sticking_second_moment_of_area_accumulator = (0, 0)\<rparr>"

definition unit_island :: Island where
  "unit_island = new_Island\<lparr>external_lines := [unit_line]\<rparr>"

text \<open>Three parts inserted into an empty tracker: they get the ids 0, 1 and 2.\<close>

definition three_parts :: ActiveObjectParts where
  "three_parts =
     snd (insert_island (snd (insert_island (snd (insert_island new_ActiveObjectParts new_Island))
                                 new_Island)) new_Island)"

text \<open>A grid whose vector of pixels has the size its pixel counts give.\<close>

definition wf_grid :: "PixelGrid \<Rightarrow> bool" where
  "wf_grid g = (0 \<le> fst (pixel_count g) \<and> 0 \<le> snd (pixel_count g)
                \<and> length (pixels g) = nat (snd (pixel_count g) * fst (pixel_count g)))"

text \<open>A layer with at least one region and no entity in any region.\<close>

definition no_entities :: "Layer \<Rightarrow> bool" where
  "no_entities layer = (regions layer \<noteq> []
     \<and> list_all (\<lambda>r. perimeters r = [] \<and> fills r = []) (regions layer))"

text \<open>Print objects without layers, without regions and without entities.\<close>

definition empty_layers_object :: PrintObject where
  "empty_layers_object = \<lparr>layers = [], po_size = (2000000, 2000000, 400000), height = 400000\<rparr>"

definition empty_regions_object :: PrintObject where
  "empty_regions_object =
     \<lparr>layers = [\<lparr>slice_z = 2 / 10, regions = []\<rparr>],
      po_size = (2000000, 2000000, 400000), height = 400000\<rparr>"

definition empty_entities_object :: PrintObject where
  "empty_entities_object =
     \<lparr>layers = [\<lparr>slice_z = 2 / 10, regions = [test_region]\<rparr>,
                \<lparr>slice_z = 4 / 10, regions = [test_region]\<rparr>],
      po_size = (2000000, 2000000, 400000), height = 400000\<rparr>"

text \<open>The relation between the fields of a line that the constructor establishes.\<close>

definition consistent_length :: "ExtrusionLine \<Rightarrow> bool" where
  "consistent_length l = (len l = norm2 (sub2 (line_a l) (line_b l)))"

text \<open>A line of length zero and a state of the loop over the external lines of an island.\<close>

definition zero_line :: ExtrusionLine where
  "zero_line = new_ExtrusionLine (- 1, 0) (- 1, 0) test_entity"

definition loop_start :: LineLoopState where
  "loop_start =
     \<lparr>island_lines_dist = [], unchecked_dist = 2, part_ref = wide_part,
      weakest_conn = wide_connection, loop_issues = \<lparr>support_points = []\<rparr>,
      loop_grid = \<lparr>cell_size = (1, 1, 1), filter_origin = (- 2, - 2, - 1), filter_size = (4, 4, 3),
                   cell_count = (5, 5, 4), taken_cells = {}\<rparr>,
      stability_calls = []\<rparr>"

text \<open>
  The area accumulated in the connection to the island \<open>prev\<close> of the previous layer; a
  connection that was never touched has accumulated nothing.
\<close>

definition connection_area :: "(nat \<times> IslandConnection) list \<Rightarrow> nat \<Rightarrow> real" where
  "connection_area connections prev = (case map_of connections prev of None \<Rightarrow> 0 | Some c \<Rightarrow> area c)"

text \<open>The coordinates of the pixels in the order of the two loops over the grid.\<close>

definition all_cells :: "PixelGrid \<Rightarrow> Vec2i list" where
  "all_cells grid =
     concat (map (\<lambda>x. map (\<lambda>y. (int x, int y)) [0 ..< size_t_of_int (snd (pixel_count grid))])
                 [0 ..< size_t_of_int (fst (pixel_count grid))])"

text \<open>The line writes into the pixel \<open>coords\<close> of the grid.\<close>

definition writes_pixel :: "PixelGrid \<Rightarrow> ExtrusionLine \<Rightarrow> Vec2i \<Rightarrow> bool" where
  "writes_pixel grid line coords =
     (case distribute_edge_locations grid (line_a line) (line_b line) of
        None \<Rightarrow> False
      | Some locations \<Rightarrow> coords \<in> set (map (to_pixel_coords grid) locations))"

text \<open>Two grids of the same frame: the same origin, pixel size and pixel counts.\<close>

definition same_frame :: "PixelGrid \<Rightarrow> PixelGrid \<Rightarrow> bool" where
  "same_frame g g' = (pixel_size g' = pixel_size g \<and> origin g' = origin g
                      \<and> pixel_count g' = pixel_count g \<and> length (pixels g') = length (pixels g))"

text \<open>
  A grid of two pixels of size 1 whose second pixel belongs to island 5 of the layer below,
  a line of length 1 that ends in the second pixel, and what \<^verbatim>\<open>reckon_islands\<close> makes of
  them: one island and the grid whose second pixel holds its id 0.
\<close>

definition lower_grid :: PixelGrid where
  "lower_grid =
     \<lparr>pixel_size = (1, 1), origin = (0, 0), grid_size = (2, 1), pixel_count = (2, 1),
      pixels = [NULL_ISLAND, 5]\<rparr>"

definition upper_line :: ExtrusionLine where
  "upper_line = new_ExtrusionLine (1 / 2, 1 / 2) (3 / 2, 1 / 2) test_entity"

definition upper_layer :: Layer where
  "upper_layer = \<lparr>slice_z = 2 / 5, regions = [test_region]\<rparr>"

definition upper_island :: Island where
  "upper_island =
     \<lparr>volume = 1 / 10, volume_centroid_accumulator = (1 / 10, 1 / 20, 1 / 25),
      sticking_area = 0, sticking_centroid_accumulator = (0, 0, 0),
      sticking_second_moment_of_area_accumulator = (0, 0),
      connected_islands = [], external_lines = [upper_line]\<rparr>"

definition upper_grid :: PixelGrid where
  "upper_grid = lower_grid\<lparr>pixels := [NULL_ISLAND, 0]\<rparr>"

text \<open>
  A grid of pixel size 0.1 with a line of length 0.08, and a second external perimeter on
  top of the line of length 1 above.
\<close>

definition fine_grid :: PixelGrid where
  "fine_grid =
     \<lparr>pixel_size = (1 / 10, 1 / 10), origin = (0, 0), grid_size = (2 / 10, 1 / 10),
      pixel_count = (2, 1), pixels = [NULL_ISLAND, NULL_ISLAND]\<rparr>"

definition short_line :: ExtrusionLine where
  "short_line = new_ExtrusionLine (1 / 20, 1 / 20) (13 / 100, 1 / 20) test_entity"

definition twin_entity :: ExtrusionEntity where
  "twin_entity =
     ExtrusionEntity 2 erExternalPerimeter False False [(0, 0), (5000000, 0)] (1 / 10) []"

definition twin_line :: ExtrusionLine where
  "twin_line = new_ExtrusionLine (1 / 2, 1 / 2) (3 / 2, 1 / 2) twin_entity"

definition twin_grid :: PixelGrid where
  "twin_grid = lower_grid\<lparr>pixels := [NULL_ISLAND, Suc 0]\<rparr>"

text \<open>The parameters of the scenarios with a negative \<^verbatim>\<open>bridge_distance\<close>.\<close>

definition negative_bridge_params :: Params where
  "negative_bridge_params = test_params\<lparr>bridge_distance := - 1\<rparr>"

text \<open>
  An object of two layers. The base layer has no extrusion. The layer above it has one
  external perimeter from (0, 0) to (1, 0), which hangs in the air: the local pass plants a
  support point at its start, and the global pass one at its end. The definitions after the
  object are the values that the passes compute on it: the grid of the object, the two lines
  of the perimeter after the local pass, its island, the index image of the layer, the
  presence grid, the start of the loop over the external lines, and the two support points.
\<close>

definition bridge_path :: ExtrusionEntity where
  "bridge_path =
     ExtrusionEntity 3 erExternalPerimeter False False [(0, 0), (1000000, 0)] (1 / 10) []"

definition bridge_perimeters :: ExtrusionEntity where
  "bridge_perimeters = ExtrusionEntity 4 erPerimeter True False [] 0 [bridge_path]"

definition bridge_region :: LayerRegion where
  "bridge_region = \<lparr>perimeters = [bridge_perimeters], fills = [], flow = (\<lambda>_. 4 / 10)\<rparr>"

definition bridge_layer :: Layer where
  "bridge_layer = \<lparr>slice_z = 4 / 10, regions = [bridge_region]\<rparr>"

definition base_layer :: Layer where
  "base_layer = \<lparr>slice_z = 2 / 10, regions = [test_region]\<rparr>"

definition bridge_object :: PrintObject where
  "bridge_object =
     \<lparr>layers = [base_layer, bridge_layer],
      po_size = (2000000, 0, 400000), height = 400000\<rparr>"

definition bridge_grid :: PixelGrid where
  "bridge_grid =
     \<lparr>pixel_size = (4 / 10, 4 / 10), origin = (- (1000001 / 1000000), - (1 / 1000000)),
      grid_size = (2000002 / 1000000, 2 / 1000000), pixel_count = (6, 1),
      pixels = replicate 6 NULL_ISLAND\<rparr>"

definition bridge_start :: ExtrusionLine where
  "bridge_start =
     \<lparr>line_a = (0, 0), line_b = (0, 0), len = 0, origin_entity = bridge_path,
      support_point_generated = True, malformation = 3 / 25\<rparr>"

definition bridge_line :: ExtrusionLine where
  "bridge_line =
     \<lparr>line_a = (0, 0), line_b = (1, 0), len = 1, origin_entity = bridge_path,
      support_point_generated = False, malformation = 3 / 25\<rparr>"

definition bridge_island :: Island where
  "bridge_island =
     \<lparr>volume = 1 / 10, volume_centroid_accumulator = (1 / 20, 0, 1 / 25),
      sticking_area = 0, sticking_centroid_accumulator = (0, 0, 0),
      sticking_second_moment_of_area_accumulator = (0, 0),
      connected_islands = [], external_lines = [bridge_start, bridge_line]\<rparr>"

definition bridge_raster :: PixelGrid where
  "bridge_raster = bridge_grid\<lparr>pixels := [NULL_ISLAND, NULL_ISLAND, NULL_ISLAND, 0, 0, 0]\<rparr>"

definition bridge_filter :: SupportGridFilter where
  "bridge_filter =
     \<lparr>cell_size = (1, 1, 1),
      filter_origin = (- (2000001 / 1000000), - (1000001 / 1000000), - 1),
      filter_size = (4000002 / 1000000, 2000002 / 1000000, 24 / 10),
      cell_count = (5, 3, 3), taken_cells = {}\<rparr>"

definition bridge_loop :: LineLoopState where
  "bridge_loop =
     \<lparr>island_lines_dist = [], unchecked_dist = 2,
      part_ref = ObjectPart_of_Island bridge_island,
      weakest_conn = \<lparr>area = 1, centroid_accumulator = (0, 0, 0),
                       second_moment_of_area_accumulator = (10 ^ 38, 10 ^ 38)\<rparr>,
      loop_issues = \<lparr>support_points = []\<rparr>, loop_grid = bridge_filter,
      stability_calls = []\<rparr>"

definition local_point :: SupportPoint where
  "local_point = \<lparr>position = (0, 0, 4 / 10), force = 0, direction = (0, 0, - 1)\<rparr>"

definition global_point :: SupportPoint where
  "global_point = \<lparr>position = (1, 0, 4 / 10), force = 1, direction = (1, 0, 0)\<rparr>"

section \<open>Properties of interleavings\<close>

lemma interleave_nothing_ready:
  "filter (\<lambda>i. writes ! i \<noteq> []) [0 ..< length writes] = [] \<Longrightarrow> interleave schedule k writes = []"
  by (subst interleave.simps) simp

lemma nothing_ready_iff:
  "filter (\<lambda>i. writes ! i \<noteq> []) [0 ..< length writes] = [] \<longleftrightarrow> (\<forall>ws \<in> set writes. ws = [])"
  by (auto simp add: filter_empty_conv all_set_conv_all_nth)

lemma set_update_tl:
  assumes "i < length xss" and "xss ! i \<noteq> []"
  shows "\<Union> (set ` set xss) = insert (hd (xss ! i)) (\<Union> (set ` set (xss[i := tl (xss ! i)])))"
  using assms
proof (induction xss arbitrary: i)
  case Nil
  then show ?case by simp
next
  case (Cons xs xss)
  show ?case
  proof (cases i)
    case 0
    with Cons.prems show ?thesis by (cases xs) auto
  next
    case (Suc j)
    with Cons.prems Cons.IH [of j] show ?thesis by auto
  qed
qed

lemma interleave_set: "set (interleave schedule k writes) = \<Union> (set ` set writes)"
proof (induction schedule k writes rule: interleave.induct)
  case (1 schedule k writes)
  let ?ready = "filter (\<lambda>i. writes ! i \<noteq> []) [0 ..< length writes]"
  show ?case
  proof (cases "?ready = []")
    case True
    then have "\<forall>ws \<in> set writes. ws = []" by (simp only: nothing_ready_iff)
    with True show ?thesis by (simp add: interleave_nothing_ready)
  next
    case False
    let ?i = "?ready ! (schedule k mod length ?ready)"
    from False have "schedule k mod length ?ready < length ?ready" by simp
    then have "?i \<in> set ?ready" by (rule nth_mem)
    then have "?i \<in> {i \<in> set [0 ..< length writes]. writes ! i \<noteq> []}"
      by (simp only: set_filter)
    then have i: "?i < length writes" "writes ! ?i \<noteq> []" by simp_all
    have "interleave schedule k writes
          = hd (writes ! ?i) # interleave schedule (k + 1) (writes[?i := tl (writes ! ?i)])"
      using False by (subst interleave.simps) (simp add: Let_def)
    moreover have "set (interleave schedule (k + 1) (writes[?i := tl (writes ! ?i)]))
          = \<Union> (set ` set (writes[?i := tl (writes ! ?i)]))"
      using "1.IH" [OF refl False refl] .
    ultimately show ?thesis using set_update_tl [OF i] by simp
  qed
qed

lemma interleave_single: "interleave schedule k [ws] = ws"
proof (induction ws arbitrary: k)
  case Nil
  show ?case by (subst interleave.simps) simp
next
  case (Cons w ws)
  show ?case by (subst interleave.simps) (simp add: Cons.IH)
qed

lemma ready_Cons:
  "filter (\<lambda>i. (ws # wss) ! i \<noteq> []) [0 ..< length (ws # wss)]
   = (if ws = [] then [] else [0]) @ map Suc (filter (\<lambda>i. wss ! i \<noteq> []) [0 ..< length wss])"
proof -
  have "[0 ..< length (ws # wss)] = 0 # map Suc [0 ..< length wss]"
    using upt_conv_Cons [of 0 "Suc (length wss)"] by (simp add: map_Suc_upt)
  then show ?thesis by (simp add: filter_map comp_def)
qed

lemma interleave_skip_empty: "interleave schedule k ([] # writes) = interleave schedule k writes"
proof (induction schedule k writes rule: interleave.induct)
  case (1 schedule k writes)
  let ?ready = "filter (\<lambda>i. writes ! i \<noteq> []) [0 ..< length writes]"
  have r: "filter (\<lambda>i. ([] # writes) ! i \<noteq> []) [0 ..< length ([] # writes)] = map Suc ?ready"
    by (simp only: ready_Cons) simp
  show ?case
  proof (cases "?ready = []")
    case True
    with r have "filter (\<lambda>i. ([] # writes) ! i \<noteq> []) [0 ..< length ([] # writes)] = []" by simp
    from interleave_nothing_ready [OF this] interleave_nothing_ready [OF True]
    show ?thesis by simp
  next
    case False
    let ?i = "?ready ! (schedule k mod length ?ready)"
    from False have n: "schedule k mod length ?ready < length ?ready" by simp
    have "interleave schedule k ([] # writes)
          = hd (writes ! ?i) # interleave schedule (k + 1) ([] # writes[?i := tl (writes ! ?i)])"
      using False n by (subst interleave.simps) (simp only: r Let_def, simp)
    also have "interleave schedule (k + 1) ([] # writes[?i := tl (writes ! ?i)])
          = interleave schedule (k + 1) (writes[?i := tl (writes ! ?i)])"
      using "1.IH" [OF refl False refl] .
    also have "hd (writes ! ?i) # interleave schedule (k + 1) (writes[?i := tl (writes ! ?i)])
          = interleave schedule k writes"
      using False by (subst (2) interleave.simps) (simp add: Let_def)
    finally show ?thesis .
  qed
qed

lemma interleave_first:
  "interleave (\<lambda>k. 0) k ((w # ws) # writes) = w # interleave (\<lambda>k. 0) (k + 1) (ws # writes)"
  by (subst interleave.simps) (simp only: ready_Cons Let_def, simp)

lemma interleave_in_order: "interleave (\<lambda>k. 0) k writes = concat writes"
proof (induction writes arbitrary: k)
  case Nil
  show ?case by (simp add: interleave_nothing_ready)
next
  case (Cons ws writes)
  show ?case
  proof (induction ws arbitrary: k)
    case Nil
    show ?case by (simp add: interleave_skip_empty Cons.IH)
  next
    case (Cons w ws)
    then show ?case by (simp add: interleave_first)
  qed
qed

section \<open>Properties of the local analyzer\<close>

lemma norm2_scale2: "norm2 (scale2 v s) = norm2 v * \<bar>s\<bar>"
proof (cases v)
  case (Pair x y)
  have "x * s * (x * s) + y * s * (y * s) = (x * x + y * y) * (s * s)"
    by (simp add: algebra_simps)
  then show ?thesis
    using Pair by (simp add: norm2_def real_sqrt_mult)
qed

lemma squaredNorm2_nonneg: "0 \<le> squaredNorm2 v"
  by (cases v) simp

lemma norm2_nonneg: "0 \<le> norm2 v"
  by (simp add: norm2_def squaredNorm2_nonneg)

lemma norm2_normalized2: "0 < norm2 v \<Longrightarrow> norm2 (normalized2 v) = 1"
proof (cases v)
  case (Pair x y)
  assume pos: "0 < norm2 v"
  define z where "z = x * x + y * y"
  have z: "0 < z" using pos Pair by (simp add: norm2_def z_def)
  have "x / sqrt z * (x / sqrt z) + y / sqrt z * (y / sqrt z) = (x * x + y * y) / (sqrt z * sqrt z)"
    by (simp add: add_divide_distrib)
  also have "\<dots> = 1" using z by (simp add: z_def[symmetric])
  finally show ?thesis
    using Pair z by (simp add: norm2_def normalized2_def z_def[symmetric])
qed

lemma sub2_add2_scale2:
  "sub2 (add2 start (scale2 v s)) (add2 start (scale2 v t)) = scale2 v (s - t)"
  by (cases start; cases v) (simp add: algebra_simps)

lemma step_difference: "real i * (s::real) - real (i + 1) * s = - s"
  by (simp add: algebra_simps)

lemma len_new_ExtrusionLine [simp]: "len (new_ExtrusionLine a b e) = norm2 (sub2 a b)"
  by (simp add: new_ExtrusionLine_def)

lemma lines_between_len:
  assumes "l \<in> set (lines_between params entity start next)"
  shows "len l = norm2 (sub2 next start) / real_of_int (lines_count_between params start next)"
proof -
  let ?d = "norm2 (sub2 next start)"
  let ?n = "lines_count_between params start next"
  from assms obtain i where i: "i < nat ?n"
    and l: "l = new_ExtrusionLine
                 (add2 start (scale2 (normalized2 (sub2 next start)) (real i * (?d / real_of_int ?n))))
                 (add2 start (scale2 (normalized2 (sub2 next start)) (real (i + 1) * (?d / real_of_int ?n))))
                 entity"
    by (auto simp: lines_between_def Let_def)
  from i have n: "0 < ?n" by simp
  have dn: "0 \<le> ?d / real_of_int ?n" using n by (simp add: norm2_nonneg)
  show ?thesis
  proof (cases "0 < ?d")
    case True
    have "len l = norm2 (normalized2 (sub2 next start)) * \<bar>real i * (?d / real_of_int ?n) - real (i + 1) * (?d / real_of_int ?n)\<bar>"
      unfolding l by (simp only: len_new_ExtrusionLine sub2_add2_scale2 norm2_scale2)
    also have "real i * (?d / real_of_int ?n) - real (i + 1) * (?d / real_of_int ?n) = - (?d / real_of_int ?n)"
      by (rule step_difference)
    finally show ?thesis using n True by (simp add: norm2_normalized2 norm2_nonneg)
  next
    case False
    then have "?d = 0" using norm2_nonneg[of "sub2 next start"] by linarith
    then have "?n = 0" by (simp add: lines_count_between_def)
    with n show ?thesis by simp
  qed
qed

lemma lines_between_length:
  "length (lines_between params entity start next) = nat (lines_count_between params start next)"
  by (simp add: lines_between_def Let_def)

lemma lines_between_bounded:
  assumes bd: "0 < bridge_distance params"
    and l: "l \<in> set (lines_between params entity start next)"
  shows "len l \<le> bridge_distance params"
proof -
  let ?d = "norm2 (sub2 next start)"
  let ?n = "lines_count_between params start next"
  from l have "0 < nat ?n" by (auto simp: lines_between_def Let_def)
  then have n: "0 < real_of_int ?n" by simp
  have "?d / bridge_distance params \<le> real_of_int ?n"
    by (simp add: lines_count_between_def)
  then have "?d \<le> real_of_int ?n * bridge_distance params"
    using bd by (simp add: divide_le_eq)
  then have "?d / real_of_int ?n \<le> bridge_distance params"
    using n by (simp add: divide_le_eq mult.commute)
  then show ?thesis using lines_between_len[OF l] by simp
qed

lemma bridging_test_cases:
  "bridging_test env params z flow_width d (l, acc, issues) = (l', acc', issues') \<Longrightarrow>
   (if \<bar>d\<bar> < flow_width then
      acc' = new_accumulator \<and> issues' = issues \<and> l' = l
    else if distance acc + len l
            > bridge_distance params
              / (1 + max_curvature acc * bridge_distance_decrease_by_curvature_factor params / PI env)
    then issues' = emplace_back_support_point issues
                     (new_SupportPoint (to_3d (line_b l) z) 0 (0, 0, -1))
         \<and> l' = l\<lparr>support_point_generated := True\<rparr> \<and> acc' = new_accumulator
    else issues' = issues \<and> l' = l \<and> acc' = acc\<lparr>distance := distance acc + len l\<rparr>)"
  by (auto simp: bridging_test_def Let_def reset_def add_distance_def new_accumulator_def
      split: if_splits)

lemma carry_malformation_frame:
  "carry_malformation flow_width prev d idx (l, malformation_acc) = Some (l', malformation_acc') \<Longrightarrow>
   line_a l' = line_a l \<and> line_b l' = line_b l \<and> len l' = len l
   \<and> origin_entity l' = origin_entity l
   \<and> support_point_generated l' = support_point_generated l"
  by (auto simp: carry_malformation_def Let_def split: if_splits bind_splits)

lemma check_lines_length:
  "check_lines env params z fw prev lines st = Some (lines', st') \<Longrightarrow> length lines' = length lines"
  by (induction lines arbitrary: st lines' st') (auto split: bind_splits)

lemma check_lines_steps:
  "check_lines env params z fw prev lines st = Some (lines', st') \<Longrightarrow> i < length lines \<Longrightarrow>
   \<exists>s s'. check_line env params z fw prev (next_line_of lines i) (lines ! i) s = Some (lines' ! i, s')"
proof (induction lines arbitrary: st lines' st' i)
  case Nil
  then show ?case by simp
next
  case (Cons l ls)
  from Cons.prems(1) obtain l' s1 ls' where
    step: "check_line env params z fw prev (case ls of [] \<Rightarrow> None | n # _ \<Rightarrow> Some n) l st = Some (l', s1)"
    and rest: "check_lines env params z fw prev ls s1 = Some (ls', st')"
    and out: "lines' = l' # ls'"
    by (auto split: bind_splits)
  show ?case
  proof (cases i)
    case 0
    have "next_line_of (l # ls) 0 = (case ls of [] \<Rightarrow> None | n # _ \<Rightarrow> Some n)"
      by (cases ls) (simp_all add: next_line_of_def)
    with step out 0 show ?thesis
      by (intro exI[of _ st] exI[of _ s1]) simp
  next
    case (Suc j)
    with Cons.prems(2) have j: "j < length ls" by simp
    from Cons.IH[OF rest j] obtain s s' where
      "check_line env params z fw prev (next_line_of ls j) (ls ! j) s = Some (ls' ! j, s')" by blast
    moreover have "next_line_of (l # ls) (Suc j) = next_line_of ls j"
      by (simp add: next_line_of_def)
    ultimately show ?thesis using Suc out
      by (intro exI[of _ s] exI[of _ s']) simp
  qed
qed

lemma bridging_test_frame:
  "bridging_test env params z flow_width d (l, acc, issues) = (l', acc', issues') \<Longrightarrow>
   line_a l' = line_a l \<and> line_b l' = line_b l \<and> len l' = len l \<and> origin_entity l' = origin_entity l"
  by (auto simp: bridging_test_def Let_def split: if_splits)

lemma check_line_frame:
  assumes "check_line env params z flow_width prev next_line l st = Some (l', st')"
  shows "line_a l' = line_a l \<and> line_b l' = line_b l \<and> len l' = len l
         \<and> origin_entity l' = origin_entity l"
proof -
  obtain bridging_acc malformation_acc issues where st: "st = (bridging_acc, malformation_acc, issues)"
    by (cases st) auto
  from assms obtain d idx acc m l1 acc1 issues1 m1 where
    bt: "bridging_test env params z flow_width d (l, acc, issues) = (l1, acc1, issues1)"
    and mu: "carry_malformation flow_width prev d idx (l1, m) = Some (l', m1)"
    unfolding check_line_def st
    by (auto simp: Let_def split: bind_splits prod.splits)
  from bridging_test_frame[OF bt] carry_malformation_frame[OF mu] show ?thesis by simp
qed

lemma check_lines_frame:
  "check_lines env params z fw prev lines st = Some (lines', st') \<Longrightarrow>
   map line_a lines' = map line_a lines \<and> map line_b lines' = map line_b lines
   \<and> map len lines' = map len lines \<and> map origin_entity lines' = map origin_entity lines"
proof (induction lines arbitrary: st lines' st')
  case Nil
  then show ?case by simp
next
  case (Cons l ls)
  from Cons.prems obtain l' s1 ls' where
    step: "check_line env params z fw prev (case ls of [] \<Rightarrow> None | n # _ \<Rightarrow> Some n) l st = Some (l', s1)"
    and rest: "check_lines env params z fw prev ls s1 = Some (ls', st')"
    and out: "lines' = l' # ls'"
    by (auto split: bind_splits)
  from check_line_frame[OF step] Cons.IH[OF rest] out show ?case by simp
qed

lemma resample_bounded:
  assumes bd: "0 < bridge_distance params"
    and rs: "resample env params entity = Some lines"
    and l: "l \<in> set lines"
  shows "len l \<le> bridge_distance params"
proof -
  from rs have "lines = new_ExtrusionLine (unscaled env (collect_points entity ! 0))
                          (unscaled env (collect_points entity ! 0)) entity
                 # concat (map (\<lambda>point_idx. lines_between params entity
                                  (unscaled env (collect_points entity ! point_idx))
                                  (unscaled env (collect_points entity ! (point_idx + 1))))
                               [0 ..< length (collect_points entity) - 1])"
    by (auto simp: resample_def Let_def split: if_splits)
  with l have "l = new_ExtrusionLine (unscaled env (collect_points entity ! 0))
             (unscaled env (collect_points entity ! 0)) entity
     \<or> (\<exists>point_idx. l \<in> set (lines_between params entity
                                  (unscaled env (collect_points entity ! point_idx))
                                  (unscaled env (collect_points entity ! (point_idx + 1)))))"
    by auto
  then show ?thesis
  proof
    assume first: "l = new_ExtrusionLine (unscaled env (collect_points entity ! 0))
             (unscaled env (collect_points entity ! 0)) entity"
    have "sub2 p p = (0, 0)" for p by (cases p) simp
    then show ?thesis using bd first by (simp add: norm2_def)
  next
    assume "\<exists>point_idx. l \<in> set (lines_between params entity
                                  (unscaled env (collect_points entity ! point_idx))
                                  (unscaled env (collect_points entity ! (point_idx + 1))))"
    then show ?thesis using lines_between_bounded[OF bd] by blast
  qed
qed

lemmas reference_defs =
  reference_environment_def signed_distance_from_lines_def at_index_def
  nearest_point_on_line_def Let_def bridging_test_def carry_malformation_def add_angle_def
  add_distance_def reset_def new_accumulator_def emplace_back_support_point_def
  new_SupportPoint_def get_line_def signed_angle_def check_line_def

text \<open>
  Claim C1. \<open>check_line\<close> is the body of the loop over the resampled segments, so the
  statement holds for every segment (\<open>check_lines_steps\<close>). With \<open>d\<close> the signed distance of
  the segment's endpoint \<open>line_b l\<close> from the previous layer's lines and \<open>acc\<close> the bridging
  accumulator after the segment's angle was added: if \<open>\<bar>d\<bar> < flow_width\<close> the bridging
  accumulator is reset; otherwise the segment's length is added to the accumulated distance,
  and exactly when that distance exceeds
  \<open>bridge_distance / (1 + max_curvature * bridge_distance_decrease_by_curvature_factor / PI)\<close>
  the support point at \<open>line_b l\<close> lifted to the height \<open>z\<close> of the layer, with force 0 and direction
  \<open>(0, 0, -1)\<close>, is appended to the issues, the flag \<open>support_point_generated\<close> is set and
  the accumulator is reset.
\<close>

theorem check_line_bridging_test:
  assumes "check_line env params z flow_width prev next_line l (bridging_acc, malformation_acc, issues)
           = Some (l', bridging_acc', malformation_acc', issues')"
  shows "\<exists>d idx np curr_angle.
     signed_distance_from_lines env prev (line_b l) = Some (d, idx, np) \<and>
     curr_angle = (case next_line of None \<Rightarrow> 0
                   | Some n \<Rightarrow> angle env (sub2 (line_b l) (line_a l)) (sub2 (line_b n) (line_a n))) \<and>
     (let acc = add_angle bridging_acc curr_angle in
      if \<bar>d\<bar> < flow_width then
        bridging_acc' = new_accumulator \<and> issues' = issues
        \<and> support_point_generated l' = support_point_generated l
      else if distance acc + len l
              > bridge_distance params
                / (1 + max_curvature acc * bridge_distance_decrease_by_curvature_factor params / PI env)
      then issues' = emplace_back_support_point issues
                       (new_SupportPoint (to_3d (line_b l) z) 0 (0, 0, -1))
           \<and> support_point_generated l' \<and> bridging_acc' = new_accumulator
      else issues' = issues \<and> support_point_generated l' = support_point_generated l
           \<and> bridging_acc' = acc\<lparr>distance := distance acc + len l\<rparr>)"
proof -
  define curr_angle where "curr_angle = (case next_line of None \<Rightarrow> 0
                   | Some n \<Rightarrow> angle env (sub2 (line_b l) (line_a l)) (sub2 (line_b n) (line_a n)))"
  define acc where "acc = add_angle bridging_acc curr_angle"
  from assms obtain d idx np l1 where
    sd: "signed_distance_from_lines env prev (line_b l) = Some (d, idx, np)"
    and bt: "bridging_test env params z flow_width d (l, acc, issues) = (l1, bridging_acc', issues')"
    and mu: "carry_malformation flow_width prev d idx (l1, add_angle malformation_acc (max 0 curr_angle)) = Some (l', malformation_acc')"
    unfolding check_line_def curr_angle_def acc_def
    by (auto simp: Let_def split: bind_splits prod.splits)
  from carry_malformation_frame[OF mu]
  have fl: "support_point_generated l' = support_point_generated l1" by simp
  from bridging_test_cases[OF bt] fl sd show ?thesis
    unfolding curr_angle_def[symmetric] Let_def acc_def
    by (auto split: if_splits)
qed

theorem check_line_bridging_test_witness:
  "check_line reference_environment test_params (4 / 10) (4 / 10) [floor_line] None overhang_line
     (\<lparr>distance = 1, curvature = 0, max_curvature = 0\<rparr>, new_accumulator, \<lparr>support_points = []\<rparr>)
   = Some (overhang_line\<lparr>support_point_generated := True, malformation := 3 / 25\<rparr>,
           new_accumulator,
           \<lparr>distance = 3 / 2, curvature = 0, max_curvature = 0\<rparr>,
           \<lparr>support_points = [\<lparr>position = (5 / 2, 0, 4 / 10), force = 0, direction = (0, 0, -1)\<rparr>]\<rparr>)
   \<and> (\<exists>d. signed_distance_from_lines reference_environment [floor_line] (line_b overhang_line)
              = Some (d, 0, (1 / 2, 0))
          \<and> \<not> \<bar>d\<bar> < 4 / 10
          \<and> distance (add_angle \<lparr>distance = 1, curvature = 0, max_curvature = 0\<rparr> 0) + len overhang_line
              > bridge_distance test_params
                / (1 + max_curvature (add_angle \<lparr>distance = 1, curvature = 0, max_curvature = 0\<rparr> 0)
                       * bridge_distance_decrease_by_curvature_factor test_params
                       / PI reference_environment))"
proof -
  have run: "check_line reference_environment test_params (4 / 10) (4 / 10) [floor_line] None overhang_line
     (\<lparr>distance = 1, curvature = 0, max_curvature = 0\<rparr>, new_accumulator, \<lparr>support_points = []\<rparr>)
   = Some (overhang_line\<lparr>support_point_generated := True, malformation := 3 / 25\<rparr>,
           new_accumulator,
           \<lparr>distance = 3 / 2, curvature = 0, max_curvature = 0\<rparr>,
           \<lparr>support_points = [\<lparr>position = (5 / 2, 0, 4 / 10), force = 0, direction = (0, 0, -1)\<rparr>]\<rparr>)"
    by (simp add: reference_defs floor_line_def overhang_line_def test_params_def)
  have sd: "signed_distance_from_lines reference_environment [floor_line] (line_b overhang_line)
              = Some (2, 0, (1 / 2, 0))"
    by (simp add: reference_defs floor_line_def overhang_line_def)
  from check_line_bridging_test[OF run] sd run show ?thesis
    by (simp add: add_angle_def overhang_line_def test_params_def reference_environment_def)
qed

lemma lines_count_positive:
  assumes bd: "0 < bridge_distance params" and i: "i < nat (lines_count_between params start next)"
  shows "0 < norm2 (sub2 next start)"
proof (rule ccontr)
  assume "\<not> 0 < norm2 (sub2 next start)"
  with norm2_nonneg [of "sub2 next start"] have "norm2 (sub2 next start) = 0" by linarith
  then have "lines_count_between params start next = 0" by (simp add: lines_count_between_def)
  with i show False by simp
qed

lemma scale2_normalized2:
  assumes "0 < norm2 v"
  shows "scale2 (normalized2 v) (k * (norm2 v / n)) = scale2 v (k / n)"
proof (cases v)
  case (Pair x y)
  from assms Pair have z: "0 < x * x + y * y"
    by (simp add: norm2_def)
  with Pair show ?thesis
    by (simp add: normalized2_def norm2_def Let_def)
qed

lemma lines_between_nth:
  assumes bd: "0 < bridge_distance params"
    and i: "i < nat \<lceil>norm2 (sub2 next start) / bridge_distance params\<rceil>"
  shows "line_a (lines_between params entity start next ! i)
           = add2 start (scale2 (sub2 next start)
               (real i / real (nat \<lceil>norm2 (sub2 next start) / bridge_distance params\<rceil>)))"
    and "line_b (lines_between params entity start next ! i)
           = add2 start (scale2 (sub2 next start)
               (real (i + 1) / real (nat \<lceil>norm2 (sub2 next start) / bridge_distance params\<rceil>)))"
    and "len (lines_between params entity start next ! i)
           = norm2 (sub2 next start)
             / real (nat \<lceil>norm2 (sub2 next start) / bridge_distance params\<rceil>)"
    and "origin_entity (lines_between params entity start next ! i) = entity"
proof -
  let ?d = "norm2 (sub2 next start)"
  let ?n = "lines_count_between params start next"
  from i have i': "i < nat ?n" by (simp add: lines_count_between_def)
  then have n: "0 < ?n" by simp
  then have rn: "real (nat ?n) = real_of_int ?n" by simp
  from lines_count_positive [OF bd i'] have d: "0 < ?d" .
  have nth: "lines_between params entity start next ! i
        = new_ExtrusionLine
            (add2 start (scale2 (normalized2 (sub2 next start)) (real i * (?d / real_of_int ?n))))
            (add2 start (scale2 (normalized2 (sub2 next start)) (real (i + 1) * (?d / real_of_int ?n))))
            entity"
    using i' by (simp add: lines_between_def Let_def)
  have mem: "lines_between params entity start next ! i \<in> set (lines_between params entity start next)"
    using i' by (simp add: lines_between_length)
  show "line_a (lines_between params entity start next ! i)
           = add2 start (scale2 (sub2 next start)
               (real i / real (nat \<lceil>norm2 (sub2 next start) / bridge_distance params\<rceil>)))"
    unfolding nth scale2_normalized2 [OF d] using rn
    by (simp add: new_ExtrusionLine_def lines_count_between_def)
  show "line_b (lines_between params entity start next ! i)
           = add2 start (scale2 (sub2 next start)
               (real (i + 1) / real (nat \<lceil>norm2 (sub2 next start) / bridge_distance params\<rceil>)))"
    unfolding nth scale2_normalized2 [OF d] using rn
    by (simp add: new_ExtrusionLine_def lines_count_between_def)
  show "len (lines_between params entity start next ! i)
           = norm2 (sub2 next start)
             / real (nat \<lceil>norm2 (sub2 next start) / bridge_distance params\<rceil>)"
    using lines_between_len [OF mem] rn by (simp add: lines_count_between_def)
  show "origin_entity (lines_between params entity start next ! i) = entity"
    unfolding nth by (simp add: new_ExtrusionLine_def)
qed


lemma all_less_three: "(\<forall>i < (3::nat). P i) \<longleftrightarrow> P 0 \<and> P 1 \<and> P 2"
  by (auto simp add: less_Suc_eq numeral_3_eq_3 numeral_2_eq_2)

text \<open>
  Claim C8, as stated, fails for a \<^verbatim>\<open>bridge_distance\<close> that is not positive. With
  \<^verbatim>\<open>bridge_distance = -1\<close> the number of sub-segments \<open>\<lceil>5 / -1\<rceil>\<close> of the pair \<open>(0, 0)\<close>,
  \<open>(5, 0)\<close> is negative and the loop over the sub-segments does not run: the path is analyzed
  as the single segment of length 0 at its first point, which is longer than
  \<^verbatim>\<open>bridge_distance\<close>, and the pair is not split at all.
\<close>

theorem resampling_with_negative_bridge_distance:
  "map_option fst (check_path reference_environment negative_bridge_params (4 / 10) test_region
                     [floor_line] test_entity ([], \<lparr>support_points = []\<rparr>))
   = Some [new_ExtrusionLine (0, 0) (0, 0) test_entity]
   \<and> unscaled reference_environment (collect_points test_entity ! 0) = (0, 0)
   \<and> unscaled reference_environment (collect_points test_entity ! 1) = (5, 0)
   \<and> \<not> len (new_ExtrusionLine (0, 0) (0, 0) test_entity) \<le> bridge_distance negative_bridge_params"
  by (simp add: check_path_def resample_def test_entity_def test_params_def unscaled_def
        lines_between_def lines_count_between_def norm2_def normalized2_def new_ExtrusionLine_def
        get_flow_width_def floor_line_def test_region_def reference_defs upt_conv_Cons
        real_sqrt_divide negative_bridge_params_def)

text \<open>
  Claim C8, amended. For a positive \<^verbatim>\<open>bridge_distance\<close>, the lines a single path appends to
  \<^verbatim>\<open>checked_lines_out\<close> have the endpoints and lengths of the resampled lines: the line of
  length 0 at the first point followed, for every consecutive pair \<open>(start, next)\<close> of input
  vertices, by its sub-segments. A pair at distance \<open>dist_to_next\<close> is split into
  \<open>n = \<lceil>dist_to_next / bridge_distance\<rceil>\<close> sub-segments, the sub-segment \<open>i\<close> running from
  \<open>start + (i / n) (next - start)\<close> to \<open>start + ((i + 1) / n) (next - start)\<close> with the length
  \<open>dist_to_next / n\<close>, and every analyzed line has a length of at most \<^verbatim>\<open>bridge_distance\<close>.
\<close>

theorem resampling_splits_and_bounds:
  assumes bd: "0 < bridge_distance params"
    and run: "check_path env params z layer_region prev_layer_lines entity
                (checked_lines_out, issues) = Some (checked_lines_out', issues')"
  shows "\<exists>lines analyzed.
     resample env params entity = Some lines \<and>
     lines = new_ExtrusionLine (unscaled env (collect_points entity ! 0))
                          (unscaled env (collect_points entity ! 0)) entity
                 # concat (map (\<lambda>point_idx. lines_between params entity
                                  (unscaled env (collect_points entity ! point_idx))
                                  (unscaled env (collect_points entity ! (point_idx + 1))))
                               [0 ..< length (collect_points entity) - 1]) \<and>
     checked_lines_out' = checked_lines_out @ analyzed \<and>
     map line_a analyzed = map line_a lines \<and> map line_b analyzed = map line_b lines \<and>
     map len analyzed = map len lines \<and>
     (\<forall>start next.
        length (lines_between params entity start next)
          = nat \<lceil>norm2 (sub2 next start) / bridge_distance params\<rceil> \<and>
        (\<forall>i < nat \<lceil>norm2 (sub2 next start) / bridge_distance params\<rceil>.
           line_a (lines_between params entity start next ! i)
             = add2 start (scale2 (sub2 next start)
                 (real i / real (nat \<lceil>norm2 (sub2 next start) / bridge_distance params\<rceil>))) \<and>
           line_b (lines_between params entity start next ! i)
             = add2 start (scale2 (sub2 next start)
                 (real (i + 1) / real (nat \<lceil>norm2 (sub2 next start) / bridge_distance params\<rceil>))) \<and>
           len (lines_between params entity start next ! i)
             = norm2 (sub2 next start)
               / real (nat \<lceil>norm2 (sub2 next start) / bridge_distance params\<rceil>))) \<and>
     (\<forall>l \<in> set analyzed. len l \<le> bridge_distance params)"
proof -
  from run obtain lines analyzed st' where
    rs: "resample env params entity = Some lines"
    and cl: "check_lines env params z (get_flow_width layer_region (role entity)) prev_layer_lines lines
               (add_distance new_accumulator (bridge_distance params + 1), new_accumulator, issues)
             = Some (analyzed, st')"
    and out: "checked_lines_out' = checked_lines_out @ analyzed"
    by (auto simp: check_path_def Let_def split: bind_splits)
  from rs have shape: "lines = new_ExtrusionLine (unscaled env (collect_points entity ! 0))
                          (unscaled env (collect_points entity ! 0)) entity
                 # concat (map (\<lambda>point_idx. lines_between params entity
                                  (unscaled env (collect_points entity ! point_idx))
                                  (unscaled env (collect_points entity ! (point_idx + 1))))
                               [0 ..< length (collect_points entity) - 1])"
    by (auto simp: resample_def Let_def split: if_splits)
  note fr = check_lines_frame[OF cl]
  have bounded: "\<forall>l \<in> set analyzed. len l \<le> bridge_distance params"
  proof
    fix l assume "l \<in> set analyzed"
    then have "len l \<in> set (map len lines)" using fr by (metis image_eqI set_map)
    then obtain l0 where "l0 \<in> set lines" "len l = len l0" by auto
    then show "len l \<le> bridge_distance params" using resample_bounded[OF bd rs] by simp
  qed
  have split: "length (lines_between params entity start next)
          = nat \<lceil>norm2 (sub2 next start) / bridge_distance params\<rceil> \<and>
        (\<forall>i < nat \<lceil>norm2 (sub2 next start) / bridge_distance params\<rceil>.
           line_a (lines_between params entity start next ! i)
             = add2 start (scale2 (sub2 next start)
                 (real i / real (nat \<lceil>norm2 (sub2 next start) / bridge_distance params\<rceil>))) \<and>
           line_b (lines_between params entity start next ! i)
             = add2 start (scale2 (sub2 next start)
                 (real (i + 1) / real (nat \<lceil>norm2 (sub2 next start) / bridge_distance params\<rceil>))) \<and>
           len (lines_between params entity start next ! i)
             = norm2 (sub2 next start)
               / real (nat \<lceil>norm2 (sub2 next start) / bridge_distance params\<rceil>))" for start "next"
    using lines_between_length[of params entity start "next"]
      lines_between_nth(1,2,3)[OF bd, of _ "next" start entity]
    by (simp add: lines_count_between_def)
  from rs shape out fr bounded split show ?thesis by blast
qed

theorem resampling_splits_and_bounds_witness:
  "0 < bridge_distance test_params \<and>
   (\<exists>analyzed issues'.
      check_path reference_environment test_params (4 / 10) test_region [floor_line] test_entity
        ([], \<lparr>support_points = []\<rparr>) = Some (analyzed, issues') \<and>
      map line_a analyzed = [(0, 0), (0, 0), (5 / 3, 0), (10 / 3, 0)] \<and>
      map line_b analyzed = [(0, 0), (5 / 3, 0), (10 / 3, 0), (5, 0)] \<and>
      map len analyzed = [0, 5 / 3, 5 / 3, 5 / 3] \<and>
      list_all (\<lambda>l. len l \<le> 2) analyzed)"
proof -
  have bd: "0 < bridge_distance test_params" by (simp add: test_params_def)
  have "\<exists>analyzed issues'.
          check_path reference_environment test_params (4 / 10) test_region [floor_line] test_entity
            ([], \<lparr>support_points = []\<rparr>) = Some (analyzed, issues')"
    by (simp add: check_path_def resample_def test_entity_def test_params_def unscaled_def
        lines_between_def lines_count_between_def norm2_def normalized2_def new_ExtrusionLine_def
        get_flow_width_def floor_line_def test_region_def reference_defs upt_conv_Cons
        real_sqrt_divide)
  then obtain analyzed issues' where
    run: "check_path reference_environment test_params (4 / 10) test_region [floor_line] test_entity
            ([], \<lparr>support_points = []\<rparr>) = Some (analyzed, issues')"
    by blast
  have n: "nat \<lceil>norm2 (sub2 (5, 0) (0, 0)) / bridge_distance test_params\<rceil> = 3"
    by (simp add: norm2_def test_params_def)
  have pts: "unscaled reference_environment (collect_points test_entity ! 0) = (0, 0)"
    "unscaled reference_environment (collect_points test_entity ! Suc 0) = (5, 0)"
    "length (collect_points test_entity) - 1 = Suc 0"
    by (simp_all add: test_entity_def unscaled_def reference_environment_def)
  from resampling_splits_and_bounds[OF bd run] obtain lines analyzed' where
    rs: "resample reference_environment test_params test_entity = Some lines"
    and an: "analyzed = [] @ analyzed'"
    and fr': "map line_a analyzed' = map line_a lines" "map line_b analyzed' = map line_b lines"
            "map len analyzed' = map len lines"
    and sp: "\<forall>start next.
        length (lines_between test_params test_entity start next)
          = nat \<lceil>norm2 (sub2 next start) / bridge_distance test_params\<rceil> \<and>
        (\<forall>i < nat \<lceil>norm2 (sub2 next start) / bridge_distance test_params\<rceil>.
           line_a (lines_between test_params test_entity start next ! i)
             = add2 start (scale2 (sub2 next start)
                 (real i / real (nat \<lceil>norm2 (sub2 next start) / bridge_distance test_params\<rceil>))) \<and>
           line_b (lines_between test_params test_entity start next ! i)
             = add2 start (scale2 (sub2 next start)
                 (real (i + 1) / real (nat \<lceil>norm2 (sub2 next start) / bridge_distance test_params\<rceil>))) \<and>
           len (lines_between test_params test_entity start next ! i)
             = norm2 (sub2 next start)
               / real (nat \<lceil>norm2 (sub2 next start) / bridge_distance test_params\<rceil>))"
    and b': "\<forall>l \<in> set analyzed'. len l \<le> bridge_distance test_params"
    by blast
  from an fr' b' have fr: "map line_a analyzed = map line_a lines" "map line_b analyzed = map line_b lines"
            "map len analyzed = map len lines"
    and b: "\<forall>l \<in> set analyzed. len l \<le> bridge_distance test_params"
    by simp_all
  from rs have lines: "lines = new_ExtrusionLine (0, 0) (0, 0) test_entity
                               # lines_between test_params test_entity (0, 0) (5, 0)"
    by (simp add: resample_def test_entity_def unscaled_def reference_environment_def
        test_params_def Let_def)
  from sp have "length (lines_between test_params test_entity (0, 0) (5, 0))
          = nat \<lceil>norm2 (sub2 (5, 0) (0, 0)) / bridge_distance test_params\<rceil> \<and>
        (\<forall>i < nat \<lceil>norm2 (sub2 (5, 0) (0, 0)) / bridge_distance test_params\<rceil>.
           line_a (lines_between test_params test_entity (0, 0) (5, 0) ! i)
             = add2 (0, 0) (scale2 (sub2 (5, 0) (0, 0))
                 (real i / real (nat \<lceil>norm2 (sub2 (5, 0) (0, 0)) / bridge_distance test_params\<rceil>))) \<and>
           line_b (lines_between test_params test_entity (0, 0) (5, 0) ! i)
             = add2 (0, 0) (scale2 (sub2 (5, 0) (0, 0))
                 (real (i + 1) / real (nat \<lceil>norm2 (sub2 (5, 0) (0, 0)) / bridge_distance test_params\<rceil>))) \<and>
           len (lines_between test_params test_entity (0, 0) (5, 0) ! i)
             = norm2 (sub2 (5, 0) (0, 0))
               / real (nat \<lceil>norm2 (sub2 (5, 0) (0, 0)) / bridge_distance test_params\<rceil>))"
    by blast
  then have sp3: "length (lines_between test_params test_entity (0, 0) (5, 0)) = 3"
    and pieces: "\<forall>i < 3.
           line_a (lines_between test_params test_entity (0, 0) (5, 0) ! i)
             = add2 (0, 0) (scale2 (sub2 (5, 0) (0, 0)) (real i / real 3)) \<and>
           line_b (lines_between test_params test_entity (0, 0) (5, 0) ! i)
             = add2 (0, 0) (scale2 (sub2 (5, 0) (0, 0)) (real (i + 1) / real 3)) \<and>
           len (lines_between test_params test_entity (0, 0) (5, 0) ! i)
             = norm2 (sub2 (5, 0) (0, 0)) / real 3"
    unfolding n by simp_all
  obtain s0 s1 s2 where s: "lines_between test_params test_entity (0, 0) (5, 0) = [s0, s1, s2]"
    using sp3 by (auto simp add: length_Suc_conv numeral_3_eq_3)
  from pieces have p: "line_a s0 = (0, 0)" "line_a s1 = (5 / 3, 0)" "line_a s2 = (10 / 3, 0)"
    "line_b s0 = (5 / 3, 0)" "line_b s1 = (10 / 3, 0)" "line_b s2 = (5, 0)"
    "len s0 = 5 / 3" "len s1 = 5 / 3" "len s2 = 5 / 3"
    unfolding s all_less_three by (simp_all add: norm2_def)
  have la: "map line_a analyzed = [(0, 0), (0, 0), (5 / 3, 0), (10 / 3, 0)]"
    unfolding fr(1) lines s by (simp add: p new_ExtrusionLine_def)
  have lb: "map line_b analyzed = [(0, 0), (5 / 3, 0), (10 / 3, 0), (5, 0)]"
    unfolding fr(2) lines s by (simp add: p new_ExtrusionLine_def)
  have ll: "map len analyzed = [0, 5 / 3, 5 / 3, 5 / 3]"
    unfolding fr(3) lines s by (simp add: p new_ExtrusionLine_def norm2_def)
  from b have lt: "list_all (\<lambda>l. len l \<le> 2) analyzed"
    by (simp add: list_all_iff test_params_def)
  show ?thesis
  proof (intro conjI exI)
    show "0 < bridge_distance test_params" by (rule bd)
    show "check_path reference_environment test_params (4 / 10) test_region [floor_line] test_entity
            ([], \<lparr>support_points = []\<rparr>) = Some (analyzed, issues')" by (rule run)
    show "map line_a analyzed = [(0, 0), (0, 0), (5 / 3, 0), (10 / 3, 0)]" by (rule la)
    show "map line_b analyzed = [(0, 0), (5 / 3, 0), (10 / 3, 0), (5, 0)]" by (rule lb)
    show "map len analyzed = [0, 5 / 3, 5 / 3, 5 / 3]" by (rule ll)
    show "list_all (\<lambda>l. len l \<le> 2) analyzed" by (rule lt)
  qed
qed

section \<open>Properties of the stability test\<close>

lemmas stability_defs =
  is_stable_while_extruding_def bed_total_torque_def conn_total_torque_def
  bed_conflict_torque_arm_def conn_conflict_torque_arm_def conflict_torque_arm_def
  bed_centroid_def conn_centroid_def mass_centroid_def mass_def weight_def movement_force_def
  extruder_pressure_direction_def endpoint_def extruder_conflict_force_def line_dir_def
  compute_elastic_section_modulus_def normalized2_def normalized3_def norm2_def Let_def
  point_line_distance_def reference_environment_def torque_quotient_def


lemma squaredNorm3_nonneg: "0 \<le> squaredNorm3 v"
  by (cases v) simp

lemma point_line_distance_nonneg: "0 \<le> point_line_distance l p"
  by (simp add: point_line_distance_def Let_def squaredNorm3_nonneg)

text \<open>
  Claim C2, as stated, fails: the weak connection section returns the signed quotient
  \<open>conn_total_torque / conn_conflict_torque_arm\<close>, which is negative for a part whose bed
  anchor and weakest connection both hold. Here the line has distinct endpoints and the
  result is \<open>-7.5\<close>.
\<close>

theorem is_stable_while_extruding_negative:
  "line_a unit_line \<noteq> line_b unit_line \<and>
   is_stable_while_extruding reference_environment wide_part wide_connection unit_line 1 test_params
   = - (15 / 2)"
  by (simp add: stability_defs wide_part_def unit_line_def test_params_def wide_connection_def)

lemma torque_quotient_sign:
  assumes "0 \<le> arm" and "0 < INFINITY env"
  shows "0 < torque_quotient env torque arm \<longleftrightarrow> 0 < torque"
    and "torque_quotient env torque arm < 0 \<longleftrightarrow> torque < 0"
  using assms by (auto simp add: torque_quotient_def zero_less_divide_iff divide_less_0_iff)

lemma plant_support_issues:
  assumes "plant_support env params z island force' st line = Some st'"
  shows "loop_issues st' = loop_issues st
         \<or> (\<exists>target_point.
               loop_issues st' = emplace_back_support_point (loop_issues st)
                 (new_SupportPoint (to_3d target_point z) force'
                    (to_3d (normalized2 (sub2 (line_b line) (line_a line))) 0)))"
  using assms
  by (auto simp add: plant_support_def Let_def split: bind_splits if_splits) blast+

text \<open>
  Claim C2, amended. Given that \<^verbatim>\<open>line_alg::distance_to\<close> is never negative and \<^verbatim>\<open>INFINITY\<close>
  is positive, the function returns a signed value. It is positive exactly when one of the
  area guards is taken, or the bed torque is positive, or the connection torque is
  positive; it is negative exactly when no guard is taken, the bed torque is not positive
  and the connection torque is negative. The loop over the external lines appends a support
  point for a line only when the value is positive: a point at the height of the layer, with
  the value as its force and the direction of the line as its direction.
\<close>

theorem is_stable_while_extruding_sign:
  assumes "\<forall>l p. 0 \<le> distance_to env l p" and "0 < INFINITY env"
  shows "(0 < is_stable_while_extruding env this connection extruded_line z params \<longleftrightarrow>
            sticking_area this < EPSILON env
            \<or> 0 < bed_total_torque env this extruded_line z params
            \<or> area connection < EPSILON env
            \<or> 0 < conn_total_torque env this connection extruded_line z params)
         \<and> (is_stable_while_extruding env this connection extruded_line z params < 0 \<longleftrightarrow>
              \<not> sticking_area this < EPSILON env
              \<and> \<not> 0 < bed_total_torque env this extruded_line z params
              \<and> \<not> area connection < EPSILON env
              \<and> conn_total_torque env this connection extruded_line z params < 0)
         \<and> (check_external_line env params z island st extruded_line = Some st' \<longrightarrow>
              loop_issues st' = loop_issues st
              \<or> 0 < is_stable_while_extruding env (part_ref st) (weakest_conn st) extruded_line z params
                \<and> (\<exists>target_point.
                      loop_issues st' = emplace_back_support_point (loop_issues st)
                        (new_SupportPoint (to_3d target_point z)
                           (is_stable_while_extruding env (part_ref st) (weakest_conn st)
                              extruded_line z params)
                           (to_3d (normalized2 (sub2 (line_b extruded_line) (line_a extruded_line))) 0))))"
proof (intro conjI impI)
  have bed: "0 \<le> bed_conflict_torque_arm env this extruded_line z"
    unfolding bed_conflict_torque_arm_def conflict_torque_arm_def using assms(1) by blast
  have conn: "0 \<le> conn_conflict_torque_arm env connection extruded_line z"
    unfolding conn_conflict_torque_arm_def conflict_torque_arm_def using assms(1) by blast
  note b = torque_quotient_sign [OF bed assms(2), of "bed_total_torque env this extruded_line z params"]
  note c = torque_quotient_sign [OF conn assms(2),
      of "conn_total_torque env this connection extruded_line z params"]
  show "0 < is_stable_while_extruding env this connection extruded_line z params \<longleftrightarrow>
            sticking_area this < EPSILON env
            \<or> 0 < bed_total_torque env this extruded_line z params
            \<or> area connection < EPSILON env
            \<or> 0 < conn_total_torque env this connection extruded_line z params"
    using b c by (simp add: is_stable_while_extruding_def)
  show "is_stable_while_extruding env this connection extruded_line z params < 0 \<longleftrightarrow>
              \<not> sticking_area this < EPSILON env
              \<and> \<not> 0 < bed_total_torque env this extruded_line z params
              \<and> \<not> area connection < EPSILON env
              \<and> conn_total_torque env this connection extruded_line z params < 0"
    using b c by (simp add: is_stable_while_extruding_def)
next
  let ?force = "is_stable_while_extruding env (part_ref st) (weakest_conn st) extruded_line z params"
  assume run: "check_external_line env params z island st extruded_line = Some st'"
  show "loop_issues st' = loop_issues st
        \<or> 0 < ?force
          \<and> (\<exists>target_point.
                loop_issues st' = emplace_back_support_point (loop_issues st)
                  (new_SupportPoint (to_3d target_point z) ?force
                     (to_3d (normalized2 (sub2 (line_b extruded_line) (line_a extruded_line))) 0)))"
  proof (cases "(unchecked_dist st + len extruded_line < min_distance_between_support_points params
                 \<and> malformation extruded_line < 0.3) \<or> len extruded_line = 0")
    case True
    with run show ?thesis by (auto simp add: check_external_line_def)
  next
    case False
    let ?st = "st\<lparr>unchecked_dist := len extruded_line,
                   stability_calls := stability_calls st @ [extruded_line]\<rparr>"
    show ?thesis
    proof (cases "0 < ?force")
      case True
      with False run have "plant_support env params z island ?force ?st extruded_line = Some st'"
        by (auto simp add: check_external_line_def Let_def split: if_splits)
      from plant_support_issues [OF this] True show ?thesis by simp
    next
      case no: False
      with False run have "st' = ?st"
        by (auto simp add: check_external_line_def Let_def split: if_splits)
      then show ?thesis by simp
    qed
  qed
qed

lemma pivot_arm: "bed_conflict_torque_arm reference_environment pivot_part unit_line 1 = 0"
  by (simp add: stability_defs pivot_part_def unit_line_def)

lemma pivot_torque: "bed_total_torque reference_environment pivot_part unit_line 1 test_params = 981 / 1600"
  by (simp add: stability_defs pivot_part_def unit_line_def test_params_def real_sqrt_divide)

lemma pivot_force:
  "is_stable_while_extruding reference_environment pivot_part wide_connection unit_line 1 test_params
   = 10 ^ 38"
  by (simp add: is_stable_while_extruding_def pivot_torque pivot_arm torque_quotient_def)
     (simp add: pivot_part_def reference_environment_def)

lemma unit_line_fields:
  "len unit_line = 1" "malformation unit_line = 0" "line_a unit_line = (- 1, 0)"
  "line_b unit_line = (0, 0)"
  by (simp_all add: unit_line_def)

lemma pivot_distance:
  "signed_distance_from_lines reference_environment [unit_line] (300, 0) = Some (300, 0, (0, 0))"
  by (simp add: signed_distance_from_lines_def reference_environment_def at_index_def
      nearest_point_on_line_def Let_def unit_line_fields)

lemma pivot_plant:
  "map_option loop_issues
     (plant_support reference_environment test_params 1 unit_island force'
        (loop_start\<lparr>part_ref := pivot_part, unchecked_dist := 1, stability_calls := [unit_line]\<rparr>)
        unit_line)
   = Some \<lparr>support_points = [\<lparr>position = (0, 0, 1), force = force', direction = (1, 0, 0)\<rparr>]\<rparr>"
  by (simp add: plant_support_def loop_start_def unit_island_def unit_line_fields Let_def
      normalized2_def pivot_distance position_taken_def take_position_def to_cell_index_def
      to_cell_coords_def cast_int_def emplace_back_support_point_def new_SupportPoint_def)

lemma pivot_run:
  "map_option loop_issues
     (check_external_line reference_environment test_params 1 unit_island
        (loop_start\<lparr>part_ref := pivot_part\<rparr>) unit_line)
   = Some \<lparr>support_points = [\<lparr>position = (0, 0, 1), force = 10 ^ 38, direction = (1, 0, 0)\<rparr>]\<rparr>"
proof -
  have "check_external_line reference_environment test_params 1 unit_island
          (loop_start\<lparr>part_ref := pivot_part\<rparr>) unit_line
        = plant_support reference_environment test_params 1 unit_island (10 ^ 38)
            (loop_start\<lparr>part_ref := pivot_part, unchecked_dist := 1, stability_calls := [unit_line]\<rparr>)
            unit_line"
  proof -
    have md: "min_distance_between_support_points test_params = 1" by (simp add: test_params_def)
    show ?thesis
      by (simp add: check_external_line_def unit_line_fields Let_def loop_start_def pivot_force md)
  qed
  then show ?thesis by (simp only: pivot_plant)
qed


theorem is_stable_while_extruding_sign_witness:
  "(\<forall>l p. 0 \<le> distance_to reference_environment l p) \<and> 0 < INFINITY reference_environment
   \<and> is_stable_while_extruding reference_environment wide_part wide_connection unit_line 1 test_params < 0
   \<and> conn_total_torque reference_environment wide_part wide_connection unit_line 1 test_params < 0
   \<and> bed_conflict_torque_arm reference_environment pivot_part unit_line 1 = 0
   \<and> 0 < bed_total_torque reference_environment pivot_part unit_line 1 test_params
   \<and> 0 < is_stable_while_extruding reference_environment pivot_part wide_connection unit_line 1
             test_params
   \<and> (\<exists>st'. check_external_line reference_environment test_params 1 unit_island
                 (loop_start\<lparr>part_ref := pivot_part\<rparr>) unit_line = Some st'
             \<and> loop_issues st'
                 = \<lparr>support_points = [\<lparr>position = (0, 0, 1), force = 10 ^ 38, direction = (1, 0, 0)\<rparr>]\<rparr>
             \<and> loop_issues st' \<noteq> loop_issues (loop_start\<lparr>part_ref := pivot_part\<rparr>))"
proof -
  have d: "\<forall>l p. 0 \<le> distance_to reference_environment l p"
    by (simp add: reference_environment_def point_line_distance_nonneg)
  have i: "0 < INFINITY reference_environment" by (simp add: reference_environment_def)
  have neg: "is_stable_while_extruding reference_environment wide_part wide_connection unit_line 1 test_params < 0"
    by (simp add: stability_defs wide_part_def unit_line_def test_params_def wide_connection_def)
  have pos: "0 < bed_total_torque reference_environment pivot_part unit_line 1 test_params"
    by (simp add: pivot_torque)
  from pivot_run obtain st' where
    run: "check_external_line reference_environment test_params 1 unit_island
            (loop_start\<lparr>part_ref := pivot_part\<rparr>) unit_line = Some st'"
    and issues: "loop_issues st'
          = \<lparr>support_points = [\<lparr>position = (0, 0, 1), force = 10 ^ 38, direction = (1, 0, 0)\<rparr>]\<rparr>"
    by auto
  have changed: "loop_issues st' \<noteq> loop_issues (loop_start\<lparr>part_ref := pivot_part\<rparr>)"
    unfolding issues by (simp add: loop_start_def)
  note wide = is_stable_while_extruding_sign [OF d i, where this = wide_part
      and connection = wide_connection and extruded_line = unit_line and z = 1
      and params = test_params and island = unit_island
      and st = "loop_start\<lparr>part_ref := pivot_part\<rparr>" and st' = st']
  note pivot = is_stable_while_extruding_sign [OF d i, where this = pivot_part
      and connection = wide_connection and extruded_line = unit_line and z = 1
      and params = test_params and island = unit_island
      and st = "loop_start\<lparr>part_ref := pivot_part\<rparr>" and st' = st']
  from wide neg have "conn_total_torque reference_environment wide_part wide_connection unit_line 1 test_params < 0"
    by blast
  moreover from pivot pos
  have "0 < is_stable_while_extruding reference_environment pivot_part wide_connection unit_line 1 test_params"
    by blast
  ultimately show ?thesis using d i neg pos pivot_arm run issues changed by blast
qed

text \<open>
  Claim C3. When \<open>sticking_area\<close> is below \<open>EPSILON\<close> the result is 1 whatever the two
  sticking accumulators hold; when the bed section falls through (the sticking area is not
  below \<open>EPSILON\<close> and the bed torque is not positive) and the connection's area is below
  \<open>EPSILON\<close>, the result is 1 whatever the connection's two accumulators hold.
\<close>

theorem is_stable_while_extruding_guards:
  "(sticking_area this < EPSILON env \<longrightarrow>
      is_stable_while_extruding env
        (this\<lparr>sticking_centroid_accumulator := c, sticking_second_moment_of_area_accumulator := m\<rparr>)
        connection extruded_line z params = 1)
   \<and> (\<not> sticking_area this < EPSILON env
        \<and> \<not> 0 < bed_total_torque env this extruded_line z params
        \<and> area connection < EPSILON env \<longrightarrow>
      is_stable_while_extruding env this
        (connection\<lparr>centroid_accumulator := c', second_moment_of_area_accumulator := m'\<rparr>)
        extruded_line z params = 1)"
  by (simp add: is_stable_while_extruding_def)

theorem is_stable_while_extruding_guards_witness:
  "sticking_area hanging_part < EPSILON reference_environment
   \<and> is_stable_while_extruding reference_environment
        (hanging_part\<lparr>sticking_centroid_accumulator := (7, 7, 7),
                       sticking_second_moment_of_area_accumulator := (9, 9)\<rparr>)
        wide_connection unit_line 1 test_params = 1
   \<and> \<not> sticking_area wide_part < EPSILON reference_environment
   \<and> \<not> 0 < bed_total_torque reference_environment wide_part unit_line 1 test_params
   \<and> area torn_connection < EPSILON reference_environment
   \<and> is_stable_while_extruding reference_environment wide_part
        (torn_connection\<lparr>centroid_accumulator := (7, 7, 7),
                          second_moment_of_area_accumulator := (9, 9)\<rparr>)
        unit_line 1 test_params = 1"
proof -
  have h1: "sticking_area hanging_part < EPSILON reference_environment"
    by (simp add: hanging_part_def reference_environment_def)
  have h2: "\<not> sticking_area wide_part < EPSILON reference_environment"
    by (simp add: wide_part_def reference_environment_def)
  have h3: "\<not> 0 < bed_total_torque reference_environment wide_part unit_line 1 test_params"
    by (simp add: stability_defs wide_part_def unit_line_def test_params_def)
  have h4: "area torn_connection < EPSILON reference_environment"
    by (simp add: torn_connection_def reference_environment_def)
  from is_stable_while_extruding_guards[where this = hanging_part and env = reference_environment
        and c = "(7, 7, 7)" and m = "(9, 9)" and connection = wide_connection
        and extruded_line = unit_line and z = 1 and params = test_params]
     is_stable_while_extruding_guards[where this = wide_part and env = reference_environment
        and c' = "(7, 7, 7)" and m' = "(9, 9)" and connection = torn_connection
        and extruded_line = unit_line and z = 1 and params = test_params]
     h1 h2 h3 h4
  show ?thesis by blast
qed

section \<open>Properties of the part tracker\<close>

lemmas tracker_defs =
  three_parts_def insert_island_def new_ActiveObjectParts_def emplace_def merge_def get_flat_id_def
  find_root.simps compress_path.simps new_Island_def ObjectPart_of_Island_def ObjectPart.truncate_def
  add_part_def access_def

text \<open>
  What the tracker guarantees when \<^verbatim>\<open>merge\<close> is given a representative as \<^verbatim>\<open>from\<close>, which is
  how \<^verbatim>\<open>check_global_stability\<close> calls it (both arguments come out of \<^verbatim>\<open>get_flat_id\<close>): the
  invariant holds for the empty tracker and is kept by \<^verbatim>\<open>insert\<close>, \<^verbatim>\<open>get_flat_id\<close>, \<^verbatim>\<open>access\<close>
  and such a \<^verbatim>\<open>merge\<close>; under it \<^verbatim>\<open>get_flat_id\<close> returns, its result is a key of
  \<^verbatim>\<open>active_object_parts\<close>, and asking again for the result returns it unchanged.
\<close>

lemma reaches_root: "reaches m i r k \<Longrightarrow> m r = Some r"
  by (induction rule: reaches.induct) auto

lemma reaches_det: "reaches m i r k \<Longrightarrow> reaches m i r' k' \<Longrightarrow> r = r' \<and> k = k'"
proof (induction arbitrary: r' k' rule: reaches.induct)
  case outer: (root r)
  from outer.prems show ?case
  proof (cases rule: reaches.cases)
    case root
    then show ?thesis by simp
  next
    case (step p k0)
    with outer.hyps show ?thesis by simp
  qed
next
  case outer: (step i p r k)
  from outer.prems show ?case
  proof (cases rule: reaches.cases)
    case root
    with outer.hyps show ?thesis by simp
  next
    case (step p' k0)
    with outer.hyps have "p' = p" by simp
    with step have "reaches m p r' k0" by simp
    from outer.IH [OF this] step show ?thesis by simp
  qed
qed

lemma find_root_reaches: "reaches m i r k \<Longrightarrow> find_root m i = Some r"
proof (induction rule: reaches.induct)
  case (root r)
  then show ?case by (subst find_root.simps) simp
next
  case (step i p r k)
  then show ?case by (subst find_root.simps) simp
qed

lemma reaches_redirect:
  assumes i: "reaches m i r ki"
  shows "reaches m j x k \<Longrightarrow> \<exists>k' \<le> k. reaches (m(i \<mapsto> r)) j x k'"
proof (induction rule: reaches.induct)
  case (root x)
  have "(m(i \<mapsto> r)) x = Some x"
  proof (cases "x = i")
    case True
    with root i have "reaches m i x 0" by (simp add: reaches.root)
    with i have "r = x" using reaches_det by blast
    with True show ?thesis by simp
  next
    case False
    with root show ?thesis by simp
  qed
  then show ?case using reaches.root by blast
next
  case (step j q x k)
  then obtain k' where k': "k' \<le> k" "reaches (m(i \<mapsto> r)) q x k'" by blast
  show ?case
  proof (cases "j = i")
    case False
    with step.hyps have "(m(i \<mapsto> r)) j = Some q" by simp
    with step.hyps k' have "reaches (m(i \<mapsto> r)) j x (Suc k')" by (simp add: reaches.step)
    moreover from k' have "Suc k' \<le> Suc k" by simp
    ultimately show ?thesis by blast
  next
    case True
    from step.hyps have "reaches m j x (Suc k)" by (simp add: reaches.step)
    with True i have xr: "x = r" using reaches_det by blast
    have rr: "m r = Some r" using i by (rule reaches_root)
    with step.hyps True have ir: "i \<noteq> r" by auto
    with rr have "reaches (m(i \<mapsto> r)) r r 0" by (simp add: reaches.root)
    with ir have "reaches (m(i \<mapsto> r)) i r (Suc 0)" by (simp add: reaches.step)
    with True xr have "reaches (m(i \<mapsto> r)) j x (Suc 0)" by simp
    moreover have "Suc 0 \<le> Suc k" by simp
    ultimately show ?thesis by blast
  qed
qed

lemma compress_path_reaches:
  "reaches m i r k \<Longrightarrow>
   \<exists>m'. compress_path r m i = Some m' \<and> dom m' = dom m \<and>
        (\<forall>j x kj. reaches m j x kj \<longrightarrow> (\<exists>kj'. reaches m' j x kj'))"
proof (induction k arbitrary: m i rule: less_induct)
  case (less k)
  from less.prems show ?case
  proof (cases rule: reaches.cases)
    case root
    then have "compress_path r m i = Some m" by (subst compress_path.simps) simp
    then show ?thesis by blast
  next
    case (step p k0)
    show ?thesis
    proof (cases "p = r")
      case True
      with step have "compress_path r m i = Some m" by (subst compress_path.simps) simp
      then show ?thesis by blast
    next
      case False
      let ?m = "m(i \<mapsto> r)"
      from reaches_redirect [OF less.prems step(4)]
      obtain k1 where k1: "k1 \<le> k0" "reaches ?m p r k1" by blast
      with step have "k1 < k" by simp
      from less.IH [OF this k1(2)]
      obtain m' where m': "compress_path r ?m p = Some m'" "dom m' = dom ?m"
        "\<forall>j x kj. reaches ?m j x kj \<longrightarrow> (\<exists>kj'. reaches m' j x kj')" by blast
      from step False m'(1) have "compress_path r m i = Some m'"
        by (subst compress_path.simps) auto
      moreover from step(2) m'(2) have "dom m' = dom m" by auto
      moreover have "\<forall>j x kj. reaches m j x kj \<longrightarrow> (\<exists>kj'. reaches m' j x kj')"
        using reaches_redirect [OF less.prems] m'(3) by blast
      ultimately show ?thesis by blast
    qed
  qed
qed

lemma reaches_mono:
  assumes "m \<subseteq>\<^sub>m m'"
  shows "reaches m j x k \<Longrightarrow> reaches m' j x k"
proof (induction rule: reaches.induct)
  case (root r)
  with assms have "m' r = Some r" by (auto simp add: map_le_def dom_def)
  then show ?case by (rule reaches.root)
next
  case (step i p r k)
  with assms have "m' i = Some p" by (auto simp add: map_le_def dom_def)
  with step show ?case by (simp add: reaches.step)
qed

lemma reaches_link:
  assumes f: "m f = Some f" and t: "m t = Some t" and ft: "f \<noteq> t"
  shows "reaches m j x k \<Longrightarrow> \<exists>k'. reaches (m(f \<mapsto> t)) j (if x = f then t else x) k'"
proof (induction rule: reaches.induct)
  case (root r)
  from t ft have tt: "reaches (m(f \<mapsto> t)) t t 0" by (simp add: reaches.root)
  show ?case
  proof (cases "r = f")
    case True
    have "(m(f \<mapsto> t)) f = Some t" by simp
    then have "reaches (m(f \<mapsto> t)) f t (Suc 0)" using ft tt by (rule reaches.step)
    with True show ?thesis by (simp del: fun_upd_apply) blast
  next
    case False
    with root have "(m(f \<mapsto> t)) r = Some r" by simp
    then have "reaches (m(f \<mapsto> t)) r r 0" by (rule reaches.root)
    with False show ?thesis by (simp del: fun_upd_apply) blast
  qed
next
  case (step i p r k)
  then obtain k' where k': "reaches (m(f \<mapsto> t)) p (if r = f then t else r) k'" by blast
  from step.hyps f have "i \<noteq> f" by auto
  with step.hyps have "(m(f \<mapsto> t)) i = Some p" by simp
  with step.hyps k' have "reaches (m(f \<mapsto> t)) i (if r = f then t else r) (Suc k')"
    by (simp add: reaches.step)
  then show ?case by blast
qed

lemma new_ActiveObjectParts_invariant: "tracker_invariant new_ActiveObjectParts"
  by (simp add: tracker_invariant_def new_ActiveObjectParts_def)

lemma insert_island_invariant:
  assumes inv: "tracker_invariant this"
  shows "tracker_invariant (snd (insert_island this island)) \<and>
         fst (insert_island this island) = next_part_idx this \<and>
         next_part_idx (snd (insert_island this island)) = Suc (next_part_idx this)"
proof -
  let ?n = "next_part_idx this"
  let ?m = "active_object_parts_id_mapping this"
  let ?p = "active_object_parts this"
  from inv have m: "?m ?n = None" by (auto simp add: tracker_invariant_def)
  from inv have p: "?p ?n = None" by (fastforce simp add: tracker_invariant_def dom_def)
  have le: "?m \<subseteq>\<^sub>m ?m(?n \<mapsto> ?n)" using m by (simp add: map_le_def dom_def)
  have "\<exists>r k. reaches (?m(?n \<mapsto> ?n)) i r k \<and> r \<in> dom (?p(?n \<mapsto> ObjectPart_of_Island island))"
    if "i < Suc ?n" for i
  proof (cases "i = ?n")
    case True
    have "reaches (?m(?n \<mapsto> ?n)) ?n ?n 0" by (simp add: reaches.root)
    with True show ?thesis by auto
  next
    case False
    with that have "i < ?n" by simp
    with inv obtain r k where r: "reaches ?m i r k" "r \<in> dom ?p"
      unfolding tracker_invariant_def by blast
    from reaches_mono [OF le r(1)] have "reaches (?m(?n \<mapsto> ?n)) i r k" .
    moreover from r(2) have "r \<in> dom (?p(?n \<mapsto> ObjectPart_of_Island island))" by simp
    ultimately show ?thesis by blast
  qed
  moreover have "(?m(?n \<mapsto> ?n)) r = Some r \<and> r < Suc ?n"
    if "r \<in> dom (?p(?n \<mapsto> ObjectPart_of_Island island))" for r
  proof (cases "r = ?n")
    case True
    then show ?thesis by simp
  next
    case False
    with that have "r \<in> dom ?p" by auto
    with inv have "?m r = Some r \<and> r < ?n" unfolding tracker_invariant_def by blast
    with False show ?thesis by simp
  qed
  moreover have "dom (?m(?n \<mapsto> ?n)) = {..< Suc ?n}"
    using inv by (auto simp add: tracker_invariant_def)
  ultimately show ?thesis
    using m p by (simp add: tracker_invariant_def insert_island_def emplace_def)
qed

lemma get_flat_id_invariant:
  assumes inv: "tracker_invariant this" and i: "i < next_part_idx this"
  shows "\<exists>r this'. get_flat_id this i = Some (r, this') \<and> tracker_invariant this' \<and>
           (\<exists>k. reaches (active_object_parts_id_mapping this) i r k) \<and>
           r \<in> dom (active_object_parts this') \<and>
           active_object_parts this' = active_object_parts this \<and>
           next_part_idx this' = next_part_idx this \<and>
           get_flat_id this' r = Some (r, this')"
proof -
  let ?m = "active_object_parts_id_mapping this"
  from inv i obtain r k where r: "reaches ?m i r k" "r \<in> dom (active_object_parts this)"
    unfolding tracker_invariant_def by blast
  from r(1) obtain p where p: "?m i = Some p" by (cases rule: reaches.cases) auto
  from r(1) have "find_root ?m i = Some r" by (rule find_root_reaches)
  then have root: "find_root ?m p = Some r"
  proof (cases "i = p")
    case True
    assume "find_root ?m i = Some r"
    with True show ?thesis by simp
  next
    case False
    assume "find_root ?m i = Some r"
    with p False show ?thesis by (subst (asm) find_root.simps) simp
  qed
  from compress_path_reaches [OF r(1)]
  obtain m' where m': "compress_path r ?m i = Some m'" "dom m' = dom ?m"
    "\<forall>j x kj. reaches ?m j x kj \<longrightarrow> (\<exists>kj'. reaches m' j x kj')" by blast
  let ?res = "this\<lparr>active_object_parts_id_mapping := m'\<rparr>"
  from p root m' have flat: "get_flat_id this i = Some (r, ?res)"
    by (simp add: get_flat_id_def)
  have rr: "?m r = Some r" using r(1) by (rule reaches_root)
  have live: "m' x = Some x" if "x \<in> dom (active_object_parts this)" for x
  proof -
    from that inv have "?m x = Some x" by (auto simp add: tracker_invariant_def)
    then have "reaches ?m x x 0" by (rule reaches.root)
    with m'(3) obtain k' where "reaches m' x x k'" by blast
    then show ?thesis by (rule reaches_root)
  qed
  have inv': "tracker_invariant ?res"
    unfolding tracker_invariant_def
  proof (intro conjI allI impI ballI)
    fix j assume "j < next_part_idx ?res"
    then have "j < next_part_idx this" by simp
    with inv obtain x kx where "reaches ?m j x kx" "x \<in> dom (active_object_parts this)"
      unfolding tracker_invariant_def by blast
    with m'(3) show "\<exists>r k. reaches (active_object_parts_id_mapping ?res) j r k \<and>
                           r \<in> dom (active_object_parts ?res)"
      by (simp, blast)
  next
    fix x assume "x \<in> dom (active_object_parts ?res)"
    then show "active_object_parts_id_mapping ?res x = Some x" using live by simp
  next
    fix x assume "x \<in> dom (active_object_parts ?res)"
    with inv show "x < next_part_idx ?res" by (auto simp add: tracker_invariant_def)
  next
    from inv m'(2) show "dom (active_object_parts_id_mapping ?res) = {..< next_part_idx ?res}"
      by (simp add: tracker_invariant_def)
  qed
  have mr: "m' r = Some r" using live r(2) by blast
  then have "find_root m' r = Some r" by (subst find_root.simps) simp
  moreover from mr have "compress_path r m' r = Some m'" by (subst compress_path.simps) simp
  ultimately have idem: "get_flat_id ?res r = Some (r, ?res)"
    using mr by (simp add: get_flat_id_def)
  from flat inv' r idem show ?thesis by auto
qed

lemma get_flat_id_of_representative:
  assumes inv: "tracker_invariant this" and r: "r \<in> dom (active_object_parts this)"
  shows "get_flat_id this r = Some (r, this)"
proof -
  from inv r have mr: "active_object_parts_id_mapping this r = Some r"
    by (auto simp add: tracker_invariant_def)
  then have "find_root (active_object_parts_id_mapping this) r = Some r"
    by (subst find_root.simps) simp
  moreover from mr have "compress_path r (active_object_parts_id_mapping this) r =
      Some (active_object_parts_id_mapping this)"
    by (subst compress_path.simps) simp
  ultimately show ?thesis using mr by (simp add: get_flat_id_def)
qed

lemma access_invariant:
  assumes inv: "tracker_invariant this" and i: "i < next_part_idx this"
  shows "\<exists>r part this'. access this i = Some (r, part, this') \<and> tracker_invariant this' \<and>
           active_object_parts this' r = Some part"
proof -
  from get_flat_id_invariant [OF inv i]
  obtain r this' where "get_flat_id this i = Some (r, this')" "tracker_invariant this'"
    "r \<in> dom (active_object_parts this')" by blast
  then show ?thesis by (auto simp add: access_def)
qed

lemma merge_invariant:
  assumes inv: "tracker_invariant this"
    and "from": "from \<in> dom (active_object_parts this)"
    and to: "to < next_part_idx this"
    and apart: "\<And>k. \<not> reaches (active_object_parts_id_mapping this) to from k"
  shows "\<exists>this'. merge this from to = Some this' \<and> tracker_invariant this' \<and>
           next_part_idx this' = next_part_idx this \<and>
           dom (active_object_parts this') = dom (active_object_parts this) - {from}"
proof -
  from get_flat_id_invariant [OF inv to]
  obtain t this1 k where t: "get_flat_id this to = Some (t, this1)" "tracker_invariant this1"
    "reaches (active_object_parts_id_mapping this) to t k"
    "t \<in> dom (active_object_parts this1)" "active_object_parts this1 = active_object_parts this"
    "next_part_idx this1 = next_part_idx this" by blast
  let ?m = "active_object_parts_id_mapping this1"
  let ?p = "active_object_parts this1"
  from t(3) apart have tf: "from \<noteq> t" by blast
  from "from" t(5) have f1: "from \<in> dom ?p" by simp
  from get_flat_id_of_representative [OF t(2) f1]
  have ff: "get_flat_id this1 from = Some (from, this1)" .
  from t(4) obtain to_part where tp: "?p t = Some to_part" by blast
  from f1 obtain from_part where fp: "?p from = Some from_part" by blast
  let ?parts = "(?p(t \<mapsto> add_part to_part from_part))(from := None)"
  let ?res = "this1\<lparr>active_object_parts := ?parts,
                     active_object_parts_id_mapping := ?m(from \<mapsto> t)\<rparr>"
  from t(1) ff tp fp have m: "merge this from to = Some ?res"
    by (simp add: merge_def Let_def)
  from t(2) f1 have mf: "?m from = Some from" "from < next_part_idx this1"
    by (auto simp add: tracker_invariant_def)
  from t(2) t(4) have mt: "?m t = Some t" by (auto simp add: tracker_invariant_def)
  have d: "dom ?parts = dom ?p - {from}" using t(4) by auto
  have inv': "tracker_invariant ?res"
    unfolding tracker_invariant_def
  proof (intro conjI allI impI ballI)
    fix j assume "j < next_part_idx ?res"
    then have "j < next_part_idx this1" by simp
    with t(2) obtain x kx where x: "reaches ?m j x kx" "x \<in> dom ?p"
      unfolding tracker_invariant_def by blast
    from reaches_link [OF mf(1) mt tf x(1)]
    obtain k' where "reaches (?m(from \<mapsto> t)) j (if x = from then t else x) k'" by blast
    moreover have "(if x = from then t else x) \<in> dom ?parts"
      using x(2) t(4) tf unfolding d by auto
    ultimately show "\<exists>r k. reaches (active_object_parts_id_mapping ?res) j r k \<and>
                           r \<in> dom (active_object_parts ?res)"
      by (simp del: fun_upd_apply, blast)
  next
    fix x assume "x \<in> dom (active_object_parts ?res)"
    then have "x \<in> dom ?p" "x \<noteq> from" using t(4) by (auto split: if_splits)
    with t(2) show "active_object_parts_id_mapping ?res x = Some x"
      by (auto simp add: tracker_invariant_def)
  next
    fix x assume "x \<in> dom (active_object_parts ?res)"
    then have "x \<in> dom ?p" using t(4) by (auto split: if_splits)
    with t(2) show "x < next_part_idx ?res" by (auto simp add: tracker_invariant_def)
  next
    from t(2) mf(2) show "dom (active_object_parts_id_mapping ?res) = {..< next_part_idx ?res}"
      by (auto simp add: tracker_invariant_def)
  qed
  from m inv' d t(5) t(6) show ?thesis by (simp del: fun_upd_apply)
qed

lemma store_part_invariant:
  assumes "tracker_invariant this" and "flat_id \<in> dom (active_object_parts this)"
  shows "tracker_invariant (store_part this flat_id part)"
proof -
  from assms(2) have "dom ((active_object_parts this)(flat_id \<mapsto> part)) = dom (active_object_parts this)"
    by auto
  with assms(1) show ?thesis
    unfolding tracker_invariant_def store_part_def by (simp del: fun_upd_apply dom_fun_upd)
qed

lemma get_flat_id_result:
  assumes "tracker_invariant this" and "i < next_part_idx this"
    and "get_flat_id this i = Some (r, this')"
  shows "tracker_invariant this' \<and> next_part_idx this' = next_part_idx this
         \<and> r \<in> dom (active_object_parts this')
         \<and> (\<exists>k. reaches (active_object_parts_id_mapping this) i r k)"
  using get_flat_id_invariant [OF assms(1,2)] assms(3) by auto

lemma get_flat_id_defined:
  assumes "get_flat_id this i = Some (r, this')" and "tracker_invariant this"
  shows "i < next_part_idx this"
proof -
  from assms(1) have "i \<in> dom (active_object_parts_id_mapping this)"
    by (auto simp add: get_flat_id_def split: bind_splits)
  with assms(2) show ?thesis by (simp add: tracker_invariant_def)
qed

lemma tracked_invariant:
  "tracked ids this \<Longrightarrow> tracker_invariant this \<and> ids = {..< next_part_idx this}"
proof (induction rule: tracked.induct)
  case empty
  show ?case by (simp add: new_ActiveObjectParts_invariant) (simp add: new_ActiveObjectParts_def)
next
  case (inserted ids this island)
  with insert_island_invariant [of this island] show ?case by (auto simp add: lessThan_Suc)
next
  case (flattened ids this id' flat_id this')
  from flattened.IH have inv: "tracker_invariant this" by simp
  from get_flat_id_defined [OF flattened.hyps(2) inv] have "id' < next_part_idx this" .
  from get_flat_id_result [OF inv this flattened.hyps(2)] flattened.IH show ?case by simp
next
  case (accessed ids this id' flat_id part this' part')
  from accessed.IH have inv: "tracker_invariant this" by simp
  from accessed.hyps(2) obtain p where g: "get_flat_id this id' = Some (flat_id, this')"
    and "active_object_parts this' flat_id = Some p"
    by (auto simp add: access_def split: bind_splits)
  from get_flat_id_defined [OF g inv] have "id' < next_part_idx this" .
  from get_flat_id_result [OF inv this g]
  have "tracker_invariant this'" "next_part_idx this' = next_part_idx this"
    "flat_id \<in> dom (active_object_parts this')" by simp_all
  with store_part_invariant [of this' flat_id part'] accessed.IH show ?case
    by (simp add: store_part_def)
next
  case (merged ids this "from" to this')
  from merged.IH have inv: "tracker_invariant this" and ids: "ids = {..< next_part_idx this}"
    by simp_all
  from merged.hyps(3) ids have to: "to < next_part_idx this" by simp
  have apart: "\<not> reaches (active_object_parts_id_mapping this) to from k" for k
  proof
    assume r: "reaches (active_object_parts_id_mapping this) to from k"
    from get_flat_id_invariant [OF inv to] obtain r' this1 k' where
      g: "get_flat_id this to = Some (r', this1)"
      and r': "reaches (active_object_parts_id_mapping this) to r' k'" by blast
    from reaches_det [OF r r'] g merged.hyps(4) show False by simp
  qed
  from merge_invariant [OF inv merged.hyps(2) to apart] merged.hyps(5) ids show ?case by auto
qed

lemma tracked_three_parts: "tracked {0, 1, 2} three_parts"
proof -
  let ?t1 = "snd (insert_island new_ActiveObjectParts new_Island)"
  let ?t2 = "snd (insert_island ?t1 new_Island)"
  have f: "fst (insert_island new_ActiveObjectParts new_Island) = 0"
    "fst (insert_island ?t1 new_Island) = 1" "fst (insert_island ?t2 new_Island) = 2"
    by (simp_all add: insert_island_def new_ActiveObjectParts_def)
  have s: "insert 1 {0} = {0, 1::nat}" "insert 2 {0, 1} = {0, 1, 2::nat}" by auto
  from tracked.inserted [OF tracked.empty, of new_Island] have "tracked {0} ?t1"
    unfolding f .
  from tracked.inserted [OF this, of new_Island] have "tracked {0, 1} ?t2"
    unfolding f s .
  from tracked.inserted [OF this, of new_Island] show ?thesis
    unfolding f s three_parts_def .
qed

text \<open>
  Claim C9, as stated, fails for a sequence in which \<^verbatim>\<open>merge\<close> is given an id that is no
  representative any more. After \<^verbatim>\<open>merge(0, 1)\<close> the representative of id 0 is 1.
  \<^verbatim>\<open>merge(0, 2)\<close> then adds part 1 to part 2 and erases it, but redirects only the entry of
  id 0: the entry of id 1 still points to itself, \<^verbatim>\<open>get_flat_id(1)\<close> returns 1, which is no
  key of \<^verbatim>\<open>active_object_parts\<close> any more, and \<^verbatim>\<open>access(1)\<close> fails.
\<close>

theorem merge_from_merged_id_erases_live_representative:
  "merge three_parts 0 1 \<noteq> None
   \<and> merge (the (merge three_parts 0 1)) 0 2 \<noteq> None
   \<and> map_option fst (get_flat_id (the (merge (the (merge three_parts 0 1)) 0 2)) 1) = Some 1
   \<and> active_object_parts (the (merge (the (merge three_parts 0 1)) 0 2)) 1 = None
   \<and> access (the (merge (the (merge three_parts 0 1)) 0 2)) 1 = None"
  by (simp add: tracker_defs)

text \<open>
  Claim C9, amended. After any sequence of calls of \<^verbatim>\<open>insert\<close>, \<^verbatim>\<open>get_flat_id\<close>, \<^verbatim>\<open>access\<close>
  and \<^verbatim>\<open>merge\<close> in which every \<^verbatim>\<open>merge(from, to)\<close> is given a key of \<^verbatim>\<open>active_object_parts\<close>
  as \<open>from\<close> and an id with another representative as \<open>to\<close>, for every id that \<^verbatim>\<open>insert\<close> has
  returned: \<^verbatim>\<open>get_flat_id\<close> returns, its result is a key of \<^verbatim>\<open>active_object_parts\<close>,
  \<^verbatim>\<open>get_flat_id\<close> of the result is the result again, and \<^verbatim>\<open>access\<close> finds the part.
\<close>

theorem tracked_ids_have_live_representatives:
  assumes "tracked ids this" and "id' \<in> ids"
  shows "\<exists>flat_id this' part this''.
           get_flat_id this id' = Some (flat_id, this')
           \<and> get_flat_id this' flat_id = Some (flat_id, this')
           \<and> flat_id \<in> dom (active_object_parts this')
           \<and> access this id' = Some (flat_id, part, this'')"
proof -
  from tracked_invariant [OF assms(1)] assms(2)
  have inv: "tracker_invariant this" and i: "id' < next_part_idx this" by simp_all
  from get_flat_id_invariant [OF inv i] obtain r this' where
    g: "get_flat_id this id' = Some (r, this')" "get_flat_id this' r = Some (r, this')"
       "r \<in> dom (active_object_parts this')" by blast
  then obtain part where "active_object_parts this' r = Some part" by blast
  with g(1) have "access this id' = Some (r, part, this')" by (simp add: access_def)
  with g show ?thesis by blast
qed

theorem tracked_ids_have_live_representatives_witness:
  "tracked {0, 1, 2} (the (merge three_parts 1 0)) \<and> (1::nat) \<in> {0, 1, 2}
   \<and> map_option fst (get_flat_id (the (merge three_parts 1 0)) 1) = Some 0
   \<and> map_option fst (access (the (merge three_parts 1 0)) 1) = Some 0
   \<and> (\<exists>flat_id this' part this''.
           get_flat_id (the (merge three_parts 1 0)) 1 = Some (flat_id, this')
           \<and> get_flat_id this' flat_id = Some (flat_id, this')
           \<and> flat_id \<in> dom (active_object_parts this')
           \<and> access (the (merge three_parts 1 0)) 1 = Some (flat_id, part, this''))"
proof -
  have m: "merge three_parts 1 0 = Some (the (merge three_parts 1 0))"
    by (simp add: tracker_defs)
  have "tracked {0, 1, 2} (the (merge three_parts 1 0))"
    by (rule tracked.merged [OF tracked_three_parts _ _ _ m]) (simp_all add: tracker_defs)
  moreover have "map_option fst (get_flat_id (the (merge three_parts 1 0)) 1) = Some 0"
    "map_option fst (access (the (merge three_parts 1 0)) 1) = Some 0"
    by (simp_all add: tracker_defs)
  ultimately show ?thesis
    using tracked_ids_have_live_representatives [of "{0, 1, 2}" "the (merge three_parts 1 0)" 1]
    by simp
qed

section \<open>Properties of the global pass\<close>

lemma plant_support_calls:
  "plant_support env params z island f st line = Some st' \<Longrightarrow>
   stability_calls st' = stability_calls st"
  by (auto simp: plant_support_def Let_def split: bind_splits if_splits prod.splits)

lemma check_external_line_calls:
  "check_external_line env params z island st line = Some st' \<Longrightarrow>
   stability_calls st' = stability_calls st
   \<or> (stability_calls st' = stability_calls st @ [line] \<and> len line \<noteq> 0)"
  by (auto simp: check_external_line_def Let_def split: if_splits dest!: plant_support_calls)

lemma external_lines_calls:
  "for_each (check_external_line env params z island) st lines = Some st' \<Longrightarrow>
   set (stability_calls st') \<subseteq> set (stability_calls st) \<union> {l \<in> set lines. len l \<noteq> 0}"
proof (induction lines arbitrary: st)
  case Nil
  then show ?case by simp
next
  case (Cons l ls)
  from Cons.prems obtain s1 where
    step: "check_external_line env params z island st l = Some s1"
    and rest: "for_each (check_external_line env params z island) s1 ls = Some st'"
    by (auto split: option.splits)
  from check_external_line_calls[OF step] Cons.IH[OF rest] show ?case by auto
qed

lemma norm2_zero_iff: "norm2 v = 0 \<longleftrightarrow> v = (0, 0)"
proof (cases v)
  case (Pair x y)
  have "x * x + y * y = 0 \<longleftrightarrow> x = 0 \<and> y = 0"
    by (metis add_nonneg_eq_0_iff mult_eq_0_iff zero_le_square)
  then show ?thesis using Pair by (simp add: norm2_def)
qed

lemma consistent_length_nonzero:
  assumes "consistent_length l" "len l \<noteq> 0"
  shows "sub2 (line_b l) (line_a l) \<noteq> (0, 0)"
proof
  assume "sub2 (line_b l) (line_a l) = (0, 0)"
  then have "sub2 (line_a l) (line_b l) = (0, 0)"
    by (cases "line_a l"; cases "line_b l") simp
  with assms show False by (simp add: consistent_length_def norm2_zero_iff)
qed

lemma consistent_new_ExtrusionLine: "consistent_length (new_ExtrusionLine a b e)"
  by (simp add: consistent_length_def new_ExtrusionLine_def)

lemma resample_consistent:
  "resample env params entity = Some lines \<Longrightarrow> l \<in> set lines \<Longrightarrow> consistent_length l"
  by (auto simp: resample_def Let_def lines_between_def consistent_new_ExtrusionLine
      split: if_splits)

lemma squaredNorm2_self: "squaredNorm2 (sub2 p p) = 0"
  by (cases p) simp

lemma resample_first:
  "resample env params entity = Some lines \<Longrightarrow> lines \<noteq> [] \<and> len (lines ! 0) = 0"
  by (auto simp: resample_def Let_def norm2_def squaredNorm2_self split: if_splits)

lemma check_lines_consistent:
  assumes "check_lines env params z fw prev lines st = Some (lines', st')"
    and "\<forall>l \<in> set lines. consistent_length l"
  shows "\<forall>l \<in> set lines'. consistent_length l"
proof
  fix l assume "l \<in> set lines'"
  then obtain i where i: "i < length lines'" "l = lines' ! i" by (auto simp: in_set_conv_nth)
  note fr = check_lines_frame[OF assms(1)]
  have n: "length lines' = length lines" using check_lines_length[OF assms(1)] .
  from fr i n have "line_a l = line_a (lines ! i)" "line_b l = line_b (lines ! i)" "len l = len (lines ! i)"
    by (metis nth_map)+
  moreover have "consistent_length (lines ! i)" using assms(2) i n by simp
  ultimately show "consistent_length l" by (simp add: consistent_length_def)
qed

lemma check_path_lines:
  assumes "check_path env params z region prev entity (out, issues) = Some (out', issues')"
  shows "length out < length out' \<and> len (out' ! length out) = 0
         \<and> (\<forall>l \<in> set (drop (length out) out'). consistent_length l)"
proof -
  from assms obtain lines analyzed st' where
    rs: "resample env params entity = Some lines"
    and cl: "check_lines env params z (get_flow_width region (role entity)) prev lines
               (add_distance new_accumulator (bridge_distance params + 1), new_accumulator, issues)
             = Some (analyzed, st')"
    and out: "out' = out @ analyzed"
    by (auto simp: check_path_def Let_def split: bind_splits)
  from resample_first[OF rs] have ne: "lines \<noteq> []" and z0: "len (lines ! 0) = 0" by simp_all
  have n: "length analyzed = length lines" using check_lines_length[OF cl] .
  have "len (analyzed ! 0) = len (lines ! 0)"
    using check_lines_frame[OF cl] ne n by (metis length_greater_0_conv nth_map)
  moreover have "\<forall>l \<in> set analyzed. consistent_length l"
    using check_lines_consistent[OF cl] resample_consistent[OF rs] by blast
  ultimately show ?thesis using out ne n z0 by (simp add: nth_append)
qed

text \<open>
  Claim C10. A line with \<open>len = 0\<close> takes the branch that only accumulates the distance. So
  every line with which the loop over the external lines of an island calls
  \<^verbatim>\<open>is_stable_while_extruding\<close> (the lines recorded in \<open>stability_calls\<close>) has a length
  other than zero, and, its length being the norm of \<open>a - b\<close> as the constructor computes it,
  a vector \<open>b - a\<close> other than zero. The lines of a path of the local analyzer have such a
  length, and the first of them, the segment at the path's first point, has length zero.
\<close>

theorem zero_length_lines_skip_stability_test:
  "(len line = 0 \<longrightarrow>
      check_external_line env params z island st line
      = Some (st\<lparr>unchecked_dist := unchecked_dist st + len line\<rparr>))
   \<and> (for_each (check_external_line env params z island) st lines = Some st' \<longrightarrow>
        (\<forall>l \<in> set (stability_calls st').
           l \<in> set (stability_calls st)
           \<or> (l \<in> set lines \<and> len l \<noteq> 0
               \<and> (consistent_length l \<longrightarrow> sub2 (line_b l) (line_a l) \<noteq> (0, 0)))))
   \<and> (check_path env params z' region prev entity (out, issues) = Some (out', issues') \<longrightarrow>
        length out < length out' \<and> len (out' ! length out) = 0
        \<and> (\<forall>l \<in> set (drop (length out) out'). consistent_length l))"
proof (intro conjI impI)
  assume "len line = 0"
  then show "check_external_line env params z island st line
      = Some (st\<lparr>unchecked_dist := unchecked_dist st + len line\<rparr>)"
    by (simp add: check_external_line_def)
next
  assume run: "for_each (check_external_line env params z island) st lines = Some st'"
  show "\<forall>l \<in> set (stability_calls st').
           l \<in> set (stability_calls st)
           \<or> (l \<in> set lines \<and> len l \<noteq> 0
               \<and> (consistent_length l \<longrightarrow> sub2 (line_b l) (line_a l) \<noteq> (0, 0)))"
    using external_lines_calls[OF run] consistent_length_nonzero by blast
next
  assume "check_path env params z' region prev entity (out, issues) = Some (out', issues')"
  from check_path_lines[OF this]
  show "length out < length out'" "len (out' ! length out) = 0"
    "\<forall>l \<in> set (drop (length out) out'). consistent_length l"
    by simp_all
qed

lemma loop_run:
  "for_each (check_external_line reference_environment test_params 1 new_Island) loop_start
     [zero_line, unit_line]
   = Some (loop_start\<lparr>unchecked_dist := 1, stability_calls := [unit_line]\<rparr>)"
  apply (simp add: check_external_line_def zero_line_def new_ExtrusionLine_def norm2_def loop_start_def
      Let_def)
  apply (simp add: unit_line_def test_params_def)
  apply (simp add: stability_defs wide_part_def wide_connection_def  unit_line_def test_params_def)
  done

theorem zero_length_lines_skip_stability_test_witness:
  "len zero_line = 0
   \<and> check_external_line reference_environment test_params 1 new_Island loop_start zero_line
       = Some (loop_start\<lparr>unchecked_dist := unchecked_dist loop_start + len zero_line\<rparr>)
   \<and> for_each (check_external_line reference_environment test_params 1 new_Island) loop_start
         [zero_line, unit_line]
       = Some (loop_start\<lparr>unchecked_dist := 1, stability_calls := [unit_line]\<rparr>)
   \<and> list_all (\<lambda>l. l \<in> set [zero_line, unit_line] \<and> len l \<noteq> 0)
        (stability_calls (loop_start\<lparr>unchecked_dist := 1, stability_calls := [unit_line]\<rparr>))
   \<and> (\<exists>out' issues'.
         check_path reference_environment test_params (4 / 10) test_region [floor_line] test_entity
           ([], \<lparr>support_points = []\<rparr>) = Some (out', issues')
         \<and> len (out' ! 0) = 0)"
proof -
  have z: "len zero_line = 0"
    by (simp add: zero_line_def new_ExtrusionLine_def norm2_def)
  have "\<exists>out' issues'.
          check_path reference_environment test_params (4 / 10) test_region [floor_line] test_entity
            ([], \<lparr>support_points = []\<rparr>) = Some (out', issues')"
    by (simp add: check_path_def resample_def test_entity_def test_params_def unscaled_def
        lines_between_def lines_count_between_def norm2_def normalized2_def new_ExtrusionLine_def
        get_flow_width_def floor_line_def test_region_def reference_defs upt_conv_Cons
        real_sqrt_divide)
  then obtain out' issues' where
    path: "check_path reference_environment test_params (4 / 10) test_region [floor_line] test_entity
            ([], \<lparr>support_points = []\<rparr>) = Some (out', issues')"
    by blast
  note inst = zero_length_lines_skip_stability_test[where line = zero_line
      and env = reference_environment and params = test_params and z = 1 and island = new_Island
      and st = loop_start and lines = "[zero_line, unit_line]"
      and st' = "loop_start\<lparr>unchecked_dist := 1, stability_calls := [unit_line]\<rparr>"
      and z' = "4 / 10" and region = test_region and prev = "[floor_line]" and entity = test_entity
      and out = "[]" and issues = "\<lparr>support_points = []\<rparr>" and out' = out' and issues' = issues']
  from inst z have a: "check_external_line reference_environment test_params 1 new_Island loop_start zero_line
       = Some (loop_start\<lparr>unchecked_dist := unchecked_dist loop_start + len zero_line\<rparr>)"
    by blast
  from inst loop_run have b: "list_all (\<lambda>l. l \<in> set [zero_line, unit_line] \<and> len l \<noteq> 0)
        (stability_calls (loop_start\<lparr>unchecked_dist := 1, stability_calls := [unit_line]\<rparr>))"
    by (simp add: list_all_iff loop_start_def)
  from inst path have c: "len (out' ! 0) = 0" by simp
  from z a b c path loop_run show ?thesis by blast
qed

subsection \<open>The merges of the global pass\<close>

text \<open>
  The global pass calls the tracker as \<open>tracked\<close> describes. The ids that the loop over the
  connections of an island collects (lines 853 to 859) are results of \<^verbatim>\<open>get_flat_id\<close>: keys of
  \<^verbatim>\<open>active_object_parts\<close>, each once. The loop of lines 862 to 866 merges each of them other
  than the first into the first, which stays a key all along; every one of these calls
  returns. So after any number of layers the tracker of the global pass is the result of
  such a sequence of calls (\<open>global_pass_tracked\<close>).
\<close>

lemma tracked_representative:
  assumes "tracked ids this" and "r \<in> dom (active_object_parts this)"
  shows "r \<in> ids" and "get_flat_id this r = Some (r, this)"
proof -
  from tracked_invariant [OF assms(1)]
  have inv: "tracker_invariant this" and ids: "ids = {..< next_part_idx this}" by simp_all
  from inv assms(2) ids show "r \<in> ids" by (auto simp add: tracker_invariant_def)
  from get_flat_id_of_representative [OF inv assms(2)]
  show "get_flat_id this r = Some (r, this)" .
qed

lemma collect_connection_tracked:
  assumes "collect_connection st (parts, parts_ids, t, n) connection = Some (parts', parts_ids', t', n')"
    and "tracked ids parts" and "distinct parts_ids"
    and "set parts_ids \<subseteq> dom (active_object_parts parts)"
  shows "tracked ids parts' \<and> distinct parts_ids'
         \<and> set parts_ids' \<subseteq> dom (active_object_parts parts')"
proof -
  from assms(1) obtain prev_part part_id where
    g: "get_flat_id parts prev_part = Some (part_id, parts')"
    and p: "parts_ids' = (if part_id \<in> set parts_ids then parts_ids else parts_ids @ [part_id])"
    by (auto simp add: collect_connection_def split: bind_splits)
  from tracked_invariant [OF assms(2)] have inv: "tracker_invariant parts" by simp
  from get_flat_id_defined [OF g inv] have "prev_part < next_part_idx parts" .
  from get_flat_id_invariant [OF inv this] g
  have "part_id \<in> dom (active_object_parts parts')"
    "active_object_parts parts' = active_object_parts parts" by auto
  with assms(3,4) p tracked.flattened [OF assms(2) g] show ?thesis by auto
qed

lemma collect_connections_tracked:
  assumes "for_each (collect_connection st) (parts, parts_ids, t, n) connections
           = Some (parts', parts_ids', t', n')"
    and "tracked ids parts" and "distinct parts_ids"
    and "set parts_ids \<subseteq> dom (active_object_parts parts)"
  shows "tracked ids parts' \<and> distinct parts_ids'
         \<and> set parts_ids' \<subseteq> dom (active_object_parts parts')"
  using assms
proof (induction connections arbitrary: parts parts_ids t n)
  case Nil
  then show ?case by simp
next
  case (Cons c cs)
  from Cons.prems(1) obtain p1 i1 t1 n1 where
    s: "collect_connection st (parts, parts_ids, t, n) c = Some (p1, i1, t1, n1)"
    and r: "for_each (collect_connection st) (p1, i1, t1, n1) cs = Some (parts', parts_ids', t', n')"
    by (auto split: option.splits)
  from collect_connection_tracked [OF s Cons.prems(2-4)] Cons.IH [OF r] show ?case by blast
qed

lemma merge_loop_tracked:
  assumes "tracked ids parts" and "final_part_id \<in> dom (active_object_parts parts)"
    and "distinct parts_ids" and "set parts_ids \<subseteq> dom (active_object_parts parts)"
  shows "\<exists>parts'. for_each (\<lambda>parts part_id.
                       if final_part_id \<noteq> part_id then merge parts part_id final_part_id
                       else Some parts) parts parts_ids = Some parts'
                  \<and> tracked ids parts'"
  using assms
proof (induction parts_ids arbitrary: parts)
  case Nil
  then show ?case by simp
next
  case (Cons part_id rest)
  show ?case
  proof (cases "final_part_id = part_id")
    case True
    with Cons.IH [OF Cons.prems(1,2)] Cons.prems(3,4) show ?thesis by simp
  next
    case False
    from tracked_invariant [OF Cons.prems(1)]
    have inv: "tracker_invariant parts" and ids: "ids = {..< next_part_idx parts}" by simp_all
    from Cons.prems(4) have "from": "part_id \<in> dom (active_object_parts parts)" by simp
    note final = tracked_representative [OF Cons.prems(1,2)]
    from final(1) ids have to: "final_part_id < next_part_idx parts" by simp
    have apart: "\<not> reaches (active_object_parts_id_mapping parts) final_part_id part_id k" for k
    proof
      assume r: "reaches (active_object_parts_id_mapping parts) final_part_id part_id k"
      from inv Cons.prems(2)
      have "active_object_parts_id_mapping parts final_part_id = Some final_part_id"
        by (auto simp add: tracker_invariant_def)
      then have "reaches (active_object_parts_id_mapping parts) final_part_id final_part_id 0"
        by (rule reaches.root)
      from reaches_det [OF r this] False show False by simp
    qed
    from merge_invariant [OF inv "from" to apart] obtain p1 where
      m: "merge parts part_id final_part_id = Some p1"
      and d: "dom (active_object_parts p1) = dom (active_object_parts parts) - {part_id}"
      by blast
    have "map_option fst (get_flat_id parts final_part_id) \<noteq> Some part_id"
      using final(2) False by simp
    from tracked.merged [OF Cons.prems(1) "from" final(1) this m] have t1: "tracked ids p1" .
    from Cons.prems(2) False d have f1: "final_part_id \<in> dom (active_object_parts p1)" by auto
    from Cons.prems(3,4) d have r1: "distinct rest" "set rest \<subseteq> dom (active_object_parts p1)"
      by auto
    from Cons.IH [OF t1 f1 r1] False m show ?thesis by simp
  qed
qed

lemma merge_parts_tracked:
  assumes "tracked ids parts" and "distinct parts_ids" and "parts_ids \<noteq> []"
    and "set parts_ids \<subseteq> dom (active_object_parts parts)"
  shows "\<exists>parts'. merge_parts parts parts_ids = Some (hd parts_ids, parts') \<and> tracked ids parts'"
proof -
  from assms(3) obtain final_part_id rest where p: "parts_ids = final_part_id # rest"
    by (cases parts_ids) auto
  with assms(4) have "final_part_id \<in> dom (active_object_parts parts)" by simp
  from merge_loop_tracked [OF assms(1) this assms(2,4)] p show ?thesis
    by (auto simp add: merge_parts_def)
qed

lemma place_island_tracked:
  assumes "place_island env z st indexed_island = Some st'" and "tracked ids (parts_of st)"
  shows "\<exists>ids'. tracked ids' (parts_of st')"
proof -
  obtain island_idx island where ii: "indexed_island = (island_idx, island)"
    by (cases indexed_island) auto
  show ?thesis
  proof (cases "connected_islands island = []")
    case True
    with assms(1) ii have "parts_of st' = snd (insert_island (parts_of st) island)"
      by (auto simp add: place_island_def split: prod.splits)
    with tracked.inserted [OF assms(2), of island] show ?thesis by auto
  next
    case False
    with assms(1) ii obtain parts parts_ids t n final_part_id parts1 flat_id part parts2 where
      c: "for_each (collect_connection st)
            (parts_of st, [], new_IslandConnection, new_IslandConnection)
            (connected_islands island) = Some (parts, parts_ids, t, n)"
      and m: "merge_parts parts parts_ids = Some (final_part_id, parts1)"
      and a: "access parts1 final_part_id = Some (flat_id, part, parts2)"
      and s: "parts_of st' = store_part parts2 flat_id (add_part part (ObjectPart_of_Island island))"
      by (auto simp add: place_island_def Let_def split: bind_splits)
    from collect_connections_tracked [OF c assms(2)]
    have t: "tracked ids parts" "distinct parts_ids"
      "set parts_ids \<subseteq> dom (active_object_parts parts)" by simp_all
    from m have "parts_ids \<noteq> []" by (auto simp add: merge_parts_def)
    from merge_parts_tracked [OF t(1,2) this t(3)] m have "tracked ids parts1" by auto
    from tracked.accessed [OF this a] s show ?thesis by auto
  qed
qed

lemma check_island_tracked:
  assumes "check_island env params z st indexed_island = Some st'" and "tracked ids (parts_of st)"
  shows "tracked ids (parts_of st')"
proof -
  from assms(1) obtain part_id flat_id part parts part' where
    a: "access (parts_of st) part_id = Some (flat_id, part, parts)"
    and s: "parts_of st' = store_part parts flat_id part'"
    by (auto simp add: check_island_def Let_def split: bind_splits prod.splits)
  from tracked.accessed [OF assms(2) a] s show ?thesis by simp
qed

lemma for_each_tracked:
  assumes "for_each body st xs = Some st'" and "\<exists>ids. tracked ids (parts_of st)"
    and "\<And>s x s'. body s x = Some s' \<Longrightarrow> \<exists>ids. tracked ids (parts_of s) \<Longrightarrow>
           \<exists>ids. tracked ids (parts_of s')"
  shows "\<exists>ids. tracked ids (parts_of st')"
  using assms(1,2)
proof (induction xs arbitrary: st)
  case Nil
  then show ?case by simp
next
  case (Cons x xs)
  from Cons.prems(1) obtain s1 where s: "body st x = Some s1" "for_each body s1 xs = Some st'"
    by (auto split: option.splits)
  from Cons.IH [OF s(2) assms(3) [OF s(1) Cons.prems(2)]] show ?case .
qed

lemma check_layer_tracked:
  assumes "check_layer env params st layer_islands = Some st'"
    and "\<exists>ids. tracked ids (parts_of st)"
  shows "\<exists>ids. tracked ids (parts_of st')"
proof -
  let ?indexed = "zip [0 ..< length (islands layer_islands)] (islands layer_islands)"
  from assms(1) obtain s1 where
    p: "for_each (place_island env (layer_z layer_islands)) st ?indexed = Some s1"
    and c: "for_each (check_island env params (layer_z layer_islands))
              (s1\<lparr>prev_island_to_object_part_mapping := next_island_to_object_part_mapping s1,
                   next_island_to_object_part_mapping := Map.empty,
                   prev_island_weakest_connection := next_island_weakest_connection s1,
                   next_island_weakest_connection := Map.empty\<rparr>) ?indexed = Some st'"
    by (auto simp add: check_layer_def Let_def split: bind_splits)
  have "\<exists>ids. tracked ids (parts_of s1)"
    by (rule for_each_tracked [OF p assms(2)]) (auto dest: place_island_tracked)
  then have swapped: "\<exists>ids. tracked ids (parts_of
              (s1\<lparr>prev_island_to_object_part_mapping := next_island_to_object_part_mapping s1,
                   next_island_to_object_part_mapping := Map.empty,
                   prev_island_weakest_connection := next_island_weakest_connection s1,
                   next_island_weakest_connection := Map.empty\<rparr>))" by simp
  show ?thesis
    by (rule for_each_tracked [OF c swapped]) (auto dest: check_island_tracked)
qed

lemma global_pass_tracked:
  assumes "for_each (check_layer env params)
             \<lparr>issues_of = \<lparr>support_points = []\<rparr>, parts_of = new_ActiveObjectParts,
              supports_presence_grid = supports_presence_grid',
              prev_island_to_object_part_mapping = Map.empty,
              next_island_to_object_part_mapping = Map.empty,
              prev_island_weakest_connection = Map.empty,
              next_island_weakest_connection = Map.empty\<rparr>
             islands_graph = Some st"
  shows "\<exists>ids. tracked ids (parts_of st)"
proof (rule for_each_tracked [OF assms])
  show "\<exists>ids. tracked ids (parts_of
          \<lparr>issues_of = \<lparr>support_points = []\<rparr>, parts_of = new_ActiveObjectParts,
           supports_presence_grid = supports_presence_grid',
           prev_island_to_object_part_mapping = Map.empty,
           next_island_to_object_part_mapping = Map.empty,
           prev_island_weakest_connection = Map.empty,
           next_island_weakest_connection = Map.empty\<rparr>)"
    using tracked.empty by auto
qed (rule check_layer_tracked)

section \<open>Properties of the driver\<close>

lemma for_each_unchanged:
  "(\<And>x. x \<in> set xs \<Longrightarrow> body s x = Some s) \<Longrightarrow> for_each body s xs = Some s"
  by (induction xs) simp_all

lemma cast_int_nonneg: "0 \<le> x \<Longrightarrow> 0 \<le> cast_int x"
  by (simp add: cast_int_def)

lemma c_div_nonneg: "0 \<le> x \<Longrightarrow> 0 \<le> c_div x 2"
  by (simp add: c_div_def sgn_if pos_imp_zdiv_nonneg_iff)

lemma new_PixelGrid_wf:
  assumes "0 < resolution" "0 < SCALING_FACTOR env"
    and "0 \<le> fst (po_size po)" "0 \<le> fst (snd (po_size po))"
  shows "\<exists>g. new_PixelGrid env po resolution = Some g \<and> wf_grid g"
proof -
  obtain sx sy sz where sz: "po_size po = (sx, sy, sz)" by (cases "po_size po") auto
  with assms have sx: "0 \<le> sx" and sy: "0 \<le> sy" by simp_all
  define hx where "hx = c_div sx 2 + 1"
  define hy where "hy = c_div sy 2 + 1"
  have hx: "0 < hx" and hy: "0 < hy" using c_div_nonneg[OF sx] c_div_nonneg[OF sy]
    by (simp_all add: hx_def hy_def)
  define S where "S = SCALING_FACTOR env"
  have qx: "0 \<le> 2 * (S * real_of_int hx) / resolution"
    using hx assms(1,2) by (simp add: S_def)
  have qy: "0 \<le> 2 * (S * real_of_int hy) / resolution"
    using hy assms(1,2) by (simp add: S_def)
  have cx: "0 \<le> cast_int (2 * (S * real_of_int hx) / resolution) + 1"
    using cast_int_nonneg[OF qx] by simp
  have cy: "0 \<le> cast_int (2 * (S * real_of_int hy) / resolution) + 1"
    using cast_int_nonneg[OF qy] by simp
  have prod: "\<not> (cast_int (2 * (S * real_of_int hy) / resolution) + 1)
                * (cast_int (2 * (S * real_of_int hx) / resolution) + 1) < 0"
    using mult_nonneg_nonneg[OF cy cx] by (simp add: not_less)
  from cx cy prod assms(1) show ?thesis
    by (simp add: new_PixelGrid_def size_half_def sz unscaled_def Let_def clear_def wf_grid_def
        hx_def[symmetric] hy_def[symmetric] S_def[symmetric])
qed

lemma wf_grid_clear: "wf_grid g \<Longrightarrow> wf_grid (clear g)"
  by (simp add: wf_grid_def clear_def)

lemma pixel_index_in_range:
  assumes "0 \<le> x" "x < cx" "0 \<le> y" "y < cy"
  shows "nat (y * cx + x) < nat (cy * cx)"
proof -
  have "(y + 1) * cx \<le> cy * cx" using assms by (intro mult_right_mono) simp_all
  then have "y * cx + x < cy * cx" using assms by (simp add: algebra_simps)
  moreover have "0 \<le> y * cx + x" using assms by simp
  ultimately show ?thesis by simp
qed

lemma get_pixel_clear:
  assumes "wf_grid g" "x < nat (fst (pixel_count g))" "y < nat (snd (pixel_count g))"
  shows "get_pixel (clear g) (int x, int y) = Some NULL_ISLAND"
proof -
  from assms have r: "0 \<le> int x" "int x < fst (pixel_count g)" "0 \<le> int y" "int y < snd (pixel_count g)"
    by simp_all
  from pixel_index_in_range[OF r] assms(1)
  have "nat (int y * fst (pixel_count g) + int x) < length (pixels g)"
    by (simp add: wf_grid_def)
  with r show ?thesis
    by (simp add: get_pixel_def to_pixel_index_def clear_def at_index_def)
qed

lemma compute_overlaps_clear:
  assumes "wf_grid g"
  shows "compute_overlaps (clear g) prev z result_islands = Some result_islands"
proof -
  have cnt: "pixel_count (clear g) = pixel_count g" by (simp add: clear_def)
  have nn: "size_t_of_int (fst (pixel_count g)) = nat (fst (pixel_count g))"
           "size_t_of_int (snd (pixel_count g)) = nat (snd (pixel_count g))"
    using assms by (simp_all add: wf_grid_def size_t_of_int_def)
  have step: "overlap_step (clear g) prev z result_islands (int x, int y) = Some result_islands"
    if "x < nat (fst (pixel_count g))" "y < nat (snd (pixel_count g))" for x y
    using get_pixel_clear[OF assms that] by (simp add: overlap_step_def)
  show ?thesis
    unfolding compute_overlaps_def cnt nn
    by (intro for_each_unchanged) (simp add: step)
qed

lemma reckon_islands_no_lines:
  assumes "wf_grid g" "regions layer \<noteq> []"
  shows "reckon_islands env layer first_layer n g [] params
         = Some (\<lparr>islands = [], layer_z = slice_z layer\<rparr>, clear g)"
  using assms compute_overlaps_clear[OF assms(1)]
  by (simp add: reckon_islands_def islands_of_lines_def extract_extrusions_def seed_islands_def
      seed_backup_def assign_extrusions_def merge_islands_def at_index_def build_islands_def
      rasterize_def interleave_nothing_ready)

lemma check_regions_no_entities:
  assumes "no_entities layer"
  shows "for_each (check_region env params z prev) st (regions layer) = Some st"
  using assms
  by (intro for_each_unchanged) (auto simp: no_entities_def list_all_iff check_region_def)

lemma base_lines_no_entities:
  assumes "no_entities layer"
  shows "for_each (base_region_lines env) layer_lines (regions layer) = Some layer_lines"
  using assms
  by (intro for_each_unchanged) (auto simp: no_entities_def list_all_iff base_region_lines_def)

lemma build_layer_no_entities:
  assumes "no_entities layer" "wf_grid g"
  shows "build_layer env params (issues, graph, prev, g) layer
         = Some (issues, graph @ [\<lparr>islands = [], layer_z = slice_z layer\<rparr>], [], clear g)"
  using assms check_regions_no_entities[OF assms(1)] reckon_islands_no_lines[OF assms(2)]
  by (simp add: build_layer_def no_entities_def)

lemma build_layers_no_entities:
  assumes "list_all no_entities ls" "wf_grid g"
  shows "\<exists>prev' g'. for_each (build_layer env params) (issues, graph, prev, g) ls
         = Some (issues, graph @ map (\<lambda>l. \<lparr>islands = [], layer_z = slice_z l\<rparr>) ls, prev', g')"
  using assms
proof (induction ls arbitrary: graph prev g)
  case Nil
  then show ?case by simp
next
  case (Cons l ls)
  then have l: "no_entities l" and ls: "list_all no_entities ls" by simp_all
  from Cons.IH[OF ls wf_grid_clear[OF Cons.prems(2)],
      of "graph @ [\<lparr>islands = [], layer_z = slice_z l\<rparr>]" "[]"]
  show ?case by (simp add: build_layer_no_entities[OF l Cons.prems(2)])
qed

lemma check_extrusions_no_entities:
  assumes ne: "layers po \<noteq> []" and all: "list_all no_entities (layers po)"
    and res: "0 < get_flow_width (hd (regions (last (layers po)))) erExternalPerimeter"
    and sc: "0 < SCALING_FACTOR env"
    and sz: "0 \<le> fst (po_size po)" "0 \<le> fst (snd (po_size po))"
  shows "check_extrusions_and_build_graph env po params
         = Some (\<lparr>support_points = []\<rparr>,
                 map (\<lambda>l. \<lparr>islands = [], layer_z = slice_z l\<rparr>) (layers po))"
proof -
  obtain l0 ls where po: "layers po = l0 # ls" using ne by (cases "layers po") auto
  have last_in: "last (layers po) \<in> set (layers po)" using ne by simp
  then have last_ne: "no_entities (last (layers po))" using all by (simp add: list_all_iff)
  have "nat (int (length (layers po)) - 1) = length (layers po) - 1" by simp
  moreover have "0 < length (layers po)" using ne by simp
  ultimately have last_idx:
    "at_index (layers po) (size_t_of_int (int (layer_count po) - 1)) = Some (last (layers po))"
    using ne by (simp add: at_index_def size_t_of_int_def layer_count_def last_conv_nth)
  have last_region: "at_index (regions (last (layers po))) 0 = Some (hd (regions (last (layers po))))"
    using last_ne by (simp add: at_index_def no_entities_def hd_conv_nth)
  from new_PixelGrid_wf[OF res sc sz] obtain g where
    g: "new_PixelGrid env po (get_flow_width (hd (regions (last (layers po)))) erExternalPerimeter) = Some g"
    and wf: "wf_grid g" by blast
  have l0: "no_entities l0" and ls: "list_all no_entities ls" using all po by simp_all
  have first: "at_index (layers po) 0 = Some l0" using po by (simp add: at_index_def)
  have reg0: "regions l0 \<noteq> []" using l0 by (simp add: no_entities_def)
  from build_layers_no_entities[OF ls wf_grid_clear[OF wf],
      of env params "\<lparr>support_points = []\<rparr>" "[\<lparr>islands = [], layer_z = slice_z l0\<rparr>]" "[]"]
  obtain prev' g' where
    rest: "for_each (build_layer env params)
             (\<lparr>support_points = []\<rparr>, [\<lparr>islands = [], layer_z = slice_z l0\<rparr>], [], clear g) ls
           = Some (\<lparr>support_points = []\<rparr>,
                   [\<lparr>islands = [], layer_z = slice_z l0\<rparr>]
                   @ map (\<lambda>l. \<lparr>islands = [], layer_z = slice_z l\<rparr>) ls, prev', g')"
    by blast
  have dr: "drop (Suc 0) (layers po) = ls" using po by simp
  have mp: "map (\<lambda>l. \<lparr>islands = [], layer_z = slice_z l\<rparr>) (layers po)
            = \<lparr>islands = [], layer_z = slice_z l0\<rparr> # map (\<lambda>l. \<lparr>islands = [], layer_z = slice_z l\<rparr>) ls"
    using po by simp
  show ?thesis
    unfolding check_extrusions_and_build_graph_def mp
    by (simp add: last_idx last_region g first base_lines_no_entities[OF l0]
        reckon_islands_no_lines[OF wf reg0] dr rest)
qed

lemma check_layer_no_islands:
  "islands layer_islands = [] \<Longrightarrow>
   issues_of st = issues \<Longrightarrow>
   \<exists>st'. check_layer env params st layer_islands = Some st' \<and> issues_of st' = issues"
  by (simp add: check_layer_def)

lemma check_layers_no_islands:
  "list_all (\<lambda>li. islands li = []) graph \<Longrightarrow> issues_of st = issues \<Longrightarrow>
   \<exists>st'. for_each (check_layer env params) st graph = Some st' \<and> issues_of st' = issues"
proof (induction graph arbitrary: st)
  case Nil
  then show ?case by simp
next
  case (Cons li graph)
  from Cons.prems have a: "islands li = []" and b: "list_all (\<lambda>li. islands li = []) graph" by simp_all
  from check_layer_no_islands[OF a Cons.prems(2)] obtain s1 where
    s1: "check_layer env params st li = Some s1" "issues_of s1 = issues" by blast
  from Cons.IH[OF b s1(2)] s1(1) show ?case by simp
qed

lemma check_global_stability_no_islands:
  assumes "list_all (\<lambda>li. islands li = []) graph"
  shows "check_global_stability env grid graph params = Some \<lparr>support_points = []\<rparr>"
proof -
  let ?st = "\<lparr>issues_of = \<lparr>support_points = []\<rparr>, parts_of = new_ActiveObjectParts,
              supports_presence_grid = grid,
              prev_island_to_object_part_mapping = Map.empty,
              next_island_to_object_part_mapping = Map.empty,
              prev_island_weakest_connection = Map.empty,
              next_island_weakest_connection = Map.empty\<rparr>"
  from check_layers_no_islands[OF assms, of ?st "\<lparr>support_points = []\<rparr>" env params]
  show ?thesis by (auto simp: check_global_stability_def)
qed

lemma full_search_no_entities:
  assumes ne: "layers po \<noteq> []" and all: "list_all no_entities (layers po)"
    and res: "0 < get_flow_width (hd (regions (last (layers po)))) erExternalPerimeter"
    and sc: "0 < SCALING_FACTOR env"
    and sz: "0 \<le> fst (po_size po)" "0 \<le> fst (snd (po_size po))"
    and vx: "min_distance_between_support_points params \<noteq> 0"
  shows "full_search env po params = Some \<lparr>support_points = []\<rparr>"
proof -
  have g: "list_all (\<lambda>li. islands li = []) (map (\<lambda>l. \<lparr>islands = [], layer_z = slice_z l\<rparr>) (layers po))"
    by (simp add: list_all_iff)
  obtain grid where grid: "new_SupportGridFilter env po (min_distance_between_support_points params) = Some grid"
    using vx by (simp add: new_SupportGridFilter_def Let_def)
  show ?thesis
    by (simp add: full_search_def check_extrusions_no_entities[OF ne all res sc sz] grid
        check_global_stability_no_islands[OF g])
qed

text \<open>
  Claim C4, as stated, fails: without a layer \<^verbatim>\<open>po->layers()[po->layer_count() - 1]\<close> is read
  out of range, and without a region \<^verbatim>\<open>regions()[0]\<close> is.
\<close>

theorem full_search_fails_without_layers_or_regions:
  "full_search reference_environment empty_layers_object test_params = None \<and>
   full_search reference_environment empty_regions_object test_params = None"
  by (simp add: full_search_def check_extrusions_and_build_graph_def empty_layers_object_def
      empty_regions_object_def layer_count_def at_index_def size_t_of_int_def)

text \<open>
  Claim C4, amended. For a print object with at least one layer, at least one region in every
  layer and no entity in any region, \<^verbatim>\<open>full_search\<close> returns an empty list of support
  points, provided the grids can be built: the size of the object is not negative, the
  scaling factor and the flow width of the first region of the last layer are positive, and
  \<^verbatim>\<open>min_distance_between_support_points\<close> is not zero.
\<close>

theorem full_search_without_entities:
  assumes "layers po \<noteq> []"
    and "\<forall>layer \<in> set (layers po). regions layer \<noteq> []
           \<and> (\<forall>r \<in> set (regions layer). perimeters r = [] \<and> fills r = [])"
    and "0 < get_flow_width (hd (regions (last (layers po)))) erExternalPerimeter"
    and "0 < SCALING_FACTOR env"
    and "0 \<le> fst (po_size po)" and "0 \<le> fst (snd (po_size po))"
    and "min_distance_between_support_points params \<noteq> 0"
  shows "full_search env po params = Some \<lparr>support_points = []\<rparr>"
proof -
  from assms(2) have "list_all no_entities (layers po)"
    by (simp add: list_all_iff no_entities_def)
  from full_search_no_entities[OF assms(1) this assms(3-7)] show ?thesis .
qed

theorem full_search_without_entities_witness:
  "layers empty_entities_object \<noteq> [] \<and>
   list_all (\<lambda>layer. regions layer \<noteq> []
               \<and> list_all (\<lambda>r. perimeters r = [] \<and> fills r = []) (regions layer))
     (layers empty_entities_object) \<and>
   full_search reference_environment empty_entities_object test_params = Some \<lparr>support_points = []\<rparr>"
proof -
  have a: "layers empty_entities_object \<noteq> []" by (simp add: empty_entities_object_def)
  have b: "\<forall>layer \<in> set (layers empty_entities_object). regions layer \<noteq> []
           \<and> (\<forall>r \<in> set (regions layer). perimeters r = [] \<and> fills r = [])"
    by (simp add: empty_entities_object_def test_region_def)
  have c: "0 < get_flow_width (hd (regions (last (layers empty_entities_object)))) erExternalPerimeter"
    by (simp add: empty_entities_object_def test_region_def get_flow_width_def)
  have d: "0 < SCALING_FACTOR reference_environment" by (simp add: reference_environment_def)
  have e: "0 \<le> fst (po_size empty_entities_object)" "0 \<le> fst (snd (po_size empty_entities_object))"
    by (simp_all add: empty_entities_object_def)
  have f: "min_distance_between_support_points test_params \<noteq> 0" by (simp add: test_params_def)
  from full_search_without_entities[OF a b c d e f] a b show ?thesis
    by (simp add: list_all_iff)
qed

subsection \<open>The passes on an object with one hanging perimeter\<close>

lemma bridge_new_grid:
  "new_PixelGrid reference_environment bridge_object (4 / 10) = Some bridge_grid"
  by (simp add: new_PixelGrid_def bridge_object_def size_half_def c_div_def unscaled_def
      reference_environment_def Let_def cast_int_def clear_def bridge_grid_def)

lemma ceiling_half: "\<lceil>1 / 2 :: real\<rceil> = 1"
  by (rule ceiling_unique) simp_all

lemma bridge_resample:
  "resample reference_environment test_params bridge_path
   = Some [new_ExtrusionLine (0, 0) (0, 0) bridge_path, new_ExtrusionLine (0, 0) (1, 0) bridge_path]"
  by (simp add: resample_def bridge_path_def unscaled_def reference_environment_def Let_def
      lines_between_def lines_count_between_def norm2_def normalized2_def test_params_def
      ceiling_half)

lemma no_lines_distance:
  "signed_distance_from_lines reference_environment [] p = Some (10 ^ 38, 0, (0, 0))"
  by (simp add: signed_distance_from_lines_def reference_environment_def)

lemma bridge_path_lines:
  "check_path reference_environment test_params (4 / 10) bridge_region [] bridge_path
     ([], \<lparr>support_points = []\<rparr>)
   = Some ([bridge_start, bridge_line], \<lparr>support_points = [local_point]\<rparr>)"
  unfolding check_path_def bridge_resample
  by (simp add: reference_defs new_ExtrusionLine_def norm2_def get_flow_width_def
      bridge_region_def test_params_def bridge_start_def bridge_line_def
      local_point_def bridge_path_def)


lemma bridge_region_lines:
  "for_each (check_region reference_environment test_params (slice_z bridge_layer) [])
     ([], \<lparr>support_points = []\<rparr>) (regions bridge_layer)
   = Some ([bridge_start, bridge_line], \<lparr>support_points = [local_point]\<rparr>)"
proof -
  have path: "check_extrusion_entity_stability reference_environment test_params (2 / 5)
                bridge_region [] bridge_path ([], \<lparr>support_points = []\<rparr>)
              = Some ([bridge_start, bridge_line], \<lparr>support_points = [local_point]\<rparr>)"
    using bridge_path_lines by (simp add: bridge_path_def)
  have layer: "regions bridge_layer = [bridge_region]" "slice_z bridge_layer = 2 / 5"
    by (simp_all add: bridge_layer_def)
  have region: "perimeters bridge_region = [bridge_perimeters]" "fills bridge_region = []"
    by (simp_all add: bridge_region_def)
  have entities: "collection_entities bridge_perimeters = Some [bridge_path]"
    by (simp add: collection_entities_def bridge_perimeters_def)
  show ?thesis
    unfolding layer by (simp add: check_region_def region entities path)
qed

lemma bridge_extrusions: "extract_extrusions [bridge_start, bridge_line] = [(0, 2)]"
  by (simp add: extract_extrusions_def extrusions_step_def bridge_start_def bridge_line_def
      upt_conv_Cons numeral_2_eq_2)

lemma bridge_seeds:
  "seed_backup [bridge_start, bridge_line] [(0, 2)] (seed_islands [bridge_start, bridge_line] [(0, 2)])
   = ([[bridge_start, bridge_line]], [[0]])"
  by (simp add: seed_islands_def seed_backup_def is_external_perimeter_def bridge_start_def
      bridge_line_def bridge_path_def extrusion_lines_def upt_conv_Cons numeral_2_eq_2)

lemma bridge_assign:
  "assign_extrusions env [bridge_start, bridge_line] [(0, 2)] [[bridge_start, bridge_line]] [[0]]
   = Some [[0]]"
  by (simp add: assign_extrusions_def assign_extrusion_def is_external_perimeter_def
      bridge_start_def bridge_path_def)

lemma bridge_merge: "merge_islands env [[bridge_start, bridge_line]] [[0]] = Some [[0]]"
  by (simp add: merge_islands_def merge_step_def)

lemma bridge_build:
  "build_islands False (2 / 5) (2 / 5) [bridge_start, bridge_line] [(0, 2)] [[0]]
   = ([bridge_island], [0, 0])"
  by (simp add: build_islands_def build_island_def add_line_to_island_def extrusion_lines_def
      new_Island_def bridge_start_def bridge_line_def bridge_path_def Let_def bridge_island_def
      upt_conv_Cons numeral_2_eq_2)

lemma bridge_islands:
  "islands_of_lines env bridge_layer False [bridge_start, bridge_line]
   = Some ([bridge_island], [0, 0])"
  by (simp add: islands_of_lines_def bridge_extrusions bridge_seeds bridge_assign bridge_merge
      bridge_build bridge_layer_def at_index_def bridge_region_def get_flow_width_def)


lemma bridge_grid_wf: "wf_grid bridge_grid"
  by (simp add: wf_grid_def bridge_grid_def)

lemma bridge_grid_clear: "clear bridge_grid = bridge_grid"
  by (simp add: clear_def bridge_grid_def)

lemma bridge_steps:
  "distribute_steps (0, 0) (1, 0) 1 (1 / 5) 0
   = [(1 / 5, 0), (2 / 5, 0), (3 / 5, 0), (4 / 5, 0), (1, 0)]"
  by (simp add: distribute_steps.simps)

lemma bridge_rasterize:
  "rasterize reference_environment bridge_grid [bridge_start, bridge_line] [0, 0]
   = Some bridge_raster"
proof -
  have s: "thread_schedule reference_environment = (\<lambda>k. 0)"
    by (simp add: reference_environment_def)
  have w0: "line_writes bridge_grid [bridge_start, bridge_line] [0, 0] 0 = Some []"
    by (simp add: line_writes_def distribute_edge_locations_def bridge_start_def norm2_def)
  have w1: "line_writes bridge_grid [bridge_start, bridge_line] [0, 0] 1
            = Some [((1 / 5, 0), 0), ((2 / 5, 0), 0), ((3 / 5, 0), 0), ((4 / 5, 0), 0), ((1, 0), 0)]"
    by (simp add: line_writes_def distribute_edge_locations_def bridge_line_def norm2_def
        bridge_grid_def bridge_steps)
  have w: "those (map (line_writes bridge_grid [bridge_start, bridge_line] [0, 0])
                     [0 ..< length [bridge_start, bridge_line]])
           = Some [[], [((1 / 5, 0), 0), ((2 / 5, 0), 0), ((3 / 5, 0), 0), ((4 / 5, 0), 0),
                        ((1, 0), 0)]]"
    using w0 w1 by (simp add: upt_conv_Cons numeral_2_eq_2)
  show ?thesis
    unfolding rasterize_def s interleave_in_order w
    by (simp add: set_pixel_def to_pixel_coords_def to_pixel_index_def cast_int_def
        bridge_grid_def bridge_raster_def) (simp add: eval_nat_numeral)
qed


lemma bridge_overlaps:
  "compute_overlaps bridge_raster bridge_grid z result_islands = Some result_islands"
proof -
  have cnt: "size_t_of_int (fst (pixel_count bridge_raster)) = 6"
    "size_t_of_int (snd (pixel_count bridge_raster)) = 1"
    by (simp_all add: bridge_raster_def bridge_grid_def size_t_of_int_def)
  have step: "overlap_step bridge_raster bridge_grid z result_islands (int x, int y)
              = Some result_islands" if "x < 6" "y < 1" for x y
  proof -
    have "x < nat (fst (pixel_count bridge_grid))" "y < nat (snd (pixel_count bridge_grid))"
      using that by (simp_all add: bridge_grid_def)
    from get_pixel_clear [OF bridge_grid_wf this]
    have prev: "get_pixel bridge_grid (int x, int y) = Some NULL_ISLAND"
      unfolding bridge_grid_clear .
    from that have "\<exists>cur. get_pixel bridge_raster (int x, int y) = Some cur"
      by (simp add: get_pixel_def to_pixel_index_def bridge_raster_def bridge_grid_def
          at_index_def)
    with prev show ?thesis by (auto simp add: overlap_step_def)
  qed
  show ?thesis
    unfolding compute_overlaps_def cnt
    using step [where y = 0] by (intro for_each_unchanged) simp
qed

lemma bridge_reckon:
  "reckon_islands reference_environment bridge_layer False 0 bridge_grid
     [bridge_start, bridge_line] params
   = Some (\<lparr>islands = [bridge_island], layer_z = 2 / 5\<rparr>, bridge_raster)"
proof -
  have z: "slice_z bridge_layer = 2 / 5" by (simp add: bridge_layer_def)
  show ?thesis
    by (simp add: reckon_islands_def bridge_islands bridge_grid_clear bridge_rasterize
        bridge_overlaps z)
qed

lemma bridge_build_layer:
  "build_layer reference_environment test_params
     (\<lparr>support_points = []\<rparr>, graph, [], bridge_grid) bridge_layer
   = Some (\<lparr>support_points = [local_point]\<rparr>,
           graph @ [\<lparr>islands = [bridge_island], layer_z = 2 / 5\<rparr>],
           [bridge_start, bridge_line], bridge_raster)"
  by (simp add: build_layer_def bridge_region_lines bridge_reckon)

lemma bridge_graph:
  "check_extrusions_and_build_graph reference_environment bridge_object test_params
   = Some (\<lparr>support_points = [local_point]\<rparr>,
           [\<lparr>islands = [], layer_z = 1 / 5\<rparr>,
            \<lparr>islands = [bridge_island], layer_z = 2 / 5\<rparr>])"
proof -
  have layers: "layers bridge_object = [base_layer, bridge_layer]"
    by (simp add: bridge_object_def)
  have last_layer: "at_index (layers bridge_object)
                      (size_t_of_int (int (layer_count bridge_object) - 1)) = Some bridge_layer"
    by (simp add: layers layer_count_def size_t_of_int_def at_index_def)
  have last_region: "at_index (regions bridge_layer) 0 = Some bridge_region"
    by (simp add: bridge_layer_def at_index_def)
  have width: "get_flow_width bridge_region erExternalPerimeter = 4 / 10"
    by (simp add: get_flow_width_def bridge_region_def)
  have first_layer: "at_index (layers bridge_object) 0 = Some base_layer"
    by (simp add: layers at_index_def)
  have base: "no_entities base_layer"
    by (simp add: no_entities_def base_layer_def test_region_def)
  then have regions: "regions base_layer \<noteq> []" by (simp add: no_entities_def)
  have reckon: "reckon_islands reference_environment base_layer True 0 bridge_grid [] test_params
                = Some (\<lparr>islands = [], layer_z = 1 / 5\<rparr>, bridge_grid)"
    using reckon_islands_no_lines [OF bridge_grid_wf regions]
    by (simp add: bridge_grid_clear base_layer_def)
  show ?thesis
    unfolding check_extrusions_and_build_graph_def last_layer first_layer
    by (simp add: last_region width bridge_new_grid [simplified]
        base_lines_no_entities [OF base] reckon layers bridge_build_layer)
qed


lemma bridge_new_filter:
  "new_SupportGridFilter reference_environment bridge_object
     (min_distance_between_support_points test_params) = Some bridge_filter"
  by (simp add: new_SupportGridFilter_def bridge_object_def size_half_def c_div_def
      reference_environment_def test_params_def Let_def cast_int_def bridge_filter_def)

lemma access_root:
  assumes "active_object_parts_id_mapping this i = Some i"
    and "active_object_parts this i = Some part"
  shows "access this i = Some (i, part, this)"
proof -
  have "find_root (active_object_parts_id_mapping this) i = Some i"
    using assms(1) by (subst find_root.simps) simp
  moreover have "compress_path i (active_object_parts_id_mapping this) i
                 = Some (active_object_parts_id_mapping this)"
    using assms(1) by (subst compress_path.simps) simp
  ultimately show ?thesis using assms by (simp add: access_def get_flat_id_def)
qed

lemma bridge_landing:
  "signed_distance_from_lines reference_environment [bridge_start, bridge_line] (301, 0)
   = Some (300, 1, (1, 0))"
  by (simp add: signed_distance_from_lines_def reference_environment_def at_index_def
      nearest_point_on_line_def Let_def bridge_start_def bridge_line_def)


lemma bridge_part_unstable:
  "is_stable_while_extruding reference_environment (ObjectPart_of_Island bridge_island) connection
     l z params = 1"
  by (simp add: is_stable_while_extruding_def ObjectPart_of_Island_def ObjectPart.truncate_def
      bridge_island_def reference_environment_def)

lemma bridge_plant:
  "map_option loop_issues
     (plant_support reference_environment test_params (2 / 5) bridge_island 1
        (bridge_loop\<lparr>unchecked_dist := 1, stability_calls := [bridge_line]\<rparr>) bridge_line)
   = Some \<lparr>support_points = [global_point]\<rparr>"
proof -
  have lines: "external_lines bridge_island = [bridge_start, bridge_line]"
    by (simp add: bridge_island_def)
  have line: "line_a bridge_line = (0, 0)" "line_b bridge_line = (1, 0)"
    by (simp_all add: bridge_line_def)
  show ?thesis
    by (simp add: plant_support_def bridge_loop_def lines line Let_def normalized2_def
        bridge_landing position_taken_def take_position_def to_cell_index_def
        to_cell_coords_def cast_int_def emplace_back_support_point_def new_SupportPoint_def
        bridge_filter_def global_point_def)
qed

lemma bridge_lines_checked:
  "map_option loop_issues
     (for_each (check_external_line reference_environment test_params (2 / 5) bridge_island)
        bridge_loop [bridge_start, bridge_line])
   = Some \<lparr>support_points = [global_point]\<rparr>"
proof -
  have md: "min_distance_between_support_points test_params = 1" by (simp add: test_params_def)
  have start: "check_external_line reference_environment test_params (2 / 5) bridge_island
                 bridge_loop bridge_start = Some bridge_loop"
    by (simp add: check_external_line_def bridge_start_def bridge_loop_def)
  have line: "check_external_line reference_environment test_params (2 / 5) bridge_island
                bridge_loop bridge_line
              = plant_support reference_environment test_params (2 / 5) bridge_island 1
                  (bridge_loop\<lparr>unchecked_dist := 1, stability_calls := [bridge_line]\<rparr>)
                  bridge_line"
  proof -
    have f: "len bridge_line = 1" "malformation bridge_line = 3 / 25"
      by (simp_all add: bridge_line_def)
    have p: "part_ref bridge_loop = ObjectPart_of_Island bridge_island"
      "unchecked_dist bridge_loop = 2" "stability_calls bridge_loop = []"
      by (simp_all add: bridge_loop_def)
    show ?thesis
      by (simp add: check_external_line_def f p md Let_def bridge_part_unstable)
  qed
  show ?thesis
    using bridge_plant by (auto simp add: start line)
qed


lemma bridge_layer_checked:
  "map_option issues_of
     (check_layer reference_environment test_params
        \<lparr>issues_of = \<lparr>support_points = []\<rparr>, parts_of = new_ActiveObjectParts,
         supports_presence_grid = bridge_filter,
         prev_island_to_object_part_mapping = Map.empty,
         next_island_to_object_part_mapping = Map.empty,
         prev_island_weakest_connection = Map.empty,
         next_island_weakest_connection = Map.empty\<rparr>
        \<lparr>islands = [bridge_island], layer_z = 2 / 5\<rparr>)
   = Some \<lparr>support_points = [global_point]\<rparr>"
proof -
  have c: "connected_islands bridge_island = []" "external_lines bridge_island = [bridge_start, bridge_line]"
    by (simp_all add: bridge_island_def)
  have md: "min_distance_between_support_points test_params + 1 = 2" by (simp add: test_params_def)
  have i: "INFINITY reference_environment = 10 ^ 38" by (simp add: reference_environment_def)
  from bridge_lines_checked obtain loop where
    loop: "for_each (check_external_line reference_environment test_params (2 / 5) bridge_island)
             bridge_loop [bridge_start, bridge_line] = Some loop"
    and issues: "loop_issues loop = \<lparr>support_points = [global_point]\<rparr>"
    by auto
  note loop' = loop [unfolded bridge_loop_def, simplified]
  show ?thesis
    by (simp add: check_layer_def place_island_def c insert_island_def new_ActiveObjectParts_def
        emplace_def check_island_def access_root md i loop' issues)
qed


lemma bridge_global:
  "check_global_stability reference_environment bridge_filter
     [\<lparr>islands = [], layer_z = 1 / 5\<rparr>, \<lparr>islands = [bridge_island], layer_z = 2 / 5\<rparr>]
     test_params
   = Some \<lparr>support_points = [global_point]\<rparr>"
proof -
  let ?start = "\<lparr>issues_of = \<lparr>support_points = []\<rparr>, parts_of = new_ActiveObjectParts,
         supports_presence_grid = bridge_filter,
         prev_island_to_object_part_mapping = Map.empty,
         next_island_to_object_part_mapping = Map.empty,
         prev_island_weakest_connection = Map.empty,
         next_island_weakest_connection = Map.empty\<rparr>"
  have base: "check_layer reference_environment test_params ?start
                \<lparr>islands = [], layer_z = 1 / 5\<rparr> = Some ?start"
    by (simp add: check_layer_def)
  from bridge_layer_checked obtain st where
    "check_layer reference_environment test_params ?start
       \<lparr>islands = [bridge_island], layer_z = 2 / 5\<rparr> = Some st"
    and "issues_of st = \<lparr>support_points = [global_point]\<rparr>"
    by auto
  with base show ?thesis by (simp add: check_global_stability_def)
qed

text \<open>
  Claim C7. \<^verbatim>\<open>full_search\<close> returns issues exactly when the local pass, the construction of
  the presence grid and the global pass return, and the support points returned are those
  of the global pass followed by those of the local pass.
\<close>

theorem full_search_concatenates:
  "full_search env po params = Some issues \<longleftrightarrow>
   (\<exists>local_issues graph grid global_issues.
      check_extrusions_and_build_graph env po params = Some (local_issues, graph) \<and>
      new_SupportGridFilter env po (min_distance_between_support_points params) = Some grid \<and>
      check_global_stability env grid graph params = Some global_issues \<and>
      issues = \<lparr>support_points = support_points global_issues @ support_points local_issues\<rparr>)"
  by (auto simp: full_search_def split: bind_splits)

theorem full_search_concatenates_witness:
  "check_extrusions_and_build_graph reference_environment bridge_object test_params
     = Some (\<lparr>support_points = [local_point]\<rparr>,
             [\<lparr>islands = [], layer_z = 1 / 5\<rparr>,
              \<lparr>islands = [bridge_island], layer_z = 2 / 5\<rparr>]) \<and>
   new_SupportGridFilter reference_environment bridge_object
     (min_distance_between_support_points test_params) = Some bridge_filter \<and>
   check_global_stability reference_environment bridge_filter
     [\<lparr>islands = [], layer_z = 1 / 5\<rparr>, \<lparr>islands = [bridge_island], layer_z = 2 / 5\<rparr>]
     test_params = Some \<lparr>support_points = [global_point]\<rparr> \<and>
   full_search reference_environment bridge_object test_params
     = Some \<lparr>support_points = [global_point, local_point]\<rparr> \<and>
   global_point = \<lparr>position = (1, 0, 4 / 10), force = 1, direction = (1, 0, 0)\<rparr> \<and>
   local_point = \<lparr>position = (0, 0, 4 / 10), force = 0, direction = (0, 0, - 1)\<rparr>"
proof -
  have "\<exists>local_issues graph grid global_issues.
          check_extrusions_and_build_graph reference_environment bridge_object test_params
            = Some (local_issues, graph) \<and>
          new_SupportGridFilter reference_environment bridge_object
            (min_distance_between_support_points test_params) = Some grid \<and>
          check_global_stability reference_environment grid graph test_params
            = Some global_issues \<and>
          \<lparr>support_points = [global_point, local_point]\<rparr>
            = \<lparr>support_points = support_points global_issues @ support_points local_issues\<rparr>"
    using bridge_graph bridge_new_filter bridge_global by simp
  then have "full_search reference_environment bridge_object test_params
             = Some \<lparr>support_points = [global_point, local_point]\<rparr>"
    by (rule iffD2 [OF full_search_concatenates])
  with bridge_graph bridge_new_filter bridge_global show ?thesis
    by (simp add: global_point_def local_point_def)
qed

section \<open>Properties of the island reckoner\<close>

lemma map_of_update_connection:
  "map_of (update_connection al key f) k =
     (if k = key then Some (f (case map_of al key of None \<Rightarrow> new_IslandConnection | Some c \<Rightarrow> c))
      else map_of al k)"
  by (induction al key f rule: update_connection.induct) auto

lemma connection_area_update:
  "connection_area (update_connection al p (add_pixel cg z coords)) prev =
     connection_area al prev + (if prev = p then pixel_area cg else 0)"
  by (simp add: connection_area_def map_of_update_connection add_pixel_def Let_def
      new_IslandConnection_def split: option.splits)

lemma overlap_step_length:
  "overlap_step cg pg z isls coords = Some isls' \<Longrightarrow> length isls' = length isls"
  by (auto simp: overlap_step_def at_index_def split: bind_splits if_splits)

lemma overlap_step_area:
  assumes "overlap_step cg pg z isls coords = Some isls'"
    and "cur < length isls" "cur \<noteq> NULL_ISLAND" "prev \<noteq> NULL_ISLAND"
  shows "connection_area (connected_islands (isls' ! cur)) prev =
           connection_area (connected_islands (isls ! cur)) prev
           + (if get_pixel cg coords = Some cur \<and> get_pixel pg coords = Some prev
              then pixel_area cg else 0)"
proof -
  from assms(1) obtain c where c: "get_pixel cg coords = Some c"
    by (auto simp: overlap_step_def split: bind_splits)
  show ?thesis
  proof (cases "c = NULL_ISLAND")
    case True
    with assms c show ?thesis by (simp add: overlap_step_def)
  next
    case cn: False
    with assms(1) c obtain p where p: "get_pixel pg coords = Some p"
      by (auto simp: overlap_step_def split: bind_splits)
    show ?thesis
    proof (cases "p = NULL_ISLAND")
      case True
      with assms c p cn show ?thesis by (simp add: overlap_step_def)
    next
      case pn: False
      with assms(1) c p cn have cl: "c < length isls"
        and isls': "isls' = isls[c := (isls ! c)\<lparr>connected_islands :=
                     update_connection (connected_islands (isls ! c)) p (add_pixel cg z coords)\<rparr>]"
        by (auto simp: overlap_step_def at_index_def split: if_splits)
      show ?thesis
      proof (cases "cur = c")
        case True
        with cl isls' c p show ?thesis by (simp add: connection_area_update)
      next
        case False
        with isls' c p show ?thesis by simp
      qed
    qed
  qed
qed

lemma overlap_steps_area:
  assumes "for_each (overlap_step cg pg z) isls cells = Some isls'"
  shows "length isls' = length isls \<and>
         (cur < length isls \<longrightarrow> cur \<noteq> NULL_ISLAND \<longrightarrow> prev \<noteq> NULL_ISLAND \<longrightarrow>
          connection_area (connected_islands (isls' ! cur)) prev =
            connection_area (connected_islands (isls ! cur)) prev
            + pixel_area cg
              * real (length (filter (\<lambda>coords. get_pixel cg coords = Some cur
                                              \<and> get_pixel pg coords = Some prev) cells)))"
  using assms
proof (induction cells arbitrary: isls)
  case Nil
  then show ?case by simp
next
  case (Cons c cells)
  from Cons.prems obtain isls1 where
    step: "overlap_step cg pg z isls c = Some isls1"
    and rest: "for_each (overlap_step cg pg z) isls1 cells = Some isls'"
    by (auto split: option.splits)
  note l1 = overlap_step_length[OF step]
  from Cons.IH[OF rest] l1 overlap_step_area[OF step, of cur prev]
  show ?case by (auto simp: algebra_simps)
qed

lemma for_each_append:
  "for_each f s (xs @ ys) = (case for_each f s xs of None \<Rightarrow> None | Some s' \<Rightarrow> for_each f s' ys)"
  by (induction xs arbitrary: s) (auto split: option.splits)

lemma for_each_map: "for_each f s (map g ys) = for_each (\<lambda>s y. f s (g y)) s ys"
  by (induction ys arbitrary: s) (auto split: option.splits)

lemma for_each_nested:
  "for_each (\<lambda>s x. for_each (\<lambda>s y. f s (g x y)) s ys) s xs
   = for_each f s (concat (map (\<lambda>x. map (g x) ys) xs))"
  by (induction xs arbitrary: s) (auto simp: for_each_append for_each_map split: option.splits)

lemma compute_overlaps_cells:
  "compute_overlaps cg pg z isls = for_each (overlap_step cg pg z) isls (all_cells cg)"
  unfolding compute_overlaps_def all_cells_def
  by (rule for_each_nested[where g = "\<lambda>x y. (int x, int y)"])

lemma all_cells_product:
  "all_cells grid =
     map (\<lambda>(x, y). (int x, int y))
       (List.product [0 ..< size_t_of_int (fst (pixel_count grid))]
                     [0 ..< size_t_of_int (snd (pixel_count grid))])"
  by (simp add: all_cells_def product_concat_map map_concat comp_def)

lemma distinct_all_cells: "distinct (all_cells grid)"
  unfolding all_cells_product
  by (auto simp: distinct_map distinct_product inj_on_def)

lemma get_pixel_in_all_cells:
  assumes "get_pixel grid coords = Some v"
  shows "coords \<in> set (all_cells grid)"
proof -
  obtain x y where xy: "coords = (x, y)" by (cases coords) auto
  from assms xy have r: "0 \<le> x" "x < fst (pixel_count grid)" "0 \<le> y" "y < snd (pixel_count grid)"
    by (auto simp: get_pixel_def to_pixel_index_def split: bind_splits if_splits)
  then have "(nat x, nat y) \<in> set (List.product [0 ..< size_t_of_int (fst (pixel_count grid))]
                     [0 ..< size_t_of_int (snd (pixel_count grid))])"
    by (simp add: size_t_of_int_def)
  then have "(\<lambda>(x, y). (int x, int y)) (nat x, nat y) \<in> set (all_cells grid)"
    unfolding all_cells_product set_map by (rule imageI)
  then show ?thesis using r xy by simp
qed

lemma overlap_count_card:
  "length (filter (\<lambda>coords. get_pixel cg coords = Some cur \<and> get_pixel pg coords = Some prev)
             (all_cells cg))
   = card {coords. get_pixel cg coords = Some cur \<and> get_pixel pg coords = Some prev}"
proof -
  have "{coords. get_pixel cg coords = Some cur \<and> get_pixel pg coords = Some prev}
        = {coords \<in> set (all_cells cg). get_pixel cg coords = Some cur \<and> get_pixel pg coords = Some prev}"
    using get_pixel_in_all_cells by blast
  then show ?thesis
    using distinct_all_cells[of cg] by (simp add: distinct_length_filter Int_def conj_commute)
qed

lemma add_line_to_island_connections:
  "connected_islands (fst (add_line_to_island fl fw z ls idx st lidx)) = connected_islands (fst st)"
  by (cases st) (simp add: add_line_to_island_def Let_def)

lemma add_lines_to_island_connections:
  "connected_islands (fst (foldl (add_line_to_island fl fw z ls idx) st lidxs))
   = connected_islands (fst st)"
  by (induction lidxs arbitrary: st) (simp_all add: add_line_to_island_connections)

lemma build_island_connections:
  assumes "\<forall>island \<in> set (fst st). connected_islands island = []"
  shows "\<forall>island \<in> set (fst (build_island fl fw z ls exs st island_ex)). connected_islands island = []"
proof -
  obtain result_islands m where st: "st = (result_islands, m)" by (cases st) auto
  show ?thesis
  proof (cases "island_ex = []")
    case True
    with assms st show ?thesis by (simp add: build_island_def)
  next
    case False
    let ?start = "(new_Island\<lparr>external_lines := extrusion_lines ls (exs ! (island_ex ! 0))\<rparr>, m)"
    let ?r = "foldl (add_line_to_island fl fw z ls (length result_islands)) ?start
                (concat (map (\<lambda>extrusion_idx. [fst (exs ! extrusion_idx) ..< snd (exs ! extrusion_idx)])
                           island_ex))"
    have "connected_islands (fst ?r) = []"
      by (simp add: add_lines_to_island_connections new_Island_def)
    moreover have "fst (build_island fl fw z ls exs st island_ex) = result_islands @ [fst ?r]"
      using False st by (simp add: build_island_def Let_def split: prod.splits)
    ultimately show ?thesis using assms st by auto
  qed
qed

lemma build_islands_fold_connections:
  "\<forall>island \<in> set (fst st). connected_islands island = [] \<Longrightarrow>
   \<forall>island \<in> set (fst (foldl (build_island fl fw z ls exs) st island_extrusions)).
     connected_islands island = []"
proof (induction island_extrusions arbitrary: st)
  case Nil
  then show ?case by simp
next
  case (Cons island_ex island_extrusions)
  from build_island_connections[OF Cons.prems]
  have "\<forall>island \<in> set (fst (build_island fl fw z ls exs st island_ex)). connected_islands island = []" .
  from Cons.IH[OF this] show ?case by simp
qed

lemma build_islands_connections:
  "\<forall>island \<in> set (fst (build_islands fl fw z ls exs island_extrusions)). connected_islands island = []"
  unfolding build_islands_def by (rule build_islands_fold_connections) simp

subsection \<open>The reckoner on a layer of one line\<close>

lemma upper_line_eq:
  "upper_line = \<lparr>line_a = (1 / 2, 1 / 2), line_b = (3 / 2, 1 / 2), len = 1,
      origin_entity = test_entity, support_point_generated = False, malformation = 0\<rparr>"
  by (simp add: upper_line_def new_ExtrusionLine_def norm2_def)

lemma upper_extrusions: "extract_extrusions [upper_line] = [(0, Suc 0)]"
  by (simp add: extract_extrusions_def extrusions_step_def)

lemma upper_seeds: "seed_backup [upper_line] [(0, Suc 0)] (seed_islands [upper_line] [(0, Suc 0)]) = ([[upper_line]], [[0]])"
  by (simp add: seed_islands_def seed_backup_def is_external_perimeter_def upper_line_eq
      test_entity_def extrusion_lines_def)

lemma upper_assign: "assign_extrusions env [upper_line] [(0, Suc 0)] [[upper_line]] [[0]] = Some [[0]]"
  by (simp add: assign_extrusions_def assign_extrusion_def is_external_perimeter_def upper_line_eq
      test_entity_def)

lemma upper_merge: "merge_islands env [[upper_line]] [[0]] = Some [[0]]"
  by (simp add: merge_islands_def merge_step_def)

lemma upper_build: "build_islands False (2 / 5) (2 / 5) [upper_line] [(0, Suc 0)] [[0]] = ([upper_island], [0])"
  by (simp add: build_islands_def build_island_def add_line_to_island_def extrusion_lines_def
      new_Island_def upper_line_eq test_entity_def Let_def upper_island_def)

lemma upper_raster: "rasterize env (clear lower_grid) [upper_line] [0] = Some upper_grid"
  by (simp add: rasterize_def line_writes_def interleave_single distribute_edge_locations_def
      distribute_steps.simps upper_line_eq norm2_def
      clear_def lower_grid_def Let_def set_pixel_def to_pixel_coords_def to_pixel_index_def
      cast_int_def upper_grid_def)

lemma upper_cells: "all_cells upper_grid = [(0, 0), (1, 0)]"
  by (simp add: all_cells_def size_t_of_int_def upper_grid_def lower_grid_def upt_conv_Cons
      numeral_2_eq_2)

lemmas overlap_defs = overlap_step_def get_pixel_def to_pixel_index_def at_index_def
  upper_grid_def lower_grid_def NULL_ISLAND_def

lemma upper_overlap_0:
  "overlap_step upper_grid lower_grid z isls (0, 0) = Some isls"
  by (simp add: overlap_defs)

lemma upper_overlap_1:
  "overlap_step upper_grid lower_grid (2 / 5) [upper_island] (1, 0)
   = Some [upper_island\<lparr>connected_islands :=
                     [(5, \<lparr>area = 1, centroid_accumulator = (3 / 2, 1 / 2, 2 / 5),
                           second_moment_of_area_accumulator = (9 / 4, 1 / 4)\<rparr>)]\<rparr>]"
  by (simp add: overlap_defs upper_island_def add_pixel_def get_pixel_center_def pixel_area_def
      new_IslandConnection_def Let_def)

lemma upper_overlaps: "compute_overlaps upper_grid lower_grid (2 / 5) [upper_island]
           = Some [upper_island\<lparr>connected_islands :=
                     [(5, \<lparr>area = 1, centroid_accumulator = (3 / 2, 1 / 2, 2 / 5),
                           second_moment_of_area_accumulator = (9 / 4, 1 / 4)\<rparr>)]\<rparr>]"
  by (simp add: compute_overlaps_cells upper_cells upper_overlap_0 upper_overlap_1)

lemma upper_islands:
  "islands_of_lines env upper_layer False [upper_line] = Some ([upper_island], [0])"
  by (simp add: islands_of_lines_def upper_extrusions upper_seeds upper_assign upper_merge upper_build upper_layer_def at_index_def test_region_def
      get_flow_width_def)

lemma upper_reckon:
  "reckon_islands env upper_layer False 0 lower_grid [upper_line] params
   = Some (\<lparr>islands = [upper_island\<lparr>connected_islands :=
                     [(5, \<lparr>area = 1, centroid_accumulator = (3 / 2, 1 / 2, 2 / 5),
                           second_moment_of_area_accumulator = (9 / 4, 1 / 4)\<rparr>)]\<rparr>],
            layer_z = 2 / 5\<rparr>, upper_grid)"
proof -
  have z: "slice_z upper_layer = 2 / 5" by (simp add: upper_layer_def)
  show ?thesis by (simp add: reckon_islands_def upper_islands upper_raster upper_overlaps z)
qed

text \<open>
  Claim C6. In the islands returned by \<^verbatim>\<open>reckon_islands\<close>, the area accumulated in the
  connection of the island \<open>cur\<close> to the island \<open>prev\<close> of the previous layer (both ids other
  than \<^verbatim>\<open>NULL_ISLAND\<close>) is the pixel area times the number of pixels that hold \<open>cur\<close> in the
  grid of the current layer and \<open>prev\<close> in the grid of the previous layer.
\<close>

theorem connection_area_counts_overlapping_pixels:
  assumes "reckon_islands env layer first_layer n prev_layer_grid layer_lines params
           = Some (result, current_layer_grid)"
    and "cur < length (islands result)" and "cur \<noteq> NULL_ISLAND" and "prev \<noteq> NULL_ISLAND"
  shows "connection_area (connected_islands (islands result ! cur)) prev
         = pixel_area current_layer_grid
           * real (card {coords. get_pixel current_layer_grid coords = Some cur
                                 \<and> get_pixel prev_layer_grid coords = Some prev})"
proof -
  from assms(1) obtain built m where
    isl: "islands_of_lines env layer first_layer layer_lines = Some (built, m)"
    and ov: "compute_overlaps current_layer_grid prev_layer_grid (slice_z layer) built
             = Some (islands result)"
    by (auto simp: reckon_islands_def split: bind_splits prod.splits)
  from isl obtain island_extrusions region where
    built: "build_islands first_layer (get_flow_width region erExternalPerimeter)
              (slice_z layer) layer_lines (extract_extrusions layer_lines) island_extrusions
            = (built, m)"
    by (auto simp: islands_of_lines_def Let_def split: bind_splits prod.splits)
  from ov have fe: "for_each (overlap_step current_layer_grid prev_layer_grid (slice_z layer)) built
                      (all_cells current_layer_grid) = Some (islands result)"
    by (simp add: compute_overlaps_cells)
  note ar = overlap_steps_area[OF fe, of cur prev]
  then have len: "length (islands result) = length built" by simp
  with assms(2) have cur: "cur < length built" by simp
  then have "connected_islands (built ! cur) = []"
    using build_islands_connections[of first_layer "get_flow_width region erExternalPerimeter"
        "slice_z layer" layer_lines "extract_extrusions layer_lines" island_extrusions]
    by (simp add: built)
  then have zero: "connection_area (connected_islands (built ! cur)) prev = 0"
    by (simp add: connection_area_def)
  from ar cur assms(3,4) zero show ?thesis by (simp add: overlap_count_card)
qed

theorem connection_area_counts_overlapping_pixels_witness:
  "(\<exists>result. reckon_islands reference_environment upper_layer False 0 lower_grid [upper_line] test_params
               = Some (result, upper_grid)
             \<and> 0 < length (islands result)
             \<and> connection_area (connected_islands (islands result ! 0)) 5 = 1
             \<and> connection_area (connected_islands (islands result ! 0)) 5
                 = pixel_area upper_grid
                   * real (card {coords. get_pixel upper_grid coords = Some 0
                                         \<and> get_pixel lower_grid coords = Some 5}))
   \<and> (0::nat) \<noteq> NULL_ISLAND \<and> (5::nat) \<noteq> NULL_ISLAND"
proof -
  note run = upper_reckon[of reference_environment test_params]
  have l: "0 < length (islands \<lparr>islands = [upper_island\<lparr>connected_islands :=
                     [(5, \<lparr>area = 1, centroid_accumulator = (3 / 2, 1 / 2, 2 / 5),
                           second_moment_of_area_accumulator = (9 / 4, 1 / 4)\<rparr>)]\<rparr>],
            layer_z = 2 / 5\<rparr>)" by simp
  have n0: "(0::nat) \<noteq> NULL_ISLAND" and n5: "(5::nat) \<noteq> NULL_ISLAND"
    by (simp_all add: NULL_ISLAND_def)
  from connection_area_counts_overlapping_pixels[OF run l n0 n5] run n0 n5 show ?thesis
    by (simp add: connection_area_def)
qed

subsection \<open>Rasterization\<close>

lemma same_frame_refl: "same_frame g g"
  by (simp add: same_frame_def)

lemma same_frame_trans: "same_frame g g' \<Longrightarrow> same_frame g' g'' \<Longrightarrow> same_frame g g''"
  by (simp add: same_frame_def)

lemma same_frame_coords: "same_frame g g' \<Longrightarrow> to_pixel_coords g' p = to_pixel_coords g p"
  by (simp add: same_frame_def to_pixel_coords_def)

lemma set_pixel_frame: "set_pixel g pos v = Some g' \<Longrightarrow> same_frame g g'"
  by (auto simp: set_pixel_def same_frame_def split: bind_splits if_splits)

lemma set_pixel_get:
  "set_pixel g pos v = Some g' \<Longrightarrow> get_pixel g' (to_pixel_coords g pos) = Some v"
  by (auto simp: set_pixel_def get_pixel_def to_pixel_index_def at_index_def
      split: bind_splits if_splits)

lemma set_pixel_other:
  "set_pixel g pos v = Some g' \<Longrightarrow> get_pixel g' c = Some w \<Longrightarrow> w = v \<or> get_pixel g c = Some w"
  by (auto simp: set_pixel_def get_pixel_def to_pixel_index_def at_index_def nth_list_update
      split: bind_splits if_splits)

lemma set_pixel_index:
  assumes "to_pixel_index g c = Some k" and "to_pixel_index g c' = Some k"
  shows "c = c'"
proof -
  obtain x y where c: "c = (x, y)" by (cases c)
  obtain x' y' where c': "c' = (x', y')" by (cases c')
  let ?n = "fst (pixel_count g)"
  from assms c c' have r: "0 \<le> x" "x < ?n" "0 \<le> y" "0 \<le> x'" "x' < ?n" "0 \<le> y'"
    and e: "nat (y * ?n + x) = nat (y' * ?n + x')"
    by (auto simp add: to_pixel_index_def split: if_splits)
  from r have "0 \<le> y * ?n + x" "0 \<le> y' * ?n + x'" by simp_all
  with e have eq: "y * ?n + x = y' * ?n + x'" by simp
  from r have "(y * ?n + x) mod ?n = x" "(y' * ?n + x') mod ?n = x'" by simp_all
  with eq have x: "x = x'" by simp
  from r have "(y * ?n + x) div ?n = y" "(y' * ?n + x') div ?n = y'" by simp_all
  with eq have "y = y'" by simp
  with x c c' show ?thesis by simp
qed

lemma set_pixel_unchanged:
  assumes "set_pixel g pos v = Some g'" and "c \<noteq> to_pixel_coords g pos"
  shows "get_pixel g' c = get_pixel g c"
proof -
  from assms(1) obtain k where k: "to_pixel_index g (to_pixel_coords g pos) = Some k"
    and g': "g' = g\<lparr>pixels := (pixels g)[k := v]\<rparr>"
    by (auto simp add: set_pixel_def split: bind_splits if_splits)
  have i: "to_pixel_index g' c = to_pixel_index g c" by (simp add: g' to_pixel_index_def)
  show ?thesis
  proof (cases "to_pixel_index g c")
    case None
    with i show ?thesis by (simp add: get_pixel_def)
  next
    case (Some j)
    with k assms(2) have "j \<noteq> k" using set_pixel_index by blast
    with Some i show ?thesis by (simp add: get_pixel_def g' at_index_def)
  qed
qed

text \<open>
  A sequence of writes: a pixel that one of them hits holds the value of a write that hits
  it, and the other pixels are left as they were.
\<close>

lemma writes_frame:
  "for_each (\<lambda>grid (location, island). set_pixel grid location island) g ws = Some g' \<Longrightarrow>
   same_frame g g'"
proof (induction ws arbitrary: g)
  case Nil
  then show ?case by (simp add: same_frame_refl)
next
  case (Cons w ws)
  obtain location island where w: "w = (location, island)" by (cases w)
  from Cons.prems w obtain g1 where
    sp: "set_pixel g location island = Some g1"
    and rest: "for_each (\<lambda>grid (location, island). set_pixel grid location island) g1 ws = Some g'"
    by (auto split: option.splits)
  from set_pixel_frame [OF sp] Cons.IH [OF rest] show ?case by (rule same_frame_trans)
qed

lemma writes_pixels:
  assumes "for_each (\<lambda>grid (location, island). set_pixel grid location island) g ws = Some g'"
  shows "(\<exists>w \<in> set ws. to_pixel_coords g (fst w) = c \<and> get_pixel g' c = Some (snd w))
         \<or> ((\<forall>w \<in> set ws. to_pixel_coords g (fst w) \<noteq> c) \<and> get_pixel g' c = get_pixel g c)"
  using assms
proof (induction ws arbitrary: g)
  case Nil
  then show ?case by simp
next
  case (Cons w ws)
  obtain location island where w: "w = (location, island)" by (cases w)
  from Cons.prems w obtain g1 where
    sp: "set_pixel g location island = Some g1"
    and rest: "for_each (\<lambda>grid (location, island). set_pixel grid location island) g1 ws = Some g'"
    by (auto split: option.splits)
  have coords: "to_pixel_coords g1 p = to_pixel_coords g p" for p
    using same_frame_coords [OF set_pixel_frame [OF sp]] .
  from Cons.IH [OF rest]
  consider (later) "\<exists>w \<in> set ws. to_pixel_coords g (fst w) = c \<and> get_pixel g' c = Some (snd w)"
    | (none) "\<forall>w \<in> set ws. to_pixel_coords g (fst w) \<noteq> c" "get_pixel g' c = get_pixel g1 c"
    unfolding coords by blast
  then show ?case
  proof cases
    case later
    then show ?thesis by auto
  next
    case none
    show ?thesis
    proof (cases "to_pixel_coords g location = c")
      case True
      with set_pixel_get [OF sp] none(2) have "get_pixel g' c = Some island" by simp
      with True w show ?thesis by simp
    next
      case False
      then have "c \<noteq> to_pixel_coords g location" by blast
      from set_pixel_unchanged [OF sp this] none w False show ?thesis by simp
    qed
  qed
qed

lemma distribute_steps_last:
  "0 < step_size \<Longrightarrow> d < edge_length \<Longrightarrow> 0 < edge_length \<Longrightarrow>
   add2 p1 (scale2 dir 1) \<in> set (distribute_steps p1 dir edge_length step_size d)"
proof (induction p1 dir edge_length step_size d rule: distribute_steps.induct)
  case (1 p1 dir edge_length step_size distributed_length)
  have guard: "0 < step_size \<and> distributed_length < edge_length" using "1.prems" by simp
  define next_len where "next_len = min edge_length (distributed_length + step_size)"
  define location where "location = add2 p1 (scale2 dir (next_len / edge_length))"
  have unfold: "distribute_steps p1 dir edge_length step_size distributed_length
        = location # distribute_steps p1 dir edge_length step_size next_len"
    using guard by (subst distribute_steps.simps) (simp add: Let_def next_len_def location_def)
  show ?case
  proof (cases "next_len < edge_length")
    case True
    from "1.IH" [OF guard next_len_def location_def "1.prems"(1) True "1.prems"(3)]
    show ?thesis by (simp add: unfold)
  next
    case False
    then have nl: "next_len = edge_length" by (simp add: next_len_def)
    have pos: "edge_length \<noteq> 0" using "1.prems"(3) by simp
    have "location = add2 p1 (scale2 dir 1)" using nl pos by (simp add: location_def)
    then show ?thesis by (simp add: unfold)
  qed
qed

lemma add2_sub2: "add2 p1 (scale2 (sub2 p2 p1) 1) = p2"
  by (cases p1; cases p2) simp

lemma distribute_edge_endpoint:
  assumes "distribute_edge_locations g p1 p2 = Some locations"
    and "1 / 10 \<le> norm2 (sub2 p2 p1)"
  shows "p2 \<in> set locations"
proof -
  from assms have st: "0 < fst (pixel_size g) / 2"
    and l: "locations = distribute_steps p1 (sub2 p2 p1) (norm2 (sub2 p2 p1))
                          (fst (pixel_size g) / 2) 0"
    by (auto simp: distribute_edge_locations_def Let_def split: if_splits)
  from assms(2) have "0 < norm2 (sub2 p2 p1)" by simp
  from distribute_steps_last [OF st this this, of p1 "sub2 p2 p1"] l show ?thesis
    by (simp add: add2_sub2)
qed

lemma distribute_edge_locations_frame:
  "same_frame g g' \<Longrightarrow> distribute_edge_locations g' p1 p2 = distribute_edge_locations g p1 p2"
  by (simp add: same_frame_def distribute_edge_locations_def Let_def)

lemma writes_pixel_frame: "same_frame g g' \<Longrightarrow> writes_pixel g' l c = writes_pixel g l c"
  using same_frame_coords [of g g']
  by (simp add: writes_pixel_def distribute_edge_locations_frame cong: option.case_cong)

lemma those_nth:
  "those xs = Some ys \<Longrightarrow> length ys = length xs \<and> (\<forall>i < length xs. xs ! i = Some (ys ! i))"
proof (induction xs arbitrary: ys)
  case Nil
  then show ?case by simp
next
  case (Cons x xs)
  from Cons.prems obtain y ys' where x: "x = Some y" and r: "those xs = Some ys'"
    and ys: "ys = y # ys'"
    by (auto split: option.splits)
  from Cons.IH [OF r] x ys show ?case by (auto simp add: nth_Cons split: nat.splits)
qed

text \<open>
  The index image, whatever the order of the writes: every pixel that a line writes holds
  the island id of a line that writes it.
\<close>

lemma rasterize_pixels:
  assumes run: "rasterize env g ls m = Some g'"
  shows "same_frame g g'"
    and "i < length ls \<Longrightarrow> writes_pixel g (ls ! i) c \<Longrightarrow>
         \<exists>j < length ls. writes_pixel g (ls ! j) c \<and> get_pixel g' c = Some (m ! j)"
    and "i < length ls \<Longrightarrow> \<exists>locations.
           distribute_edge_locations g (line_a (ls ! i)) (line_b (ls ! i)) = Some locations"
proof -
  from run obtain writes where
    th: "those (map (line_writes g ls m) [0 ..< length ls]) = Some writes"
    and fe: "for_each (\<lambda>grid (location, island). set_pixel grid location island) g
               (interleave (thread_schedule env) 0 writes) = Some g'"
    by (auto simp add: rasterize_def split: bind_splits)
  from those_nth [OF th] have len: "length writes = length ls"
    and nth: "\<forall>i < length ls. line_writes g ls m i = Some (writes ! i)"
    by simp_all
  show "same_frame g g'" using writes_frame [OF fe] .
  have locs: "\<exists>locations.
      distribute_edge_locations g (line_a (ls ! j)) (line_b (ls ! j)) = Some locations
      \<and> writes ! j = map (\<lambda>location. (location, m ! j)) locations" if "j < length ls" for j
    using nth that by (auto simp add: line_writes_def)
  show "\<exists>locations.
           distribute_edge_locations g (line_a (ls ! i)) (line_b (ls ! i)) = Some locations"
    if "i < length ls"
    using locs [OF that] by blast
  show "\<exists>j < length ls. writes_pixel g (ls ! j) c \<and> get_pixel g' c = Some (m ! j)"
    if i: "i < length ls" and wp: "writes_pixel g (ls ! i) c"
  proof -
    from locs [OF i] obtain locations where
      l: "distribute_edge_locations g (line_a (ls ! i)) (line_b (ls ! i)) = Some locations"
         "writes ! i = map (\<lambda>location. (location, m ! i)) locations" by blast
    from wp l(1) obtain location where "location \<in> set locations" "to_pixel_coords g location = c"
      by (auto simp add: writes_pixel_def)
    with l(2) have "(location, m ! i) \<in> set (writes ! i)" by simp
    moreover from i len have "writes ! i \<in> set writes" by simp
    ultimately have "(location, m ! i) \<in> set (interleave (thread_schedule env) 0 writes)"
      unfolding interleave_set by blast
    with \<open>to_pixel_coords g location = c\<close>
    have "\<not> (\<forall>w \<in> set (interleave (thread_schedule env) 0 writes). to_pixel_coords g (fst w) \<noteq> c)"
      by force
    with writes_pixels [OF fe, of c] obtain w where
      w: "w \<in> set (interleave (thread_schedule env) 0 writes)" "to_pixel_coords g (fst w) = c"
         "get_pixel g' c = Some (snd w)" by blast
    from w(1) obtain ws where "ws \<in> set writes" "w \<in> set ws" unfolding interleave_set by blast
    then obtain j where j: "j < length writes" "w \<in> set (writes ! j)"
      by (auto simp add: in_set_conv_nth)
    with len have jl: "j < length ls" by simp
    from locs [OF jl] obtain locations' where
      l': "distribute_edge_locations g (line_a (ls ! j)) (line_b (ls ! j)) = Some locations'"
          "writes ! j = map (\<lambda>location. (location, m ! j)) locations'" by blast
    from j(2) l'(2) have "fst w \<in> set locations'" "snd w = m ! j" by auto
    with w(2,3) l'(1) have "writes_pixel g (ls ! j) c" "get_pixel g' c = Some (m ! j)"
      by (auto simp add: writes_pixel_def)
    with jl show ?thesis by blast
  qed
qed

text \<open>
  With one line the index image is what \<^verbatim>\<open>distribute_edge\<close> writes, and when the threads
  write in the order of the lines it is what the calls of \<^verbatim>\<open>distribute_edge\<close>, one after the
  other, write.
\<close>

lemma line_writes_frame: "same_frame g g' \<Longrightarrow> line_writes g' ls m i = line_writes g ls m i"
  by (simp add: line_writes_def distribute_edge_locations_frame)

lemma for_each_writes_of_line:
  "for_each (\<lambda>grid (location, island). set_pixel grid location island) g
     (map (\<lambda>location. (location, v)) locations)
   = for_each (\<lambda>grid location. set_pixel grid location v) g locations"
  by (simp add: for_each_map)

lemma rasterize_single:
  "rasterize env g [l] [v] = distribute_edge g (line_a l) (line_b l) v"
  by (cases "distribute_edge_locations g (line_a l) (line_b l)")
     (simp_all add: rasterize_def line_writes_def distribute_edge_def interleave_single
        for_each_writes_of_line)

lemma writes_in_order:
  "(case those (map (line_writes g ls m) js) of
      None \<Rightarrow> None
    | Some writes \<Rightarrow>
        for_each (\<lambda>grid (location, island). set_pixel grid location island) g (concat writes))
   = for_each (\<lambda>grid i. distribute_edge grid (line_a (ls ! i)) (line_b (ls ! i)) (m ! i)) g js"
proof (induction js arbitrary: g)
  case Nil
  show ?case by simp
next
  case (Cons j js)
  show ?case
  proof (cases "distribute_edge_locations g (line_a (ls ! j)) (line_b (ls ! j))")
    case None
    then show ?thesis by (simp add: line_writes_def distribute_edge_def)
  next
    case (Some locations)
    show ?thesis
    proof (cases "for_each (\<lambda>grid location. set_pixel grid location (m ! j)) g locations")
      case None
      with Some show ?thesis
        by (simp add: line_writes_def distribute_edge_def for_each_append for_each_writes_of_line
            split: option.splits)
    next
      case g1: (Some g1)
      then have "for_each (\<lambda>grid (location, island). set_pixel grid location island) g
                   (map (\<lambda>location. (location, m ! j)) locations) = Some g1"
        by (simp add: for_each_writes_of_line)
      from writes_frame [OF this] have "same_frame g g1" .
      then have "map (line_writes g1 ls m) js = map (line_writes g ls m) js"
        by (simp add: line_writes_frame)
      with Cons.IH [of g1] Some g1 show ?thesis
        by (simp add: line_writes_def [of g ls m j] distribute_edge_def for_each_append
            for_each_writes_of_line split: option.splits)
    qed
  qed
qed

lemma rasterize_in_order:
  assumes "thread_schedule env = (\<lambda>k. 0)"
  shows "rasterize env g ls m
         = for_each (\<lambda>grid i. distribute_edge grid (line_a (ls ! i)) (line_b (ls ! i)) (m ! i)) g
             [0 ..< length ls]"
  using writes_in_order [of g ls m "[0 ..< length ls]"]
  by (simp add: rasterize_def assms interleave_in_order split: option.splits bind_splits)

subsection \<open>The reckoner on a short line and on two lines on top of each other\<close>

lemma short_line_eq:
  "short_line = \<lparr>line_a = (1 / 20, 1 / 20), line_b = (13 / 100, 1 / 20), len = 2 / 25,
      origin_entity = test_entity, support_point_generated = False, malformation = 0\<rparr>"
  by (simp add: short_line_def new_ExtrusionLine_def norm2_def real_sqrt_divide)

lemma twin_line_eq:
  "twin_line = \<lparr>line_a = (1 / 2, 1 / 2), line_b = (3 / 2, 1 / 2), len = 1,
      origin_entity = twin_entity, support_point_generated = False, malformation = 0\<rparr>"
  by (simp add: twin_line_def new_ExtrusionLine_def norm2_def)

lemmas classify_defs = islands_of_lines_def extract_extrusions_def extrusions_step_def
  seed_islands_def seed_backup_def is_external_perimeter_def extrusion_lines_def
  assign_extrusions_def assign_extrusion_def at_index_def get_flow_width_def

lemma short_islands:
  "\<exists>built. islands_of_lines env upper_layer False [short_line] = Some (built, [0])"
  by (simp add: classify_defs merge_islands_def merge_step_def build_islands_def build_island_def
      add_line_to_island_def Let_def short_line_eq test_entity_def upper_layer_def test_region_def)

lemma short_raster: "rasterize env (clear fine_grid) [short_line] [0] = Some fine_grid"
  by (simp add: rasterize_def line_writes_def interleave_single distribute_edge_locations_def
      short_line_eq norm2_def clear_def fine_grid_def Let_def real_sqrt_divide)

lemma fine_cells: "all_cells fine_grid = [(0, 0), (1, 0)]"
  by (simp add: all_cells_def size_t_of_int_def fine_grid_def upt_conv_Cons numeral_2_eq_2)

lemma fine_overlap:
  "x < 2 \<Longrightarrow> overlap_step fine_grid fine_grid z isls (int x, 0) = Some isls"
  by (auto simp: overlap_step_def get_pixel_def to_pixel_index_def at_index_def fine_grid_def
      nth_Cons' split: bind_splits)

lemma short_overlaps: "compute_overlaps fine_grid fine_grid z isls = Some isls"
  using fine_overlap[of 0 z isls] fine_overlap[of 1 z isls]
  by (simp add: compute_overlaps_cells fine_cells)

lemma short_reckon:
  "\<exists>result. reckon_islands env upper_layer False 0 fine_grid [short_line] params
             = Some (result, fine_grid)"
proof -
  from short_islands obtain built where
    "islands_of_lines env upper_layer False [short_line] = Some (built, [0])" by blast
  then show ?thesis by (simp add: reckon_islands_def short_raster short_overlaps)
qed

lemma twin_extrusions: "extract_extrusions [upper_line, twin_line] = [(0, Suc 0), (Suc 0, 2)]"
  by (simp add: extract_extrusions_def extrusions_step_def upper_line_eq twin_line_eq
      test_entity_def twin_entity_def)

lemma twin_seeds:
  "seed_backup [upper_line, twin_line] [(0, Suc 0), (Suc 0, 2)]
     (seed_islands [upper_line, twin_line] [(0, Suc 0), (Suc 0, 2)])
   = ([[upper_line], [twin_line]], [[0], [Suc 0]])"
  by (simp add: seed_islands_def seed_backup_def is_external_perimeter_def upper_line_eq
      twin_line_eq test_entity_def twin_entity_def extrusion_lines_def upt_conv_Cons
      numeral_2_eq_2)

lemma twin_assign:
  "assign_extrusions env [upper_line, twin_line] [(0, Suc 0), (Suc 0, 2)]
     [[upper_line], [twin_line]] [[0], [Suc 0]] = Some [[0], [Suc 0]]"
  by (simp add: assign_extrusions_def assign_extrusion_def is_external_perimeter_def upper_line_eq
      twin_line_eq test_entity_def twin_entity_def upt_conv_Cons numeral_2_eq_2)

lemma twin_distance_01:
  "signed_distance_from_lines reference_environment [upper_line] (line_a twin_line)
   = Some (0, 0, (1 / 2, 1 / 2))"
  by (simp add: reference_defs upper_line_eq twin_line_eq)

lemma twin_distance_10:
  "signed_distance_from_lines reference_environment [twin_line] (line_a upper_line)
   = Some (0, 0, (1 / 2, 1 / 2))"
  by (simp add: reference_defs upper_line_eq twin_line_eq)

lemma twin_merge:
  "merge_islands reference_environment [[upper_line], [twin_line]] [[0], [Suc 0]] = Some [[0], [Suc 0]]"
  by (simp add: merge_islands_def merge_step_def upt_conv_Cons numeral_2_eq_2 get_line_def
      at_index_def twin_distance_01 twin_distance_10)

lemma twin_build:
  "\<exists>a b. build_islands False (2 / 5) (2 / 5) [upper_line, twin_line] [(0, Suc 0), (Suc 0, 2)]
            [[0], [Suc 0]] = ([a, b], [0, Suc 0])"
  by (simp add: build_islands_def build_island_def add_line_to_island_def Let_def upper_line_eq
      twin_line_eq upt_conv_Cons numeral_2_eq_2)

lemma twin_islands:
  "\<exists>a b. islands_of_lines reference_environment upper_layer False [upper_line, twin_line]
          = Some ([a, b], [0, Suc 0])"
proof -
  from twin_build obtain a b where
    "build_islands False (2 / 5) (2 / 5) [upper_line, twin_line] [(0, Suc 0), (Suc 0, 2)]
       [[0], [Suc 0]] = ([a, b], [0, Suc 0])" by blast
  then show ?thesis
    by (simp add: islands_of_lines_def twin_extrusions twin_seeds twin_assign twin_merge
        upper_layer_def test_region_def at_index_def get_flow_width_def)
qed

lemma twin_raster:
  "rasterize reference_environment (clear lower_grid) [upper_line, twin_line] [0, Suc 0]
   = Some twin_grid"
proof -
  have s: "thread_schedule reference_environment = (\<lambda>k. 0)"
    by (simp add: reference_environment_def)
  show ?thesis
    unfolding rasterize_def s interleave_in_order
    by (simp add: line_writes_def distribute_edge_locations_def distribute_steps.simps
        upper_line_eq twin_line_eq
        norm2_def clear_def lower_grid_def Let_def set_pixel_def to_pixel_coords_def
        to_pixel_index_def cast_int_def twin_grid_def upt_conv_Cons numeral_2_eq_2)
qed

lemma twin_cells: "all_cells twin_grid = [(0, 0), (1, 0)]"
  by (simp add: all_cells_def size_t_of_int_def twin_grid_def lower_grid_def upt_conv_Cons
      numeral_2_eq_2)

lemma twin_overlap_0: "overlap_step twin_grid lower_grid z isls (0, 0) = Some isls"
  by (simp add: overlap_step_def get_pixel_def to_pixel_index_def at_index_def twin_grid_def
      lower_grid_def)

lemma twin_overlap_1: "\<exists>r. overlap_step twin_grid lower_grid z [a, b] (1, 0) = Some r"
  by (simp add: overlap_step_def get_pixel_def to_pixel_index_def at_index_def twin_grid_def
      lower_grid_def NULL_ISLAND_def)

lemma twin_overlaps: "\<exists>r. compute_overlaps twin_grid lower_grid z [a, b] = Some r"
proof -
  from twin_overlap_1 obtain r where "overlap_step twin_grid lower_grid z [a, b] (1, 0) = Some r"
    by blast
  then show ?thesis by (simp add: compute_overlaps_cells twin_cells twin_overlap_0)
qed

lemma twin_reckon:
  "map_option snd (reckon_islands reference_environment upper_layer False 0 lower_grid
                     [upper_line, twin_line] params) = Some twin_grid"
proof -
  from twin_islands obtain a b where
    i: "islands_of_lines reference_environment upper_layer False [upper_line, twin_line]
        = Some ([a, b], [0, Suc 0])" by blast
  from twin_overlaps obtain r where
    "compute_overlaps twin_grid lower_grid (slice_z upper_layer) [a, b] = Some r" by blast
  with i show ?thesis by (simp add: reckon_islands_def twin_raster)
qed

text \<open>
  Claim C5, as stated, fails in two ways. \<^verbatim>\<open>distribute_edge\<close> skips every edge shorter than
  0.1 whatever the pixel size: on a grid of pixel size 0.1 a line of length 0.08, which is
  more than half a pixel, leaves the grid empty although its island has the id 0. And a
  pixel keeps the id written last: two external perimeters on top of each other, each an
  island of its own, write the same single pixel, so only one of them is found in the grid
  (the second, when the threads write in the order of the lines).
\<close>

theorem rasterized_segment_may_hold_no_pixel:
  "map_option snd (islands_of_lines reference_environment upper_layer False [short_line]) = Some [0]
   \<and> map_option snd (reckon_islands reference_environment upper_layer False 0 fine_grid
                       [short_line] test_params) = Some fine_grid
   \<and> fst (pixel_size fine_grid) / 2 \<le> len short_line
   \<and> 0 \<notin> set (pixels fine_grid)
   \<and> map_option snd (islands_of_lines reference_environment upper_layer False
                       [upper_line, twin_line]) = Some [0, 1]
   \<and> map_option snd (reckon_islands reference_environment upper_layer False 0 lower_grid
                       [upper_line, twin_line] test_params) = Some twin_grid
   \<and> fst (pixel_size twin_grid) / 2 \<le> len upper_line
   \<and> 0 \<notin> set (pixels twin_grid)"
proof -
  from short_islands[of reference_environment]
  have a: "map_option snd (islands_of_lines reference_environment upper_layer False [short_line]) = Some [0]"
    by auto
  from short_reckon[of reference_environment test_params]
  have b: "map_option snd (reckon_islands reference_environment upper_layer False 0 fine_grid
                       [short_line] test_params) = Some fine_grid"
    by auto
  have c: "fst (pixel_size fine_grid) / 2 \<le> len short_line" "0 \<notin> set (pixels fine_grid)"
    by (simp_all add: fine_grid_def short_line_eq NULL_ISLAND_def)
  from twin_islands
  have d: "map_option snd (islands_of_lines reference_environment upper_layer False
                       [upper_line, twin_line]) = Some [0, 1]"
    by auto
  have e: "fst (pixel_size twin_grid) / 2 \<le> len upper_line" "0 \<notin> set (pixels twin_grid)"
    by (simp_all add: twin_grid_def lower_grid_def upper_line_eq NULL_ISLAND_def)
  from a b c d e twin_reckon[of test_params] show ?thesis by simp
qed

text \<open>
  Claim C5, amended. After \<^verbatim>\<open>reckon_islands\<close> has rasterized a layer, whatever the order in
  which the threads have written: a line whose endpoints are at least 0.1 apart writes the
  pixel of its endpoint \<open>b\<close>, and every pixel that a line writes holds the island id of a line
  of the layer that writes this pixel; so it holds the line's own island id when only lines
  of this island write it.
\<close>

theorem rasterized_pixels_hold_island_ids:
  assumes "islands_of_lines env layer first_layer layer_lines = Some (built, line_to_island_mapping)"
    and "reckon_islands env layer first_layer n prev_layer_grid layer_lines params
         = Some (result, current_layer_grid)"
    and "i < length layer_lines"
  shows "(1 / 10 \<le> norm2 (sub2 (line_b (layer_lines ! i)) (line_a (layer_lines ! i))) \<longrightarrow>
            writes_pixel current_layer_grid (layer_lines ! i)
              (to_pixel_coords current_layer_grid (line_b (layer_lines ! i))))
         \<and> (\<forall>coords. writes_pixel current_layer_grid (layer_lines ! i) coords \<longrightarrow>
              (\<exists>j < length layer_lines.
                 writes_pixel current_layer_grid (layer_lines ! j) coords
                 \<and> get_pixel current_layer_grid coords = Some (line_to_island_mapping ! j)))
         \<and> (\<forall>coords. writes_pixel current_layer_grid (layer_lines ! i) coords
              \<and> (\<forall>j < length layer_lines.
                   writes_pixel current_layer_grid (layer_lines ! j) coords \<longrightarrow>
                   line_to_island_mapping ! j = line_to_island_mapping ! i) \<longrightarrow>
              get_pixel current_layer_grid coords = Some (line_to_island_mapping ! i))"
proof -
  let ?g = "clear prev_layer_grid"
  from assms(1,2) have run: "rasterize env ?g layer_lines line_to_island_mapping
                        = Some current_layer_grid"
    by (auto simp: reckon_islands_def split: bind_splits)
  note fr = rasterize_pixels(1) [OF run]
  have holder: "\<exists>j < length layer_lines.
                 writes_pixel current_layer_grid (layer_lines ! j) coords
                 \<and> get_pixel current_layer_grid coords = Some (line_to_island_mapping ! j)"
    if "writes_pixel current_layer_grid (layer_lines ! i) coords" for coords
    using rasterize_pixels(2) [OF run assms(3), of coords] that
    by (simp add: writes_pixel_frame [OF fr])
  have endpoint: "writes_pixel current_layer_grid (layer_lines ! i)
              (to_pixel_coords current_layer_grid (line_b (layer_lines ! i)))"
    if long: "1 / 10 \<le> norm2 (sub2 (line_b (layer_lines ! i)) (line_a (layer_lines ! i)))"
  proof -
    from rasterize_pixels(3) [OF run assms(3)] obtain locations where
      l: "distribute_edge_locations ?g (line_a (layer_lines ! i)) (line_b (layer_lines ! i))
          = Some locations" by blast
    from distribute_edge_endpoint [OF l long] l
    have "writes_pixel ?g (layer_lines ! i) (to_pixel_coords ?g (line_b (layer_lines ! i)))"
      by (simp add: writes_pixel_def)
    then show ?thesis by (simp add: writes_pixel_frame [OF fr] same_frame_coords [OF fr])
  qed
  from holder endpoint show ?thesis by metis
qed

theorem rasterized_pixels_hold_island_ids_witness:
  "islands_of_lines reference_environment upper_layer False [upper_line] = Some ([upper_island], [0])
   \<and> map_option snd (reckon_islands reference_environment upper_layer False 0 lower_grid
                       [upper_line] test_params) = Some upper_grid
   \<and> (0::nat) < length [upper_line]
   \<and> 1 / 10 \<le> norm2 (sub2 (line_b ([upper_line] ! 0)) (line_a ([upper_line] ! 0)))
   \<and> writes_pixel upper_grid ([upper_line] ! 0) (to_pixel_coords upper_grid (line_b ([upper_line] ! 0)))
   \<and> to_pixel_coords upper_grid (line_b ([upper_line] ! 0)) = (1, 0)
   \<and> get_pixel upper_grid (1, 0) = Some ([0] ! 0)"
proof -
  note a = upper_islands[of reference_environment]
  note b = upper_reckon[of reference_environment test_params]
  have c: "(0::nat) < length [upper_line]" by simp
  have d: "1 / 10 \<le> norm2 (sub2 (line_b ([upper_line] ! 0)) (line_a ([upper_line] ! 0)))"
    by (simp add: upper_line_eq norm2_def)
  have e: "to_pixel_coords upper_grid (line_b ([upper_line] ! 0)) = (1, 0)"
    by (simp add: to_pixel_coords_def upper_grid_def lower_grid_def upper_line_eq cast_int_def)
  note t = rasterized_pixels_hold_island_ids [OF a b c]
  from t d have w: "writes_pixel upper_grid ([upper_line] ! 0)
                      (to_pixel_coords upper_grid (line_b ([upper_line] ! 0)))" by blast
  with t have "\<exists>j < length [upper_line].
                 get_pixel upper_grid (to_pixel_coords upper_grid (line_b ([upper_line] ! 0)))
                 = Some ([0] ! j)" by blast
  then have "get_pixel upper_grid (1, 0) = Some ([0] ! 0)" unfolding e by simp
  with a b c d e w show ?thesis by simp
qed

section \<open>Properties of the islands graph\<close>

text \<open>
  Every external line of an island of the graph that \<^verbatim>\<open>check_extrusions_and_build_graph\<close>
  returns is one of the lines of its layer, and every line of a layer was built by the
  constructor of \<^verbatim>\<open>ExtrusionLine\<close>, which sets \<open>len\<close> to the norm of \<open>a - b\<close>. So the lines with
  which the global pass calls \<^verbatim>\<open>is_stable_while_extruding\<close> on such a graph have endpoints that
  differ (\<open>graph_stability_calls_nonzero\<close>). The indices kept by \<^verbatim>\<open>reckon_islands\<close> stay in
  range on the way: an extrusion ends within the lines of the layer, and the lists of
  extrusions of the islands hold indices of extrusions.
\<close>

lemma foldl_invariant:
  assumes "P s" and "\<And>s x. x \<in> set xs \<Longrightarrow> P s \<Longrightarrow> P (f s x)"
  shows "P (foldl f s xs)"
  using assms by (induction xs arbitrary: s) simp_all

lemma for_each_invariant:
  assumes "for_each body s xs = Some s'" and "P s"
    and "\<And>s x s'. x \<in> set xs \<Longrightarrow> P s \<Longrightarrow> body s x = Some s' \<Longrightarrow> P s'"
  shows "P s'"
  using assms
proof (induction xs arbitrary: s)
  case Nil
  then show ?case by simp
next
  case (Cons x xs)
  from Cons.prems(1) obtain s1 where s1: "body s x = Some s1" "for_each body s1 xs = Some s'"
    by (auto split: option.splits)
  have "P s1" using Cons.prems(3) [of x s s1] Cons.prems(2) s1(1) by simp
  show ?case
  proof (rule Cons.IH [OF s1(2) \<open>P s1\<close>])
    fix t y t'
    assume "y \<in> set xs" "P t" "body t y = Some t'"
    then show "P t'" using Cons.prems(3) [of y t t'] by simp
  qed
qed

lemma extract_extrusions_range:
  assumes "ex \<in> set (extract_extrusions layer_lines)"
  shows "snd ex \<le> length layer_lines"
proof -
  let ?P = "\<lambda>st. \<forall>ex \<in> set (fst st). snd ex \<le> length layer_lines"
  have "?P (foldl (extrusions_step layer_lines) ([], None) [0 ..< length layer_lines])"
  proof (rule foldl_invariant)
    show "?P ([], None)" by simp
  next
    fix st :: "(nat \<times> nat) list \<times> nat option" and lidx
    assume lidx: "lidx \<in> set [0 ..< length layer_lines]" and st: "?P st"
    obtain extrusions current_ex where e: "st = (extrusions, current_ex)" by (cases st) auto
    from st e have "\<forall>ex \<in> set (butlast extrusions). snd ex \<le> length layer_lines"
      by (auto dest: in_set_butlastD)
    with st e lidx show "?P (extrusions_step layer_lines st lidx)"
      by (auto simp add: extrusions_step_def Let_def)
  qed
  with assms show ?thesis by (simp add: extract_extrusions_def)
qed

lemma extrusion_lines_subset:
  "snd ex \<le> length layer_lines \<Longrightarrow> set (extrusion_lines layer_lines ex) \<subseteq> set layer_lines"
  by (auto simp add: extrusion_lines_def)

lemma seed_islands_indices:
  "length (fst (seed_islands layer_lines extrusions)) = length (snd (seed_islands layer_lines extrusions))
   \<and> (\<forall>ie \<in> set (snd (seed_islands layer_lines extrusions)). \<forall>e \<in> set ie. e < length extrusions)"
proof -
  let ?P = "\<lambda>st :: LinesDistancer list \<times> nat list list.
              length (fst st) = length (snd st)
              \<and> (\<forall>ie \<in> set (snd st). \<forall>e \<in> set ie. e < length extrusions)"
  show ?thesis
    unfolding seed_islands_def
  proof (rule foldl_invariant [where P = ?P])
    show "?P ([], [])" by simp
  next
    fix st :: "LinesDistancer list \<times> nat list list" and e
    assume "e \<in> set [0 ..< length extrusions]" and "?P st"
    then show "?P ((case st of (island_distancers, island_extrusions) \<Rightarrow>
              \<lambda>e. if is_external_perimeter (layer_lines ! fst (extrusions ! e))
              then (island_distancers @ [extrusion_lines layer_lines (extrusions ! e)],
                    island_extrusions @ [[e]])
              else (island_distancers, island_extrusions)) e)"
      by (cases st) auto
  qed
qed

lemma seed_backup_indices:
  assumes "length (fst st) = length (snd st)"
    and "\<forall>ie \<in> set (snd st). \<forall>e \<in> set ie. e < length extrusions"
  shows "length (fst (seed_backup layer_lines extrusions st))
           = length (snd (seed_backup layer_lines extrusions st))
         \<and> (\<forall>ie \<in> set (snd (seed_backup layer_lines extrusions st)). \<forall>e \<in> set ie. e < length extrusions)"
  using assms by (cases st) (auto simp add: seed_backup_def)

lemma push_back_at_indices:
  assumes "push_back_at island_extrusions i e = Some island_extrusions'"
    and "e < n" and "\<forall>ie \<in> set island_extrusions. \<forall>e \<in> set ie. e < n"
  shows "length island_extrusions' = length island_extrusions
         \<and> (\<forall>ie \<in> set island_extrusions'. \<forall>e \<in> set ie. e < n)"
proof -
  from assms(1) have i: "i < length island_extrusions"
    and r: "island_extrusions' = island_extrusions[i := island_extrusions ! i @ [e]]"
    by (auto simp add: push_back_at_def split: if_splits)
  have sub: "set island_extrusions' \<subseteq> insert (island_extrusions ! i @ [e]) (set island_extrusions)"
    unfolding r by (rule set_update_subset_insert)
  from i assms(3) have old: "\<forall>e \<in> set (island_extrusions ! i). e < n"
    using nth_mem by blast
  have "\<forall>e \<in> set ie. e < n" if "ie \<in> set island_extrusions'" for ie
  proof -
    from that sub have "ie = island_extrusions ! i @ [e] \<or> ie \<in> set island_extrusions" by blast
    with old assms(2,3) show ?thesis by auto
  qed
  with r show ?thesis by simp
qed

lemma assign_extrusions_indices:
  assumes "assign_extrusions env layer_lines extrusions island_distancers island_extrusions
           = Some island_extrusions'"
    and "\<forall>ie \<in> set island_extrusions. \<forall>e \<in> set ie. e < length extrusions"
  shows "length island_extrusions' = length island_extrusions
         \<and> (\<forall>ie \<in> set island_extrusions'. \<forall>e \<in> set ie. e < length extrusions)"
proof -
  let ?P = "\<lambda>ies. length ies = length island_extrusions
                  \<and> (\<forall>ie \<in> set ies. \<forall>e \<in> set ie. e < length extrusions)"
  from assms(1)
  have run: "for_each (assign_extrusion env layer_lines extrusions island_distancers)
               island_extrusions [0 ..< length extrusions] = Some island_extrusions'"
    by (simp add: assign_extrusions_def)
  show ?thesis
  proof (rule for_each_invariant [where P = ?P, OF run])
    show "?P island_extrusions" using assms(2) by simp
  next
    fix ies e ies'
    assume e: "e \<in> set [0 ..< length extrusions]" and p: "?P ies"
      and step: "assign_extrusion env layer_lines extrusions island_distancers ies e = Some ies'"
    from e have en: "e < length extrusions" by simp
    from step have "ies' = ies \<or> (\<exists>i. push_back_at ies i e = Some ies')"
      by (auto simp add: assign_extrusion_def split: if_splits bind_splits option.splits)
    then show "?P ies'"
    proof
      assume "ies' = ies"
      with p show ?thesis by simp
    next
      assume "\<exists>i. push_back_at ies i e = Some ies'"
      then obtain i where "push_back_at ies i e = Some ies'" by blast
      from push_back_at_indices [OF this en] p show ?thesis by simp
    qed
  qed
qed

lemma merge_step_indices:
  assumes "merge_step env island_distancers i island_extrusions j = Some island_extrusions'"
    and "i < length island_extrusions" and "j < length island_extrusions"
    and "\<forall>ie \<in> set island_extrusions. \<forall>e \<in> set ie. e < n"
  shows "length island_extrusions' = length island_extrusions
         \<and> (\<forall>ie \<in> set island_extrusions'. \<forall>e \<in> set ie. e < n)"
proof -
  let ?merged = "island_extrusions[i := island_extrusions ! i @ island_extrusions ! j, j := []]"
  from assms(1) have "island_extrusions' = island_extrusions \<or> island_extrusions' = ?merged"
    by (auto simp add: merge_step_def split: if_splits bind_splits)
  moreover have "\<forall>ie \<in> set ?merged. \<forall>e \<in> set ie. e < n"
  proof
    fix ie assume "ie \<in> set ?merged"
    then have "ie = [] \<or> ie \<in> set (island_extrusions[i := island_extrusions ! i @ island_extrusions ! j])"
      using set_update_subset_insert by fastforce
    then have "ie = [] \<or> ie = island_extrusions ! i @ island_extrusions ! j \<or> ie \<in> set island_extrusions"
      using set_update_subset_insert by fastforce
    moreover from assms(2,4) have "\<forall>e \<in> set (island_extrusions ! i). e < n"
      using nth_mem by blast
    moreover from assms(3,4) have "\<forall>e \<in> set (island_extrusions ! j). e < n"
      using nth_mem by blast
    ultimately show "\<forall>e \<in> set ie. e < n" using assms(4) by auto
  qed
  ultimately show ?thesis using assms(4) by auto
qed

lemma merge_islands_indices:
  assumes "merge_islands env island_distancers island_extrusions = Some island_extrusions'"
    and "length island_distancers = length island_extrusions"
    and "\<forall>ie \<in> set island_extrusions. \<forall>e \<in> set ie. e < n"
  shows "\<forall>ie \<in> set island_extrusions'. \<forall>e \<in> set ie. e < n"
proof -
  let ?P = "\<lambda>ies. length ies = length island_extrusions \<and> (\<forall>ie \<in> set ies. \<forall>e \<in> set ie. e < n)"
  let ?inner = "\<lambda>i. for_each (merge_step env island_distancers i)"
  have inner: "?P ies'"
    if "i < length island_distancers" "?P ies"
      "for_each (merge_step env island_distancers i) ies [0 ..< length island_distancers] = Some ies'"
    for i ies ies'
  proof (rule for_each_invariant [where P = ?P, OF that(3)])
    show "?P ies" by (rule that(2))
  next
    fix s j s'
    assume j: "j \<in> set [0 ..< length island_distancers]" and p: "?P s"
      and step: "merge_step env island_distancers i s j = Some s'"
    from that(1) p assms(2) have i: "i < length s" by simp
    from j p assms(2) have j: "j < length s" by simp
    from p have "\<forall>ie \<in> set s. \<forall>e \<in> set ie. e < n" by simp
    from merge_step_indices [OF step i j this] p show "?P s'" by simp
  qed
  from assms(1)
  have run: "for_each (\<lambda>island_extrusions i.
                 if island_distancers ! i = [] then Some island_extrusions
                 else for_each (merge_step env island_distancers i) island_extrusions
                        [0 ..< length island_distancers])
       island_extrusions [0 ..< length island_distancers] = Some island_extrusions'"
    by (simp add: merge_islands_def)
  have "?P island_extrusions'"
  proof (rule for_each_invariant [where P = ?P, OF run])
    show "?P island_extrusions" using assms(3) by simp
  next
    fix s i s'
    assume i: "i \<in> set [0 ..< length island_distancers]" and p: "?P s"
      and step: "(if island_distancers ! i = [] then Some s
                  else for_each (merge_step env island_distancers i) s
                         [0 ..< length island_distancers]) = Some s'"
    show "?P s'"
    proof (cases "island_distancers ! i = []")
      case True
      with step p show ?thesis by simp
    next
      case False
      with step have "for_each (merge_step env island_distancers i) s
                         [0 ..< length island_distancers] = Some s'" by simp
      from inner [OF _ p this] i show ?thesis by simp
    qed
  qed
  then show ?thesis by simp
qed


lemma add_line_to_island_external_lines:
  "external_lines (fst (add_line_to_island fl fw z ls idx st lidx)) = external_lines (fst st)"
  by (cases st) (simp add: add_line_to_island_def Let_def)

lemma add_lines_to_island_external_lines:
  "external_lines (fst (foldl (add_line_to_island fl fw z ls idx) st lidxs))
   = external_lines (fst st)"
  by (induction lidxs arbitrary: st) (simp_all add: add_line_to_island_external_lines)

lemma build_island_external_lines:
  assumes "\<forall>island \<in> set (fst st). set (external_lines island) \<subseteq> set ls"
    and "\<forall>e \<in> set island_ex. e < length exs"
    and "\<forall>ex \<in> set exs. snd ex \<le> length ls"
  shows "\<forall>island \<in> set (fst (build_island fl fw z ls exs st island_ex)).
           set (external_lines island) \<subseteq> set ls"
proof -
  obtain result_islands m where st: "st = (result_islands, m)" by (cases st) auto
  show ?thesis
  proof (cases "island_ex = []")
    case True
    with assms st show ?thesis by (simp add: build_island_def)
  next
    case False
    let ?start = "(new_Island\<lparr>external_lines := extrusion_lines ls (exs ! (island_ex ! 0))\<rparr>, m)"
    let ?r = "foldl (add_line_to_island fl fw z ls (length result_islands)) ?start
                (concat (map (\<lambda>extrusion_idx. [fst (exs ! extrusion_idx) ..< snd (exs ! extrusion_idx)])
                           island_ex))"
    from False have "island_ex ! 0 \<in> set island_ex" by simp
    with assms(2) have "island_ex ! 0 < length exs" by blast
    then have "exs ! (island_ex ! 0) \<in> set exs" by simp
    with assms(3) have "snd (exs ! (island_ex ! 0)) \<le> length ls" by blast
    then have "set (extrusion_lines ls (exs ! (island_ex ! 0))) \<subseteq> set ls"
      by (rule extrusion_lines_subset)
    then have "set (external_lines (fst ?r)) \<subseteq> set ls"
      by (simp add: add_lines_to_island_external_lines)
    moreover have "fst (build_island fl fw z ls exs st island_ex) = result_islands @ [fst ?r]"
      using False st by (simp add: build_island_def Let_def split: prod.splits)
    ultimately show ?thesis using assms(1) st by auto
  qed
qed

lemma build_islands_external_lines:
  assumes "\<forall>ie \<in> set island_extrusions. \<forall>e \<in> set ie. e < length exs"
    and "\<forall>ex \<in> set exs. snd ex \<le> length ls"
  shows "\<forall>island \<in> set (fst (build_islands fl fw z ls exs island_extrusions)).
           set (external_lines island) \<subseteq> set ls"
  unfolding build_islands_def
proof (rule foldl_invariant [where P = "\<lambda>st. \<forall>island \<in> set (fst st). set (external_lines island) \<subseteq> set ls"])
  show "\<forall>island \<in> set (fst ([], replicate (length ls) NULL_ISLAND)). set (external_lines island) \<subseteq> set ls"
    by simp
next
  fix st :: "Island list \<times> nat list" and island_ex
  assume "island_ex \<in> set island_extrusions"
    and p: "\<forall>island \<in> set (fst st). set (external_lines island) \<subseteq> set ls"
  with assms(1) have "\<forall>e \<in> set island_ex. e < length exs" by blast
  from build_island_external_lines [OF p this assms(2)]
  show "\<forall>island \<in> set (fst (build_island fl fw z ls exs st island_ex)).
          set (external_lines island) \<subseteq> set ls" .
qed

lemma islands_of_lines_external_lines:
  assumes "islands_of_lines env layer first_layer layer_lines = Some (result_islands, m)"
  shows "\<forall>island \<in> set result_islands. set (external_lines island) \<subseteq> set layer_lines"
proof -
  let ?exs = "extract_extrusions layer_lines"
  let ?seed = "seed_backup layer_lines ?exs (seed_islands layer_lines ?exs)"
  obtain ds ies where seed: "?seed = (ds, ies)" by (cases ?seed) auto
  from seed_backup_indices [of "seed_islands layer_lines ?exs" ?exs layer_lines] seed_islands_indices [of layer_lines ?exs] seed
  have s: "length ds = length ies" "\<forall>ie \<in> set ies. \<forall>e \<in> set ie. e < length ?exs"
    by simp_all
  from assms seed obtain ies1 ies2 region where
    a: "assign_extrusions env layer_lines ?exs ds ies = Some ies1"
    and mg: "merge_islands env ds ies1 = Some ies2"
    and r: "build_islands first_layer (get_flow_width region erExternalPerimeter)
               (slice_z layer) layer_lines ?exs ies2 = (result_islands, m)"
    by (auto simp add: islands_of_lines_def Let_def split: bind_splits)
  from assign_extrusions_indices [OF a s(2)]
  have s1: "length ies1 = length ies" "\<forall>ie \<in> set ies1. \<forall>e \<in> set ie. e < length ?exs"
    by simp_all
  from s(1) s1(1) have "length ds = length ies1" by simp
  from merge_islands_indices [OF mg this s1(2)]
  have s2: "\<forall>ie \<in> set ies2. \<forall>e \<in> set ie. e < length ?exs" .
  have "\<forall>ex \<in> set ?exs. snd ex \<le> length layer_lines"
    using extract_extrusions_range by blast
  from build_islands_external_lines [OF s2 this, of first_layer "get_flow_width region erExternalPerimeter" "slice_z layer"] r
  show ?thesis by simp
qed

lemma overlap_step_external_lines:
  assumes "overlap_step cg pg z isls coords = Some isls'"
    and "\<forall>island \<in> set isls. set (external_lines island) \<subseteq> S"
  shows "\<forall>island \<in> set isls'. set (external_lines island) \<subseteq> S"
proof -
  from assms(1) have "isls' = isls \<or>
      (\<exists>cur island f. cur < length isls \<and> island = isls ! cur
          \<and> isls' = isls[cur := island\<lparr>connected_islands := f\<rparr>])"
    by (auto simp add: overlap_step_def at_index_def split: bind_splits if_splits)
  then show ?thesis
  proof
    assume "isls' = isls"
    with assms(2) show ?thesis by simp
  next
    assume "\<exists>cur island f. cur < length isls \<and> island = isls ! cur
          \<and> isls' = isls[cur := island\<lparr>connected_islands := f\<rparr>]"
    then obtain cur f where cur: "cur < length isls"
      and r: "isls' = isls[cur := (isls ! cur)\<lparr>connected_islands := f\<rparr>]" by blast
    from cur assms(2) have "set (external_lines (isls ! cur)) \<subseteq> S" using nth_mem by blast
    then have new: "set (external_lines ((isls ! cur)\<lparr>connected_islands := f\<rparr>)) \<subseteq> S" by simp
    have "set isls' \<subseteq> insert ((isls ! cur)\<lparr>connected_islands := f\<rparr>) (set isls)"
      unfolding r by (rule set_update_subset_insert)
    with new assms(2) show ?thesis by blast
  qed
qed

lemma compute_overlaps_external_lines:
  assumes "compute_overlaps cg pg z isls = Some isls'"
    and "\<forall>island \<in> set isls. set (external_lines island) \<subseteq> S"
  shows "\<forall>island \<in> set isls'. set (external_lines island) \<subseteq> S"
proof -
  from assms(1) have run: "for_each (overlap_step cg pg z) isls (all_cells cg) = Some isls'"
    by (simp add: compute_overlaps_cells)
  show ?thesis
    by (rule for_each_invariant [OF run, where P = "\<lambda>isls. \<forall>island \<in> set isls. set (external_lines island) \<subseteq> S"])
      (use assms(2) overlap_step_external_lines in blast)+
qed

lemma reckon_islands_external_lines:
  assumes "reckon_islands env layer first_layer n prev_layer_grid layer_lines params
           = Some (layer_islands, grid)"
  shows "\<forall>island \<in> set (islands layer_islands). set (external_lines island) \<subseteq> set layer_lines"
proof -
  from assms obtain isls m cg isls' where
    i: "islands_of_lines env layer first_layer layer_lines = Some (isls, m)"
    and o: "compute_overlaps cg prev_layer_grid (slice_z layer) isls = Some isls'"
    and r: "layer_islands = \<lparr>islands = isls', layer_z = slice_z layer\<rparr>"
    by (auto simp add: reckon_islands_def split: bind_splits)
  from compute_overlaps_external_lines [OF o islands_of_lines_external_lines [OF i]] r
  show ?thesis by simp
qed


lemma raw_lines_consistent: "\<forall>l \<in> set (raw_lines env e). consistent_length l"
  by (auto simp add: raw_lines_def consistent_new_ExtrusionLine)

lemma base_perimeter_lines_consistent:
  assumes "base_perimeter_lines env layer_lines perimeter = Some layer_lines'"
    and "\<forall>l \<in> set layer_lines. consistent_length l"
  shows "\<forall>l \<in> set layer_lines'. consistent_length l"
  using assms raw_lines_consistent [of env perimeter]
  by (auto simp add: base_perimeter_lines_def Let_def consistent_new_ExtrusionLine split: if_splits)

lemma base_region_lines_consistent:
  assumes "base_region_lines env layer_lines layer_region = Some layer_lines'"
    and "\<forall>l \<in> set layer_lines. consistent_length l"
  shows "\<forall>l \<in> set layer_lines'. consistent_length l"
proof -
  let ?P = "\<lambda>ls. \<forall>l \<in> set ls. consistent_length l"
  let ?perimeters = "\<lambda>layer_lines ex_entity. do {
                   es \<leftarrow> collection_entities ex_entity;
                   for_each (base_perimeter_lines env) layer_lines es
                 }"
  let ?fills = "\<lambda>layer_lines ex_entity. do {
                 es \<leftarrow> collection_entities ex_entity;
                 for_each (\<lambda>layer_lines fill. Some (layer_lines @ raw_lines env fill)) layer_lines es
               }"
  from assms(1) obtain ls1 where
    p: "for_each ?perimeters layer_lines (perimeters layer_region) = Some ls1"
    and f: "for_each ?fills ls1 (fills layer_region) = Some layer_lines'"
    by (auto simp add: base_region_lines_def split: bind_splits)
  have "?P ls1"
  proof (rule for_each_invariant [OF p, where P = ?P])
    show "?P layer_lines" by (rule assms(2))
  next
    fix ls ex_entity ls'
    assume "?P ls" and "?perimeters ls ex_entity = Some ls'"
    then obtain es where run: "for_each (base_perimeter_lines env) ls es = Some ls'"
      by (auto split: bind_splits)
    show "?P ls'"
      by (rule for_each_invariant [OF run, where P = ?P])
        (use \<open>?P ls\<close> base_perimeter_lines_consistent in blast)+
  qed
  show ?thesis
  proof (rule for_each_invariant [OF f, where P = ?P])
    show "?P ls1" by fact
  next
    fix ls ex_entity ls'
    assume "?P ls" and "?fills ls ex_entity = Some ls'"
    then obtain es where
      run: "for_each (\<lambda>layer_lines fill. Some (layer_lines @ raw_lines env fill)) ls es = Some ls'"
      by (auto split: bind_splits)
    show "?P ls'"
    proof (rule for_each_invariant [OF run, where P = ?P])
      show "?P ls" by fact
    next
      fix t fill t'
      assume "?P t" "Some (t @ raw_lines env fill) = Some t'"
      with raw_lines_consistent [of env fill] show "?P t'" by auto
    qed
  qed
qed

lemma check_path_consistent:
  assumes "check_path env params z region prev entity st = Some st'"
    and "\<forall>l \<in> set (fst st). consistent_length l"
  shows "\<forall>l \<in> set (fst st'). consistent_length l"
proof -
  obtain out issues where st: "st = (out, issues)" by (cases st) auto
  obtain out' issues' where st': "st' = (out', issues')" by (cases st') auto
  from check_path_lines [OF assms(1) [unfolded st st']]
  have new: "\<forall>l \<in> set (drop (length out) out'). consistent_length l" by simp
  from assms(1) st st' have "take (length out) out' = out"
    by (auto simp add: check_path_def Let_def split: bind_splits)
  then have "set out' = set out \<union> set (drop (length out) out')"
    by (metis append_take_drop_id set_append)
  with new assms(2) st st' show ?thesis by auto
qed

lemma check_extrusion_entity_stability_consistent:
  "(check_extrusion_entity_stability env params z region prev entity st = Some st' \<longrightarrow>
      (\<forall>l \<in> set (fst st). consistent_length l) \<longrightarrow> (\<forall>l \<in> set (fst st'). consistent_length l))"
  "(check_extrusion_entities_stability env params z region prev es st = Some st' \<longrightarrow>
      (\<forall>l \<in> set (fst st). consistent_length l) \<longrightarrow> (\<forall>l \<in> set (fst st'). consistent_length l))"
proof (induction env params z region prev entity st and env params z region prev es st
    arbitrary: st' and st'
    rule: check_extrusion_entity_stability_check_extrusion_entities_stability.induct)
  case (1 env params layer_z layer_region prev_layer_lines ad r coll lp pts mm es st)
  show ?case
  proof (cases coll)
    case True
    with 1 show ?thesis by simp
  next
    case False
    with check_path_consistent show ?thesis by auto
  qed
next
  case (2 env params layer_z layer_region prev_layer_lines st)
  show ?case by simp
next
  case (3 env params layer_z layer_region prev_layer_lines e es st)
  show ?case
  proof (intro impI)
    assume run: "check_extrusion_entities_stability env params layer_z layer_region prev_layer_lines
                   (e # es) st = Some st'"
      and c: "\<forall>l \<in> set (fst st). consistent_length l"
    from run obtain st1 where
      a: "check_extrusion_entity_stability env params layer_z layer_region prev_layer_lines e st = Some st1"
      and b: "check_extrusion_entities_stability env params layer_z layer_region prev_layer_lines es st1 = Some st'"
      by (auto split: bind_splits)
    from "3.IH"(1) a c have "\<forall>l \<in> set (fst st1). consistent_length l" by blast
    with "3.IH"(2) [OF a] b show "\<forall>l \<in> set (fst st'). consistent_length l" by blast
  qed
qed

lemma check_fill_consistent:
  assumes "check_fill env params z region prev st fill = Some st'"
    and "\<forall>l \<in> set (fst st). consistent_length l"
  shows "\<forall>l \<in> set (fst st'). consistent_length l"
proof (cases "role fill = erGapFill \<or> role fill = erBridgeInfill")
  case True
  with assms(1) have "check_extrusion_entity_stability env params z region prev fill st = Some st'"
    by (simp add: check_fill_def)
  with check_extrusion_entity_stability_consistent(1) assms(2) show ?thesis by blast
next
  case False
  with assms(1) have "st' = (fst st @ raw_lines env fill, snd st)" by (simp add: check_fill_def)
  with assms(2) raw_lines_consistent [of env fill] show ?thesis by auto
qed

lemma check_region_consistent:
  assumes "check_region env params z prev st layer_region = Some st'"
    and "\<forall>l \<in> set (fst st). consistent_length l"
  shows "\<forall>l \<in> set (fst st'). consistent_length l"
proof -
  let ?P = "\<lambda>st :: ExtrusionLine list \<times> Issues. \<forall>l \<in> set (fst st). consistent_length l"
  let ?perimeters = "\<lambda>st ex_entity. do {
                        es \<leftarrow> collection_entities ex_entity;
                        for_each (\<lambda>st perimeter.
                                    check_extrusion_entity_stability env params z layer_region
                                      prev perimeter st)
                          st es
                      }"
  let ?fills = "\<lambda>st ex_entity. do {
                 es \<leftarrow> collection_entities ex_entity;
                 for_each (check_fill env params z layer_region prev) st es
               }"
  from assms(1) obtain st1 where
    p: "for_each ?perimeters st (perimeters layer_region) = Some st1"
    and f: "for_each ?fills st1 (fills layer_region) = Some st'"
    by (auto simp add: check_region_def split: bind_splits)
  have "?P st1"
  proof (rule for_each_invariant [OF p, where P = ?P])
    show "?P st" by (rule assms(2))
  next
    fix t ex_entity t'
    assume "?P t" and "?perimeters t ex_entity = Some t'"
    then obtain es where
      run: "for_each (\<lambda>st perimeter. check_extrusion_entity_stability env params z layer_region
                                      prev perimeter st) t es = Some t'"
      by (auto split: bind_splits)
    show "?P t'"
      by (rule for_each_invariant [OF run, where P = ?P])
        (use \<open>?P t\<close> check_extrusion_entity_stability_consistent(1) in blast)+
  qed
  show ?thesis
  proof (rule for_each_invariant [OF f, where P = ?P])
    show "?P st1" by fact
  next
    fix t ex_entity t'
    assume "?P t" and "?fills t ex_entity = Some t'"
    then obtain es where
      run: "for_each (check_fill env params z layer_region prev) t es = Some t'"
      by (auto split: bind_splits)
    show "?P t'"
      by (rule for_each_invariant [OF run, where P = ?P])
        (use \<open>?P t\<close> check_fill_consistent in blast)+
  qed
qed

lemma build_layer_consistent:
  assumes "build_layer env params st layer = Some st'"
    and "\<forall>layer_islands \<in> set (fst (snd st)). \<forall>island \<in> set (islands layer_islands).
           \<forall>l \<in> set (external_lines island). consistent_length l"
  shows "\<forall>layer_islands \<in> set (fst (snd st')). \<forall>island \<in> set (islands layer_islands).
           \<forall>l \<in> set (external_lines island). consistent_length l"
proof -
  obtain issues islands_graph prev grid where st: "st = (issues, islands_graph, prev, grid)"
    by (cases st) auto
  from assms(1) st obtain layer_lines issues' layer_islands layer_grid where
    c: "for_each (check_region env params (slice_z layer) prev) ([], issues) (regions layer)
        = Some (layer_lines, issues')"
    and r: "reckon_islands env layer False 0 grid layer_lines params = Some (layer_islands, layer_grid)"
    and st': "st' = (issues', islands_graph @ [layer_islands], layer_lines, layer_grid)"
    by (auto simp add: build_layer_def split: bind_splits)
  have "\<forall>l \<in> set (fst (layer_lines, issues')). consistent_length l"
    by (rule for_each_invariant [OF c,
          where P = "\<lambda>st :: ExtrusionLine list \<times> Issues. \<forall>l \<in> set (fst st). consistent_length l"])
      (use check_region_consistent in \<open>simp, blast\<close>)
  with reckon_islands_external_lines [OF r]
  have "\<forall>island \<in> set (islands layer_islands). \<forall>l \<in> set (external_lines island). consistent_length l"
    by auto
  with assms(2) st st' show ?thesis by auto
qed

lemma graph_lines_consistent:
  assumes "check_extrusions_and_build_graph env po params = Some (issues, islands_graph)"
  shows "\<forall>layer_islands \<in> set islands_graph. \<forall>island \<in> set (islands layer_islands).
           \<forall>l \<in> set (external_lines island). consistent_length l"
proof -
  let ?P = "\<lambda>st :: Issues \<times> LayerIslands list \<times> LinesDistancer \<times> PixelGrid.
              \<forall>layer_islands \<in> set (fst (snd st)). \<forall>island \<in> set (islands layer_islands).
                \<forall>l \<in> set (external_lines island). consistent_length l"
  from assms obtain layer grid0 layer_lines layer_islands layer_grid prev grid where
    b: "for_each (base_region_lines env) [] (regions layer) = Some layer_lines"
    and r: "reckon_islands env layer True 0 grid0 layer_lines params = Some (layer_islands, layer_grid)"
    and l: "for_each (build_layer env params)
              (\<lparr>support_points = []\<rparr>, [layer_islands], layer_lines, layer_grid)
              (drop 1 (layers po)) = Some (issues, islands_graph, prev, grid)"
    by (auto simp add: check_extrusions_and_build_graph_def split: bind_splits)
  have "\<forall>l \<in> set layer_lines. consistent_length l"
    by (rule for_each_invariant [OF b, where P = "\<lambda>ls. \<forall>l \<in> set ls. consistent_length l"])
      (use base_region_lines_consistent in \<open>simp, blast\<close>)
  with reckon_islands_external_lines [OF r]
  have start: "?P (\<lparr>support_points = []\<rparr>, [layer_islands], layer_lines, layer_grid)" by auto
  have "?P (issues, islands_graph, prev, grid)"
  proof (rule for_each_invariant [OF l, where P = ?P])
    show "?P (\<lparr>support_points = []\<rparr>, [layer_islands], layer_lines, layer_grid)" by (rule start)
  next
    fix t layer' t'
    assume "?P t" "build_layer env params t layer' = Some t'"
    from build_layer_consistent [OF this(2) this(1)] show "?P t'" .
  qed
  then show ?thesis by simp
qed


lemma graph_stability_calls_nonzero:
  assumes graph: "check_extrusions_and_build_graph env po params = Some (issues, islands_graph)"
    and island: "layer_islands \<in> set islands_graph" "island \<in> set (islands layer_islands)"
    and run: "for_each (check_external_line env' params' z island) st (external_lines island) = Some st'"
    and call: "l \<in> set (stability_calls st')" "l \<notin> set (stability_calls st)"
  shows "len l \<noteq> 0 \<and> sub2 (line_b l) (line_a l) \<noteq> (0, 0)"
proof -
  from external_lines_calls [OF run] call
  have l: "l \<in> set (external_lines island)" "len l \<noteq> 0" by auto
  from graph_lines_consistent [OF graph] island l(1) have "consistent_length l" by blast
  from consistent_length_nonzero [OF this l(2)] l(2) show ?thesis by simp
qed

end
